(* ===== verification/Paddle_Prelude.thy ===== *)
theory Paddle_Prelude
  imports Complex_Main "HOL-Library.Stream"
begin

text \<open>
  Shared vocabulary of the development: how the JavaScript values of
  \<^verbatim>\<open>src/app/page.tsx\<close> are represented, the random source, and the list
  operations that stand for the array methods the program uses.

  \<^item> A JavaScript \<^verbatim>\<open>number\<close> is a \<open>real\<close> when it is a coordinate, a radius, a speed or
    an opacity, an \<open>int\<close> when the program only ever stores integers in it (scores,
    points, millisecond timestamps) and a \<open>nat\<close> when it is a counter that starts at 0
    and is only incremented. Rounding of IEEE doubles, infinities and NaN are not
    represented.
  \<^item> \<^verbatim>\<open>Math.random()\<close> reads the head of a stream of reals and leaves its tail; the
    stream is part of the state that is passed along. \<open>rng_ok\<close> says that every
    element lies in \<open>[0, 1)\<close>, which is what the function promises.
  \<^item> \<^verbatim>\<open>Date.now()\<close> is an argument \<open>now\<close> of the handler that reads it.
  \<^item> An optional field is an \<open>option\<close>.
\<close>

section \<open>Fact collections\<close>

named_theorems pg_defs "definitions of the canvas constants and of small helpers"
named_theorems pg_frame "fields that an operation leaves unchanged"
named_theorems pg_wf "well-formedness facts kept by the operations"

section \<open>Clamping\<close>

text \<open>\<^verbatim>\<open>Math.max(lo, Math.min(hi, v))\<close>, as the proofs about the oscillation use it.\<close>

definition clamp :: "real \<Rightarrow> real \<Rightarrow> real \<Rightarrow> real" where
  "clamp lo hi v = max lo (min hi v)"

section \<open>The random source\<close>

type_synonym rng = "real stream"

definition Math_random :: "rng \<Rightarrow> real \<times> rng" where
  "Math_random r = (shd r, stl r)"

definition rng_ok :: "rng \<Rightarrow> bool" where
  "rng_ok r \<longleftrightarrow> r \<in> streams {0..<1}"

section \<open>Arrays\<close>

text \<open>
  \<^verbatim>\<open>xs.splice(i, 1)\<close> removes the element at index \<open>i\<close>; an index past the end removes
  nothing. \<^verbatim>\<open>xs.push(v)\<close> is \<open>xs @ [v]\<close>.
\<close>

definition splice1 :: "nat \<Rightarrow> 'a list \<Rightarrow> 'a list" where
  "splice1 i xs = take i xs @ drop (Suc i) xs"

text \<open>
  The program prunes its effect lists with one loop shape: it walks the array from the
  last index down to 0, updates the element in place, and removes it with
  \<^verbatim>\<open>splice(i, 1)\<close> when it has expired. \<open>sweep f i xs\<close> is that loop with \<open>i\<close> indices
  still to visit; \<open>f\<close> returns the updated element, or \<open>None\<close> for an element to
  remove.
\<close>

fun sweep :: "('a \<Rightarrow> 'a option) \<Rightarrow> nat \<Rightarrow> 'a list \<Rightarrow> 'a list" where
  "sweep f 0 xs = xs"
| "sweep f (Suc i) xs =
     (case f (xs ! i) of
        None \<Rightarrow> sweep f i (splice1 i xs)
      | Some y \<Rightarrow> sweep f i (xs[i := y]))"

section \<open>Real numbers\<close>

lemma clamp_lower: "lo \<le> clamp lo hi v"
  by (simp add: clamp_def)

lemma clamp_upper: "lo \<le> hi \<Longrightarrow> clamp lo hi v \<le> hi"
  by (simp add: clamp_def)

lemma clamp_id: "lo \<le> v \<Longrightarrow> v \<le> hi \<Longrightarrow> clamp lo hi v = v"
  by (simp add: clamp_def)

lemma clamp_inverted: "hi < lo \<Longrightarrow> clamp lo hi v = lo"
  by (simp add: clamp_def)

lemma clamp_shift:
  "lo \<le> x \<Longrightarrow> x \<le> hi \<Longrightarrow> \<bar>d\<bar> \<le> b \<Longrightarrow> \<bar>clamp lo hi (x + d) - x\<bar> \<le> b"
  by (auto simp: clamp_def max_def min_def abs_le_iff)

lemma sin_times2_bound: "\<bar>sin (a::real) * 2\<bar> \<le> 2"
  using abs_sin_le_one [of a] by (simp add: abs_mult)

lemma sqrt_square_diff [simp]: "sqrt ((a - b)\<^sup>2) = \<bar>a - b\<bar>"
  by simp

lemma sqrt_sum_squares_zero_iff:
  "sqrt (a\<^sup>2 + b\<^sup>2) = 0 \<longleftrightarrow> a = 0 \<and> b = (0::real)"
  by simp

lemma sqrt_le_iff_squares:
  "0 \<le> r \<Longrightarrow> sqrt (a\<^sup>2 + b\<^sup>2) \<le> r \<longleftrightarrow> a\<^sup>2 + b\<^sup>2 \<le> r\<^sup>2"
  using real_sqrt_le_iff [of "a\<^sup>2 + b\<^sup>2" "r\<^sup>2"] by simp

lemma unit_scale_le:
  "0 \<le> v \<Longrightarrow> v \<le> 1 \<Longrightarrow> 0 \<le> d \<Longrightarrow> 0 \<le> v * d \<and> v * d \<le> (d::real)"
  using mult_right_mono [of v 1 d] by simp

lemma unit_scale_less:
  "0 \<le> v \<Longrightarrow> v < 1 \<Longrightarrow> 0 < d \<Longrightarrow> 0 \<le> v * d \<and> v * d < (d::real)"
  using mult_strict_right_mono [of v 1 d] by simp

text \<open>
  A loop \<^verbatim>\<open>for (x = a; x < w; x += d)\<close> over numbers: the number of steps still to take,
  \<open>\<lceil>(w - x) / d\<rceil>\<close>, is positive while the loop runs and falls by one in each step.
\<close>

lemma stride_ceiling:
  assumes "0 < d" and "x < w"
  shows "\<lceil>(w - (x + d)) / d\<rceil> < \<lceil>(w - x) / (d::real)\<rceil>" and "0 < \<lceil>(w - x) / d\<rceil>"
proof -
  from assms have "(w - (x + d)) / d = (w - x) / d - 1" by (simp add: field_simps)
  then have "\<lceil>(w - (x + d)) / d\<rceil> = \<lceil>(w - x) / d\<rceil> - 1" by simp
  then show "\<lceil>(w - (x + d)) / d\<rceil> < \<lceil>(w - x) / d\<rceil>" by simp
  from assms show "0 < \<lceil>(w - x) / d\<rceil>" by (simp add: ceiling_less_iff)
qed

section \<open>Random numbers\<close>

lemma Math_random_simps [simp]:
  "fst (Math_random r) = shd r" "snd (Math_random r) = stl r"
  by (simp_all add: Math_random_def)

lemma rng_ok_shd: "rng_ok r \<Longrightarrow> 0 \<le> shd r \<and> shd r < 1"
  by (auto simp: rng_ok_def dest: streams_shd)

lemma rng_ok_stl [pg_wf]: "rng_ok r \<Longrightarrow> rng_ok (stl r)"
  by (simp add: rng_ok_def streams_stl)

lemma rng_ok_sdrop [pg_wf]: "rng_ok r \<Longrightarrow> rng_ok (sdrop n r)"
  by (induction n arbitrary: r) (simp_all add: rng_ok_stl)

lemma rng_ok_SCons [simp]: "rng_ok (v ## r) \<longleftrightarrow> 0 \<le> v \<and> v < 1 \<and> rng_ok r"
  by (auto simp: rng_ok_def streams_Stream)

lemma rng_ok_sconst [simp]: "rng_ok (sconst v) \<longleftrightarrow> 0 \<le> v \<and> v < 1"
  by (auto simp: rng_ok_def streams_iff_sset)

lemma rng_ok_snth: "rng_ok r \<Longrightarrow> 0 \<le> r !! n \<and> r !! n < 1"
  using snth_in [of r "{0..<1}" n] by (simp add: rng_ok_def)

lemma sdrop_Suc_stl: "sdrop (Suc n) r = sdrop n (stl r)"
  by simp

section \<open>Removing one element\<close>

lemma length_splice1 [simp]:
  "length (splice1 i xs) = (if i < length xs then length xs - 1 else length xs)"
  by (auto simp: splice1_def)

lemma set_splice1_subset: "set (splice1 i xs) \<subseteq> set xs"
  by (auto simp: splice1_def dest: in_set_takeD in_set_dropD)

lemma splice1_beyond: "length xs \<le> i \<Longrightarrow> splice1 i xs = xs"
  by (simp add: splice1_def)

lemma splice1_Cons_0 [simp]: "splice1 0 (x # xs) = xs"
  by (simp add: splice1_def)

lemma splice1_Cons_Suc [simp]: "splice1 (Suc i) (x # xs) = x # splice1 i xs"
  by (simp add: splice1_def)

lemma splice1_Nil [simp]: "splice1 i [] = []"
  by (simp add: splice1_def)

lemma list_all_splice1: "list_all P xs \<Longrightarrow> list_all P (splice1 i xs)"
  using set_splice1_subset [of i xs] by (auto simp: list_all_iff)

lemma distinct_map_splice1: "distinct (map f xs) \<Longrightarrow> distinct (map f (splice1 i xs))"
proof -
  assume d: "distinct (map f xs)"
  have "map f xs = map f (take i xs) @ map f (drop i xs)"
    by (metis append_take_drop_id map_append)
  with d have "distinct (map f (take i xs) @ map f (drop i xs))" by simp
  moreover have "set (map f (drop (Suc i) xs)) \<subseteq> set (map f (drop i xs))"
    by (metis drop_map set_drop_subset_set_drop Suc_n_not_le_n nat_le_linear)
  moreover have "distinct (map f (drop (Suc i) xs))"
    using d by (metis distinct_drop drop_map)
  ultimately show ?thesis
    unfolding splice1_def by auto
qed

lemma take_splice1 [simp]: "take i (splice1 i xs) = take i xs"
  by (simp add: splice1_def min_def)

lemma drop_splice1 [simp]: "drop i (splice1 i xs) = drop (Suc i) xs"
  by (cases "i \<le> length xs") (simp_all add: splice1_def min_def)

section \<open>The pruning loop is a filtering map\<close>

lemma sweep_eq:
  "i \<le> length xs \<Longrightarrow> sweep f i xs = List.map_filter f (take i xs) @ drop i xs"
proof (induction i arbitrary: xs)
  case 0
  then show ?case by (simp add: List.map_filter_simps)
next
  case (Suc i)
  then have i: "i < length xs" by simp
  then have tk: "take (Suc i) xs = take i xs @ [xs ! i]" by (simp add: take_Suc_conv_app_nth)
  show ?case
  proof (cases "f (xs ! i)")
    case None
    from i have "i \<le> length (splice1 i xs)" by simp
    then have "sweep f i (splice1 i xs) = List.map_filter f (take i xs) @ drop (Suc i) xs"
      by (simp add: Suc.IH)
    with None show ?thesis by (simp add: tk map_filter_def)
  next
    case (Some y)
    from i have "drop i (xs[i := y]) = y # drop (Suc i) xs"
      by (simp add: upd_conv_take_nth_drop)
    with i have "sweep f i (xs[i := y]) = List.map_filter f (take i xs) @ y # drop (Suc i) xs"
      by (simp add: Suc.IH)
    with Some show ?thesis by (simp add: tk map_filter_def)
  qed
qed

lemma sweep_all: "sweep f (length xs) xs = List.map_filter f xs"
  by (simp add: sweep_eq)

lemma length_sweep_le: "length (sweep f (length xs) xs) \<le> length xs"
  by (simp add: sweep_all map_filter_def)

lemma list_all_map_filter:
  "(\<And>x y. x \<in> set xs \<Longrightarrow> f x = Some y \<Longrightarrow> Q y) \<Longrightarrow> list_all Q (List.map_filter f xs)"
  by (auto simp: map_filter_def list_all_iff)

lemma map_filter_comp:
  "List.map_filter g (List.map_filter f xs) = List.map_filter (\<lambda>x. Option.bind (f x) g) xs"
  by (induction xs) (auto simp: List.map_filter_simps split: option.splits)

text \<open>
  C32. The pruning loop, which walks the array from its last index down to 0 and
  removes elements in place while it iterates, visits every element exactly once: its
  result is the list of the updated survivors in their original order, and it is never
  longer than the array was.
\<close>

theorem sweep_is_map_filter:
  "sweep f (length xs) xs = List.map_filter f xs \<and> length (sweep f (length xs) xs) \<le> length xs"
  by (simp add: sweep_all map_filter_def)

end
