(* ===== verification/Game_Data.thy ===== *)
theory Game_Data
  imports Paddle_Prelude
begin

text \<open>
  The data model of \<^verbatim>\<open>src/app/page.tsx\<close>: the two enumerations, the four interfaces,
  the object held by \<^verbatim>\<open>gameRef\<close>, the canvas size and the layout constants derived
  from it. Field names carry a prefix per record, because a record field is a constant
  of the theory; otherwise they are the names of the source. A field declared with
  \<^verbatim>\<open>?\<close> in the source is an \<open>option\<close> here.
\<close>

section \<open>Enumerations and interfaces\<close>

datatype GameState = Menu | Game | End

datatype Difficulty = Easy | Intermediate | Hard

datatype Size = Small | Large

text \<open>
  The difficulties are ordered as the source lists them, from the easiest to the
  hardest, so that a property can say that a mode is at least as hard as another.
\<close>

fun level :: "Difficulty \<Rightarrow> nat" where
  "level Easy = 0"
| "level Intermediate = 1"
| "level Hard = 2"

instantiation Difficulty :: linorder
begin

definition less_eq_Difficulty :: "Difficulty \<Rightarrow> Difficulty \<Rightarrow> bool" where
  "d \<le> e \<longleftrightarrow> level d \<le> level e"

definition less_Difficulty :: "Difficulty \<Rightarrow> Difficulty \<Rightarrow> bool" where
  "d < e \<longleftrightarrow> level d < level e"

instance
proof
  fix x y z :: Difficulty
  show "x < y \<longleftrightarrow> x \<le> y \<and> \<not> y \<le> x"
    by (auto simp: less_eq_Difficulty_def less_Difficulty_def)
  show "x \<le> x" by (simp add: less_eq_Difficulty_def)
  show "x \<le> y \<Longrightarrow> y \<le> z \<Longrightarrow> x \<le> z" by (simp add: less_eq_Difficulty_def)
  show "x \<le> y \<Longrightarrow> y \<le> x \<Longrightarrow> x = y"
    by (cases x; cases y) (simp_all add: less_eq_Difficulty_def)
  show "x \<le> y \<or> y \<le> x" by (auto simp: less_eq_Difficulty_def)
qed

end

record Target =
  t_id :: nat
  t_x :: real
  t_y :: real
  t_radius :: real
  t_size :: Size
  t_velocity :: "real option"
  t_direction :: "real option"
  t_createdAt :: "int option"

record Feedback =
  f_x :: real
  f_y :: real
  f_text :: string
  f_points :: int
  f_opacity :: real
  f_isMiss :: "bool option"

record Sparkle =
  s_x :: real
  s_y :: real
  s_life :: real
  s_angle :: real
  s_speed :: real
  s_rotation :: "real option"

record GameStats =
  finalScore :: int
  st_perfectHits :: nat
  st_totalHits :: nat
  st_reactionTimes :: "int list"
  averageReactionTime :: real
  mode :: Difficulty

section \<open>The mutable game variables\<close>

record gameRef =
  score :: int
  timeLeft :: real
  targets :: "Target list"
  feedback :: "Feedback list"
  sparkles :: "Sparkle list"
  nextTargetId :: nat
  perfectHits :: nat
  totalHits :: nat
  mousePos :: "real \<times> real"
  reactionTimes :: "int list"

definition fresh_gameRef :: gameRef where
  "fresh_gameRef = \<lparr> score = 0, timeLeft = 60, targets = [], feedback = [], sparkles = [],
     nextTargetId = 0, perfectHits = 0, totalHits = 0, mousePos = (0, 0),
     reactionTimes = [] \<rparr>"

section \<open>Canvas and layout constants\<close>

record canvas =
  width :: real
  height :: real

definition initial_canvas :: canvas where
  "initial_canvas = \<lparr> width = 0, height = 0 \<rparr>"

definition CANVAS_WIDTH :: "canvas \<Rightarrow> real" where
  [pg_defs]: "CANVAS_WIDTH cv = width cv"

definition CANVAS_HEIGHT :: "canvas \<Rightarrow> real" where
  [pg_defs]: "CANVAS_HEIGHT cv = height cv"

definition TARGET_AREA_TOP :: real where
  [pg_defs]: "TARGET_AREA_TOP = 40"

definition TARGET_AREA_BOTTOM :: "canvas \<Rightarrow> real" where
  [pg_defs]: "TARGET_AREA_BOTTOM cv = CANVAS_HEIGHT cv * 0.4"

definition TARGET_SPAWN_Y :: "canvas \<Rightarrow> real" where
  [pg_defs]: "TARGET_SPAWN_Y cv = CANVAS_HEIGHT cv * 0.4"

definition NET_Y :: "canvas \<Rightarrow> real" where
  [pg_defs]: "NET_Y cv = CANVAS_HEIGHT cv * 0.65"

definition NET_HEIGHT :: "canvas \<Rightarrow> real" where
  [pg_defs]: "NET_HEIGHT cv = CANVAS_HEIGHT cv - NET_Y cv"

text \<open>Two screens and a large target, as sample inputs for the instances below.\<close>

abbreviation full_hd :: canvas where
  "full_hd \<equiv> \<lparr> width = 1920, height = 1080 \<rparr>"

abbreviation hd_720 :: canvas where
  "hd_720 \<equiv> \<lparr> width = 1280, height = 720 \<rparr>"

abbreviation large_target :: "nat \<Rightarrow> real \<Rightarrow> real \<Rightarrow> int \<Rightarrow> Target" where
  "large_target n x y created \<equiv>
     \<lparr> t_id = n, t_x = x, t_y = y, t_radius = 190, t_size = Large,
       t_velocity = Some 0, t_direction = Some 1, t_createdAt = Some created \<rparr>"

section \<open>Well-formed targets\<close>

text \<open>
  What the only constructor of targets, \<^verbatim>\<open>addNewTarget\<close>, establishes: the radius is
  the one of the size class, and the three optional fields are present, with a
  direction of \<open>1\<close> or \<open>-1\<close> and a velocity that is not negative.
\<close>

definition radius_of :: "Size \<Rightarrow> real" where
  "radius_of sz = (if sz = Large then 190 else 130)"

definition target_wf :: "Target \<Rightarrow> bool" where
  "target_wf t \<longleftrightarrow>
     t_radius t = radius_of (t_size t) \<and>
     (case t_velocity t of None \<Rightarrow> False | Some v \<Rightarrow> 0 \<le> v) \<and>
     (t_direction t = Some 1 \<or> t_direction t = Some (- 1)) \<and>
     t_createdAt t \<noteq> None"

section \<open>Invariants of the game variables\<close>

text \<open>
  \<open>stats_inv\<close> relates the score and the counters; \<open>targets_inv\<close> says that the live
  targets are well formed and carry distinct identifiers below the next one to be
  given out; \<open>effects_inv\<close> says that every effect still listed is visible.
\<close>

definition stats_inv :: "gameRef \<Rightarrow> bool" where
  "stats_inv g \<longleftrightarrow>
     0 \<le> score g \<and> score g \<le> 100 * int (totalHits g) \<and>
     length (reactionTimes g) = totalHits g \<and> perfectHits g \<le> totalHits g"

definition targets_inv :: "gameRef \<Rightarrow> bool" where
  "targets_inv g \<longleftrightarrow>
     list_all target_wf (targets g) \<and> distinct (map t_id (targets g)) \<and>
     list_all (\<lambda>t. t_id t < nextTargetId g) (targets g)"

definition feedback_visible :: "Feedback \<Rightarrow> bool" where
  "feedback_visible f \<longleftrightarrow> 0 < f_opacity f \<and> f_opacity f \<le> 1"

definition sparkle_visible :: "Sparkle \<Rightarrow> bool" where
  "sparkle_visible s \<longleftrightarrow> 0 < s_life s \<and> s_life s \<le> 1 \<and> s_rotation s \<noteq> None"

definition effects_inv :: "gameRef \<Rightarrow> bool" where
  "effects_inv g \<longleftrightarrow>
     list_all feedback_visible (feedback g) \<and> list_all sparkle_visible (sparkles g)"

definition game_inv :: "gameRef \<Rightarrow> bool" where
  "game_inv g \<longleftrightarrow> stats_inv g \<and> targets_inv g \<and> effects_inv g"

lemmas game_inv_defs = game_inv_def stats_inv_def targets_inv_def effects_inv_def

lemma game_inv_fresh: "game_inv fresh_gameRef"
  by (simp add: game_inv_defs fresh_gameRef_def)

lemma radius_of_cases: "radius_of sz = 190 \<or> radius_of sz = 130"
  by (simp add: radius_of_def)

lemma radius_of_pos [simp]: "0 < radius_of sz"
  by (simp add: radius_of_def)

lemma radius_of_bounds: "130 \<le> radius_of sz \<and> radius_of sz \<le> 190"
  by (simp add: radius_of_def)

lemma radius_of_simps [simp]: "radius_of Large = 190" "radius_of Small = 130"
  by (simp_all add: radius_of_def)

lemma target_wf_radius: "target_wf t \<Longrightarrow> t_radius t = 190 \<or> t_radius t = 130"
  using radius_of_cases by (auto simp: target_wf_def)

lemma target_wf_radius_pos: "target_wf t \<Longrightarrow> 0 < t_radius t"
  by (simp add: target_wf_def)

lemma target_wf_x_update [simp]: "target_wf (t\<lparr>t_x := v\<rparr>) = target_wf t"
  by (simp add: target_wf_def)

lemma target_wf_direction_update [simp]:
  "d = 1 \<or> d = - 1 \<Longrightarrow> target_wf (t\<lparr>t_direction := Some d\<rparr>) = target_wf (t\<lparr>t_direction := Some 1\<rparr>)"
  by (auto simp: target_wf_def)

lemma NET_Y_below_spawn: "0 < height cv \<Longrightarrow> TARGET_SPAWN_Y cv < NET_Y cv"
  by (simp add: pg_defs)

lemma Difficulty_le_simps [simp]:
  "Easy \<le> d" "d \<le> Hard" "d \<le> Easy \<longleftrightarrow> d = Easy" "Hard \<le> d \<longleftrightarrow> d = Hard"
  by (cases d; simp add: less_eq_Difficulty_def)+

end
