(* ===== verification/Spawner.thy ===== *)
theory Spawner
  imports Game_Data
begin

text \<open>
  The target spawner: \<^verbatim>\<open>addNewTarget\<close> of \<^verbatim>\<open>src/app/page.tsx\<close> (lines 129-165).

  The body of its \<^verbatim>\<open>while (!validPosition)\<close> loop is \<open>attempt\<close> (the random draws of
  one iteration) followed by \<open>validPosition\<close> (the inner \<^verbatim>\<open>for\<close> loop with its
  \<^verbatim>\<open>break\<close>). The loop itself is \<open>place_loop\<close>. The source puts no bound on the number
  of iterations, so the loop is a partial function into \<open>option\<close>: \<open>None\<close> is a loop
  that never ends, and \<open>addNewTarget\<close> returns \<open>None\<close> exactly in that case.

  \<open>stride\<close>, \<open>attempt_ok\<close> and \<open>dead_canvas\<close> are notions of the proofs: how many random
  numbers one iteration consumes, whether the iteration that starts at a given point of
  the random stream ends the loop, and whether no draw at all can give a valid
  position.
\<close>

section \<open>One iteration of the placement loop\<close>

type_synonym placement = "Size \<times> real \<times> real"

definition pick_size :: "Difficulty \<Rightarrow> rng \<Rightarrow> Size \<times> rng" where
  "pick_size d r =
     (if d = Easy then (Large, r)
      else (case Math_random r of (v, r') \<Rightarrow> (if v > 0.5 then Large else Small, r')))"

definition sample_x :: "real \<Rightarrow> real \<Rightarrow> rng \<Rightarrow> real \<times> rng" where
  "sample_x W radius r =
     (case Math_random r of (v, r') \<Rightarrow> (v * (W - radius * 2) + radius, r'))"

definition overlaps :: "real \<Rightarrow> real \<Rightarrow> Target \<Rightarrow> bool" where
  "overlaps x radius t \<longleftrightarrow> sqrt ((x - t_x t)\<^sup>2) < radius + t_radius t + 80"

fun validPosition :: "real \<Rightarrow> real \<Rightarrow> Target list \<Rightarrow> bool" where
  "validPosition x radius [] = True"
| "validPosition x radius (t # ts) =
     (if overlaps x radius t then False else validPosition x radius ts)"

definition attempt :: "Difficulty \<Rightarrow> real \<Rightarrow> rng \<Rightarrow> placement \<times> rng" where
  "attempt d W r =
     (case pick_size d r of (sz, r1) \<Rightarrow>
      case sample_x W (radius_of sz) r1 of (x, r2) \<Rightarrow> ((sz, radius_of sz, x), r2))"

section \<open>The loop and the operation\<close>

partial_function (option) place_loop ::
  "Difficulty \<Rightarrow> real \<Rightarrow> Target list \<Rightarrow> rng \<Rightarrow> (placement \<times> rng) option" where
  "place_loop d W ts r =
     (case attempt d W r of ((sz, radius, x), r') \<Rightarrow>
        if validPosition x radius ts then Some ((sz, radius, x), r')
        else place_loop d W ts r')"

definition pick_velocity :: "Difficulty \<Rightarrow> rng \<Rightarrow> real \<times> rng" where
  "pick_velocity d r =
     (if d = Hard then (case Math_random r of (v, r') \<Rightarrow> (v * 1.5 + 0.5, r')) else (0, r))"

definition pick_direction :: "rng \<Rightarrow> real \<times> rng" where
  "pick_direction r = (case Math_random r of (v, r') \<Rightarrow> (if v > 0.5 then 1 else - 1, r'))"

definition new_target ::
  "canvas \<Rightarrow> nat \<Rightarrow> placement \<Rightarrow> real \<Rightarrow> real \<Rightarrow> int \<Rightarrow> Target" where
  "new_target cv n p velocity direction now =
     (case p of (sz, radius, x) \<Rightarrow>
       \<lparr> t_id = n, t_x = x, t_y = TARGET_SPAWN_Y cv, t_radius = radius, t_size = sz,
         t_velocity = Some velocity, t_direction = Some direction,
         t_createdAt = Some now \<rparr>)"

definition currentDifficulty :: "Difficulty option \<Rightarrow> Difficulty \<Rightarrow> Difficulty" where
  "currentDifficulty diff difficulty = (case diff of Some d \<Rightarrow> d | None \<Rightarrow> difficulty)"

definition addNewTarget ::
  "canvas \<Rightarrow> Difficulty \<Rightarrow> int \<Rightarrow> Difficulty option \<Rightarrow> gameRef \<times> rng \<Rightarrow> (gameRef \<times> rng) option" where
  "addNewTarget cv difficulty now diff gr =
     (case gr of (g, r) \<Rightarrow>
      case place_loop (currentDifficulty diff difficulty) (CANVAS_WIDTH cv) (targets g) r of
        None \<Rightarrow> None
      | Some (p, r1) \<Rightarrow>
         (case pick_velocity (currentDifficulty diff difficulty) r1 of (velocity, r2) \<Rightarrow>
          case pick_direction r2 of (direction, r3) \<Rightarrow>
            Some (g\<lparr> targets :=
                       targets g @ [new_target cv (nextTargetId g) p velocity direction now],
                     nextTargetId := nextTargetId g + 1 \<rparr>, r3)))"

section \<open>Notions of the proofs\<close>

definition stride :: "Difficulty \<Rightarrow> nat" where
  "stride d = (if d = Easy then 1 else 2)"

definition attempt_ok :: "Difficulty \<Rightarrow> real \<Rightarrow> Target list \<Rightarrow> rng \<Rightarrow> bool" where
  "attempt_ok d W ts r =
     (case attempt d W r of ((sz, radius, x), r') \<Rightarrow> validPosition x radius ts)"

definition spaced :: "real \<Rightarrow> real \<Rightarrow> Target list \<Rightarrow> bool" where
  "spaced x radius ts \<longleftrightarrow> list_all (\<lambda>t. radius + t_radius t + 80 \<le> \<bar>x - t_x t\<bar>) ts"

definition dead_canvas :: "Difficulty \<Rightarrow> real \<Rightarrow> Target list \<Rightarrow> bool" where
  "dead_canvas d W ts \<longleftrightarrow>
     (\<forall>sz v. (d = Easy \<longrightarrow> sz = Large) \<and> 0 \<le> v \<and> v < 1 \<longrightarrow>
        \<not> validPosition (v * (W - radius_of sz * 2) + radius_of sz) (radius_of sz) ts)"

text \<open>
  The contract of a spawn: what is true of a target \<open>t\<close> that has just been created
  under difficulty \<open>d\<close> at time \<open>now\<close>, next to the targets of \<open>g\<close>.
\<close>

definition spawned :: "canvas \<Rightarrow> Difficulty \<Rightarrow> int \<Rightarrow> gameRef \<Rightarrow> Target \<Rightarrow> bool" where
  "spawned cv d now g t \<longleftrightarrow>
     t_id t = nextTargetId g \<and>
     t_y t = TARGET_SPAWN_Y cv \<and>
     t_radius t = radius_of (t_size t) \<and>
     (d = Easy \<longrightarrow> t_size t = Large) \<and>
     spaced (t_x t) (t_radius t) (targets g) \<and>
     (t_direction t = Some 1 \<or> t_direction t = Some (- 1)) \<and>
     (case t_velocity t of None \<Rightarrow> False
      | Some v \<Rightarrow> if d = Hard then 0.5 \<le> v \<and> v < 2 else v = 0) \<and>
     t_createdAt t = Some now"

section \<open>One iteration\<close>

lemma validPosition_iff_spaced: "validPosition x radius ts \<longleftrightarrow> spaced x radius ts"
  by (induction ts) (auto simp: spaced_def overlaps_def)

lemma validPosition_append [simp]:
  "validPosition x radius (ts @ us) \<longleftrightarrow> validPosition x radius ts \<and> validPosition x radius us"
  by (simp add: validPosition_iff_spaced spaced_def)

lemma pick_size_Easy [simp]: "pick_size Easy r = (Large, r)"
  by (simp add: pick_size_def)

lemma snd_pick_size: "snd (pick_size d r) = (if d = Easy then r else stl r)"
  by (simp add: pick_size_def Math_random_def)

lemma snd_attempt: "snd (attempt d W r) = sdrop (stride d) r"
  by (simp add: attempt_def pick_size_def sample_x_def Math_random_def stride_def
      numeral_2_eq_2 split: prod.splits)

lemma attempt_radius: "attempt d W r = ((sz, radius, x), r') \<Longrightarrow> radius = radius_of sz"
  by (auto simp: attempt_def split: prod.splits)

lemma attempt_Easy:
  "attempt Easy W r = ((Large, 190, shd r * (W - 380) + 190), stl r)"
  by (simp add: attempt_def sample_x_def Math_random_def)

lemma attempt_x_eq:
  "attempt d W r = ((sz, radius, x), r') \<Longrightarrow>
     \<exists>v. v \<in> sset r \<and> x = v * (W - radius * 2) + radius"
  by (auto simp: attempt_def pick_size_def sample_x_def Math_random_def
      split: prod.splits if_splits intro: shd_sset stl_sset)

lemma attempt_x_range:
  assumes "attempt d W r = ((sz, radius, x), r')" and "rng_ok r" and "radius * 2 \<le> W"
  shows "radius \<le> x \<and> x \<le> W - radius"
proof -
  from assms(1) obtain v where v: "v \<in> sset r" "x = v * (W - radius * 2) + radius"
    using attempt_x_eq by blast
  from v(1) assms(2) have "0 \<le> v" "v < 1"
    by (auto simp: rng_ok_def streams_iff_sset)
  moreover have "0 \<le> W - radius * 2" using assms(3) by simp
  ultimately have "0 \<le> v * (W - radius * 2) \<and> v * (W - radius * 2) \<le> W - radius * 2"
    by (intro unit_scale_le) simp_all
  with v(2) show ?thesis by simp
qed

lemma attempt_x_range_strict:
  assumes "attempt d W r = ((sz, radius, x), r')" and "rng_ok r" and "radius * 2 < W"
  shows "radius \<le> x \<and> x < W - radius"
proof -
  from assms(1) obtain v where v: "v \<in> sset r" "x = v * (W - radius * 2) + radius"
    using attempt_x_eq by blast
  from v(1) assms(2) have "0 \<le> v" "v < 1"
    by (auto simp: rng_ok_def streams_iff_sset)
  moreover have "0 < W - radius * 2" using assms(3) by simp
  ultimately have "0 \<le> v * (W - radius * 2) \<and> v * (W - radius * 2) < W - radius * 2"
    by (intro unit_scale_less) simp_all
  with v(2) show ?thesis by simp
qed

section \<open>The placement loop\<close>

lemma attempt_rng: "attempt d W r = (p, r') \<Longrightarrow> r' = sdrop (stride d) r"
  using snd_attempt [of d W r] by simp

lemma place_loop_unfold:
  "place_loop d W ts r =
     (if attempt_ok d W ts r then Some (attempt d W r)
      else place_loop d W ts (sdrop (stride d) r))"
  by (subst place_loop.simps)
     (auto simp: attempt_ok_def split: prod.splits dest: attempt_rng)

lemma place_loop_first:
  assumes "attempt_ok d W ts (sdrop (k * stride d) r)"
    and "\<forall>j<k. \<not> attempt_ok d W ts (sdrop (j * stride d) r)"
  shows "place_loop d W ts r = Some (attempt d W (sdrop (k * stride d) r))"
  using assms
proof (induction k arbitrary: r)
  case 0
  then show ?case by (simp add: place_loop_unfold)
next
  case (Suc k)
  let ?r = "sdrop (stride d) r"
  from Suc.prems(2) have no: "\<not> attempt_ok d W ts r" by force
  have shift: "sdrop (j * stride d) ?r = sdrop (Suc j * stride d) r" for j
    by (simp add: add.commute)
  have "place_loop d W ts ?r = Some (attempt d W (sdrop (k * stride d) ?r))"
  proof (rule Suc.IH)
    show "attempt_ok d W ts (sdrop (k * stride d) ?r)"
      using Suc.prems(1) by (simp only: shift)
    show "\<forall>j<k. \<not> attempt_ok d W ts (sdrop (j * stride d) ?r)"
      using Suc.prems(2) by (auto simp only: shift)
  qed
  with no show ?case by (subst place_loop_unfold) (simp only: shift if_False)
qed

lemma place_loop_SomeD:
  assumes "place_loop d W ts r = Some res"
  shows "\<exists>k. attempt_ok d W ts (sdrop (k * stride d) r) \<and>
             (\<forall>j<k. \<not> attempt_ok d W ts (sdrop (j * stride d) r)) \<and>
             res = attempt d W (sdrop (k * stride d) r)"
proof (rule place_loop.raw_induct [where P = "\<lambda>d W ts r res.
     \<exists>k. attempt_ok d W ts (sdrop (k * stride d) r) \<and>
             (\<forall>j<k. \<not> attempt_ok d W ts (sdrop (j * stride d) r)) \<and>
             res = attempt d W (sdrop (k * stride d) r)", OF _ assms])
  fix f d W ts r res
  assume IH: "\<And>d W ts r res. f d W ts r = Some res \<Longrightarrow>
       \<exists>k. attempt_ok d W ts (sdrop (k * stride d) r) \<and>
             (\<forall>j<k. \<not> attempt_ok d W ts (sdrop (j * stride d) r)) \<and>
             res = attempt d W (sdrop (k * stride d) r)"
    and eq: "(case attempt d W r of ((sz, radius, x), r') \<Rightarrow>
        if validPosition x radius ts then Some ((sz, radius, x), r')
        else f d W ts r') = Some res"
  show "\<exists>k. attempt_ok d W ts (sdrop (k * stride d) r) \<and>
             (\<forall>j<k. \<not> attempt_ok d W ts (sdrop (j * stride d) r)) \<and>
             res = attempt d W (sdrop (k * stride d) r)"
  proof (cases "attempt_ok d W ts r")
    case True
    with eq have "res = attempt d W r"
      by (auto simp: attempt_ok_def split: prod.splits)
    with True show ?thesis by (intro exI [of _ 0]) simp
  next
    case False
    with eq have "f d W ts (sdrop (stride d) r) = Some res"
      by (auto simp: attempt_ok_def split: prod.splits dest: attempt_rng)
    from IH [OF this] obtain k where k:
      "attempt_ok d W ts (sdrop (Suc k * stride d) r)"
      "\<forall>j<k. \<not> attempt_ok d W ts (sdrop (Suc j * stride d) r)"
      "res = attempt d W (sdrop (Suc k * stride d) r)"
      by (auto simp: add.commute)
    have "\<forall>j<Suc k. \<not> attempt_ok d W ts (sdrop (j * stride d) r)"
    proof (intro allI impI)
      fix j assume "j < Suc k"
      then show "\<not> attempt_ok d W ts (sdrop (j * stride d) r)"
        using False k(2) by (cases j) auto
    qed
    with k(1,3) show ?thesis by blast
  qed
qed

lemma place_loop_Some_iff:
  "(\<exists>res. place_loop d W ts r = Some res) \<longleftrightarrow>
   (\<exists>k. attempt_ok d W ts (sdrop (k * stride d) r))"
proof
  assume "\<exists>res. place_loop d W ts r = Some res"
  then show "\<exists>k. attempt_ok d W ts (sdrop (k * stride d) r)"
    by (blast dest: place_loop_SomeD)
next
  assume ex: "\<exists>k. attempt_ok d W ts (sdrop (k * stride d) r)"
  define k where "k = (LEAST k. attempt_ok d W ts (sdrop (k * stride d) r))"
  have "attempt_ok d W ts (sdrop (k * stride d) r)"
    unfolding k_def using ex by (rule LeastI_ex)
  moreover have "\<forall>j<k. \<not> attempt_ok d W ts (sdrop (j * stride d) r)"
    unfolding k_def by (auto dest: not_less_Least)
  ultimately show "\<exists>res. place_loop d W ts r = Some res"
    by (blast dest: place_loop_first)
qed

lemma place_loop_None_iff:
  "place_loop d W ts r = None \<longleftrightarrow> (\<forall>k. \<not> attempt_ok d W ts (sdrop (k * stride d) r))"
  using place_loop_Some_iff [of d W ts r] by auto

lemma place_loop_valid:
  assumes "place_loop d W ts r = Some ((sz, radius, x), r')"
  shows "validPosition x radius ts \<and> radius = radius_of sz \<and> (d = Easy \<longrightarrow> sz = Large)"
proof -
  from place_loop_SomeD [OF assms] obtain k where
    ok: "attempt_ok d W ts (sdrop (k * stride d) r)" and
    eq: "attempt d W (sdrop (k * stride d) r) = ((sz, radius, x), r')" by auto
  from ok eq have "validPosition x radius ts" by (simp add: attempt_ok_def)
  moreover from eq have "radius = radius_of sz" by (rule attempt_radius)
  moreover from eq have "d = Easy \<longrightarrow> sz = Large" by (auto simp: attempt_Easy)
  ultimately show ?thesis by simp
qed

lemma place_loop_x_range:
  assumes "place_loop d W ts r = Some ((sz, radius, x), r')" and "rng_ok r" and "radius * 2 \<le> W"
  shows "radius \<le> x \<and> x \<le> W - radius"
proof -
  from place_loop_SomeD [OF assms(1)] obtain k where
    eq: "attempt d W (sdrop (k * stride d) r) = ((sz, radius, x), r')" by auto
  from assms(2) have "rng_ok (sdrop (k * stride d) r)" by (rule rng_ok_sdrop)
  with eq show ?thesis using assms(3) by (rule attempt_x_range)
qed

lemma place_loop_rng_ok:
  assumes "place_loop d W ts r = Some (p, r')" and "rng_ok r"
  shows "rng_ok r'"
proof -
  from place_loop_SomeD [OF assms(1)] obtain k where
    "attempt d W (sdrop (k * stride d) r) = (p, r')" by auto
  then have "r' = sdrop (stride d) (sdrop (k * stride d) r)" by (rule attempt_rng)
  with assms(2) show ?thesis by (simp add: rng_ok_sdrop)
qed

lemma attempt_ok_dead:
  assumes "dead_canvas d W ts" and "rng_ok r"
  shows "\<not> attempt_ok d W ts r"
proof -
  obtain sz radius x r' where eq: "attempt d W r = ((sz, radius, x), r')"
    by (cases "attempt d W r") auto
  from eq obtain v where v: "v \<in> sset r" "x = v * (W - radius * 2) + radius"
    using attempt_x_eq by blast
  from v(1) assms(2) have "0 \<le> v \<and> v < 1" by (auto simp: rng_ok_def streams_iff_sset)
  moreover from eq have "radius = radius_of sz" by (rule attempt_radius)
  moreover from eq have "d = Easy \<longrightarrow> sz = Large" by (auto simp: attempt_Easy)
  ultimately have "\<not> validPosition x radius ts"
    using assms(1) v(2) by (simp add: dead_canvas_def)
  with eq show ?thesis by (simp add: attempt_ok_def)
qed

lemma place_loop_dead:
  "dead_canvas d W ts \<Longrightarrow> rng_ok r \<Longrightarrow> place_loop d W ts r = None"
  by (simp add: place_loop_None_iff attempt_ok_dead rng_ok_sdrop)

lemma narrow_canvas_dead:
  assumes "380 \<le> W" and "t_radius t = 190" and "W - 650 < t_x t" and "t_x t < 650"
  shows "dead_canvas Easy W [t]"
  unfolding dead_canvas_def
proof (intro allI impI notI)
  fix sz v
  assume h: "(Easy = Easy \<longrightarrow> sz = Large) \<and> 0 \<le> v \<and> v < 1"
    and valid: "validPosition (v * (W - radius_of sz * 2) + radius_of sz) (radius_of sz) [t]"
  let ?x = "v * (W - 380) + 190"
  from h assms(1) have "0 \<le> v * (W - 380) \<and> v * (W - 380) \<le> W - 380"
    by (intro unit_scale_le) simp_all
  then have "190 \<le> ?x" "?x \<le> W - 190" by simp_all
  with assms(3,4) have "\<bar>?x - t_x t\<bar> < 460" by (simp add: abs_less_iff)
  with valid h assms(2) show False by (simp add: overlaps_def)
qed

section \<open>The operation\<close>

lemma currentDifficulty_simps [simp]:
  "currentDifficulty (Some d) difficulty = d" "currentDifficulty None difficulty = difficulty"
  by (simp_all add: currentDifficulty_def)

lemma pick_velocity_range:
  assumes "pick_velocity d r = (v, r')" and "rng_ok r"
  shows "if d = Hard then 0.5 \<le> v \<and> v < 2 else v = 0"
  using assms rng_ok_shd [of r]
  by (auto simp: pick_velocity_def Math_random_def split: if_splits)

lemma pick_velocity_not_Hard [simp]: "d \<noteq> Hard \<Longrightarrow> pick_velocity d r = (0, r)"
  by (simp add: pick_velocity_def)

lemma pick_velocity_rng_ok: "pick_velocity d r = (v, r') \<Longrightarrow> rng_ok r \<Longrightarrow> rng_ok r'"
  by (auto simp: pick_velocity_def Math_random_def rng_ok_stl split: if_splits)

lemma pick_direction_cases: "pick_direction r = (dir, r') \<Longrightarrow> dir = 1 \<or> dir = - 1"
  by (auto simp: pick_direction_def Math_random_def split: if_splits)

lemma pick_direction_rng: "pick_direction r = (dir, r') \<Longrightarrow> r' = stl r"
  by (auto simp: pick_direction_def Math_random_def)

lemma addNewTarget_SomeE:
  assumes "addNewTarget cv difficulty now diff (g, r) = Some (g', r')"
  obtains p r1 velocity r2 direction where
    "place_loop (currentDifficulty diff difficulty) (CANVAS_WIDTH cv) (targets g) r = Some (p, r1)"
    "pick_velocity (currentDifficulty diff difficulty) r1 = (velocity, r2)"
    "pick_direction r2 = (direction, r')"
    "g' = g\<lparr> targets := targets g @ [new_target cv (nextTargetId g) p velocity direction now],
             nextTargetId := nextTargetId g + 1 \<rparr>"
  using assms by (auto simp: addNewTarget_def split: option.splits prod.splits)

lemma addNewTarget_None_iff:
  "addNewTarget cv difficulty now diff (g, r) = None \<longleftrightarrow>
   place_loop (currentDifficulty diff difficulty) (CANVAS_WIDTH cv) (targets g) r = None"
  by (auto simp: addNewTarget_def split: option.splits prod.splits)

lemma addNewTarget_spawned:
  assumes "addNewTarget cv difficulty now diff (g, r) = Some (g', r')" and "rng_ok r"
  shows "\<exists>t. spawned cv (currentDifficulty diff difficulty) now g t \<and>
             g' = g\<lparr> targets := targets g @ [t], nextTargetId := nextTargetId g + 1 \<rparr>"
proof -
  let ?d = "currentDifficulty diff difficulty"
  from assms(1) obtain p r1 velocity r2 direction where
    loop: "place_loop ?d (CANVAS_WIDTH cv) (targets g) r = Some (p, r1)" and
    vel: "pick_velocity ?d r1 = (velocity, r2)" and
    dir: "pick_direction r2 = (direction, r')" and
    g': "g' = g\<lparr> targets := targets g @ [new_target cv (nextTargetId g) p velocity direction now],
             nextTargetId := nextTargetId g + 1 \<rparr>"
    by (rule addNewTarget_SomeE)
  obtain sz radius x where p: "p = (sz, radius, x)" by (cases p) auto
  from loop p have valid: "validPosition x radius (targets g)" "radius = radius_of sz"
    "?d = Easy \<longrightarrow> sz = Large"
    using place_loop_valid by blast+
  from loop assms(2) have "rng_ok r1" by (rule place_loop_rng_ok)
  with vel have v: "if ?d = Hard then 0.5 \<le> velocity \<and> velocity < 2 else velocity = 0"
    by (rule pick_velocity_range)
  from dir have "direction = 1 \<or> direction = - 1" by (rule pick_direction_cases)
  with valid v have "spawned cv ?d now g (new_target cv (nextTargetId g) p velocity direction now)"
    by (simp add: spawned_def new_target_def p validPosition_iff_spaced)
  with g' show ?thesis by blast
qed

lemma addNewTarget_rng_ok:
  assumes "addNewTarget cv difficulty now diff (g, r) = Some (g', r')" and "rng_ok r"
  shows "rng_ok r'"
proof -
  from assms(1) obtain p r1 velocity r2 direction where
    loop: "place_loop (currentDifficulty diff difficulty) (CANVAS_WIDTH cv) (targets g) r = Some (p, r1)" and
    vel: "pick_velocity (currentDifficulty diff difficulty) r1 = (velocity, r2)" and
    dir: "pick_direction r2 = (direction, r')"
    by (rule addNewTarget_SomeE)
  from loop assms(2) have "rng_ok r1" by (rule place_loop_rng_ok)
  with vel have "rng_ok r2" by (rule pick_velocity_rng_ok)
  with dir show ?thesis by (auto dest: pick_direction_rng simp: rng_ok_stl)
qed

lemma spawned_wf: "spawned cv d now g t \<Longrightarrow> target_wf t"
  by (auto simp: spawned_def target_wf_def split: option.splits if_splits)

lemma addNewTarget_hangs:
  assumes "dead_canvas (currentDifficulty diff difficulty) (CANVAS_WIDTH cv) (targets g)"
    and "rng_ok r"
  shows "addNewTarget cv difficulty now diff (g, r) = None"
  using assms by (simp add: addNewTarget_None_iff place_loop_dead)

lemma spawned_inv:
  assumes "game_inv g" and "spawned cv d now g t"
  shows "game_inv (g\<lparr> targets := targets g @ [t], nextTargetId := Suc (nextTargetId g) \<rparr>)"
proof -
  from assms(2) have wf: "target_wf t" by (rule spawned_wf)
  from assms(2) have id: "t_id t = nextTargetId g" by (simp add: spawned_def)
  from assms(1) have "\<forall>u \<in> set (targets g). t_id u < nextTargetId g"
    by (simp add: game_inv_defs list_all_iff)
  with id have "t_id t \<notin> t_id ` set (targets g)" by auto
  with assms(1) wf id show ?thesis
    by (auto simp: game_inv_defs list_all_iff)
qed

lemma addNewTarget_game_inv:
  assumes "addNewTarget cv difficulty now diff (g, r) = Some (g', r')"
    and "game_inv g" and "rng_ok r"
  shows "game_inv g'"
  using addNewTarget_spawned [OF assms(1,3)] assms(2) by (auto intro: spawned_inv)

lemma addNewTarget_length:
  "addNewTarget cv difficulty now diff (g, r) = Some (g', r') \<Longrightarrow>
   length (targets g') = Suc (length (targets g))"
  by (erule addNewTarget_SomeE) simp

lemma addNewTarget_counters [pg_frame]:
  assumes "addNewTarget cv difficulty now diff (g, r) = Some (g', r')"
  shows "score g' = score g" "totalHits g' = totalHits g" "perfectHits g' = perfectHits g"
    "reactionTimes g' = reactionTimes g" "feedback g' = feedback g" "sparkles g' = sparkles g"
    "timeLeft g' = timeLeft g" "mousePos g' = mousePos g"
    "nextTargetId g' = Suc (nextTargetId g)"
  using assms by (auto elim!: addNewTarget_SomeE)

section \<open>The target that was added\<close>

lemmas spawn_eval = addNewTarget_def place_loop_unfold attempt_ok_def attempt_def pick_size_def
  sample_x_def Math_random_def pick_velocity_def pick_direction_def new_target_def
  overlaps_def fresh_gameRef_def pg_defs stride_def

lemma addNewTarget_new:
  assumes "addNewTarget cv difficulty now diff (g, r) = Some (g', r')"
  obtains sz radius x r1 velocity r2 direction where
    "place_loop (currentDifficulty diff difficulty) (CANVAS_WIDTH cv) (targets g) r
       = Some ((sz, radius, x), r1)"
    "pick_velocity (currentDifficulty diff difficulty) r1 = (velocity, r2)"
    "pick_direction r2 = (direction, r')"
    "targets g' = targets g @
       [\<lparr> t_id = nextTargetId g, t_x = x, t_y = TARGET_SPAWN_Y cv, t_radius = radius,
          t_size = sz, t_velocity = Some velocity, t_direction = Some direction,
          t_createdAt = Some now \<rparr>]"
proof -
  from assms obtain p r1 velocity r2 direction where
    1: "place_loop (currentDifficulty diff difficulty) (CANVAS_WIDTH cv) (targets g) r = Some (p, r1)"
    and 2: "pick_velocity (currentDifficulty diff difficulty) r1 = (velocity, r2)"
    and 3: "pick_direction r2 = (direction, r')"
    and 4: "g' = g\<lparr> targets := targets g @ [new_target cv (nextTargetId g) p velocity direction now],
             nextTargetId := nextTargetId g + 1 \<rparr>"
    by (rule addNewTarget_SomeE)
  obtain sz radius x where p: "p = (sz, radius, x)" by (cases p) auto
  from 1 2 3 4 show ?thesis by (intro that [of sz radius x r1 velocity r2 direction])
      (simp_all add: p new_target_def)
qed

lemma addNewTarget_last_spaced:
  assumes "addNewTarget cv difficulty now diff (g, r) = Some (g', r')"
  shows "spaced (t_x (last (targets g'))) (t_radius (last (targets g'))) (targets g)"
  using assms
  by (auto elim!: addNewTarget_new dest!: place_loop_valid simp: validPosition_iff_spaced)

lemma addNewTarget_last_velocity:
  assumes "addNewTarget cv difficulty now diff (g, r) = Some (g', r')"
    and "currentDifficulty diff difficulty \<noteq> Hard"
  shows "t_velocity (last (targets g')) = Some 0"
  using assms by (auto elim!: addNewTarget_new)

lemma addNewTarget_last_radius:
  assumes "addNewTarget cv difficulty now diff (g, r) = Some (g', r')"
  shows "t_radius (last (targets g')) = radius_of (t_size (last (targets g'))) \<and>
         (currentDifficulty diff difficulty = Easy \<longrightarrow> t_size (last (targets g')) = Large)"
  using assms by (auto elim!: addNewTarget_new dest!: place_loop_valid)

lemma addNewTarget_last_x:
  assumes "addNewTarget cv difficulty now diff (g, r) = Some (g', r')" and "rng_ok r"
    and "380 \<le> width cv"
  shows "t_radius (last (targets g')) \<le> t_x (last (targets g')) \<and>
         t_x (last (targets g')) \<le> width cv - t_radius (last (targets g'))"
proof -
  from assms(1) obtain sz radius x r1 velocity r2 direction where
    loop: "place_loop (currentDifficulty diff difficulty) (CANVAS_WIDTH cv) (targets g) r
       = Some ((sz, radius, x), r1)" and
    ts: "targets g' = targets g @
       [\<lparr> t_id = nextTargetId g, t_x = x, t_y = TARGET_SPAWN_Y cv, t_radius = radius,
          t_size = sz, t_velocity = Some velocity, t_direction = Some direction,
          t_createdAt = Some now \<rparr>]"
    by (rule addNewTarget_new)
  from loop have "radius = radius_of sz" using place_loop_valid by blast
  with assms(3) have "radius * 2 \<le> CANVAS_WIDTH cv"
    using radius_of_bounds [of sz] by (simp add: pg_defs)
  with loop assms(2) have "radius \<le> x \<and> x \<le> CANVAS_WIDTH cv - radius"
    by (rule place_loop_x_range)
  with ts show ?thesis by (simp add: pg_defs)
qed

lemma wide_canvas_position:
  assumes "1300 \<le> W" and "0 \<le> t_radius t" and "t_radius t \<le> 190"
  shows "\<exists>v. 0 \<le> v \<and> v < 1 \<and> validPosition (v * (W - 380) + 190) 190 [t]"
proof (cases "650 \<le> t_x t \<or> t_x t \<le> - 270")
  case True
  with assms have "validPosition (0 * (W - 380) + 190) 190 [t]"
    by (auto simp: overlaps_def)
  then show ?thesis by (intro exI [of _ 0]) simp
next
  case False
  let ?v = "(t_x t + 270) / (W - 380)"
  from False assms have "0 \<le> ?v" "?v < 1" by (simp_all add: field_simps)
  moreover from assms have "?v * (W - 380) + 190 = t_x t + 460" by simp
  with assms have "validPosition (?v * (W - 380) + 190) 190 [t]"
    by (simp add: overlaps_def)
  ultimately show ?thesis by blast
qed

section \<open>Properties of the spawner\<close>

text \<open>
  C1. The placement loop of \<^verbatim>\<open>addNewTarget\<close> returns if and only if some iteration draws
  a position that keeps the required distance to every live target; the iterations read
  the random stream \<open>stride d\<close> numbers apart.
\<close>

theorem place_loop_returns_iff:
  "(\<exists>res. place_loop d W ts r = Some res) \<longleftrightarrow>
   (\<exists>k. attempt_ok d W ts (sdrop (k * stride d) r))"
  by (rule place_loop_Some_iff)

theorem place_loop_returns_iff_witness:
  "\<exists>res. place_loop Easy 1920 [large_target 0 575 432 1000]
            (1/4 ## 3/4 ## sconst (1/2)) = Some res"
proof -
  have "attempt_ok Easy 1920 [large_target 0 575 432 1000]
          (sdrop (1 * stride Easy) (1/4 ## 3/4 ## sconst (1/2)))"
    by (simp add: spawn_eval)
  then show ?thesis
    using place_loop_returns_iff [of Easy 1920 "[large_target 0 575 432 1000]"
        "1/4 ## 3/4 ## sconst (1/2)"] by blast
qed

text \<open>
  C2. When \<^verbatim>\<open>addNewTarget\<close> returns, it has appended exactly one target that meets
  the contract of a spawn (identifier, height, radius of its size class, distance to the
  other targets, direction, velocity by difficulty, creation time), has advanced the
  identifier counter by one, and has changed nothing else.
\<close>

theorem addNewTarget_meets_contract:
  assumes "addNewTarget cv difficulty now diff (g, r) = Some (g', r')" and "rng_ok r"
  shows "\<exists>t. spawned cv (currentDifficulty diff difficulty) now g t \<and>
             g' = g\<lparr> targets := targets g @ [t], nextTargetId := nextTargetId g + 1 \<rparr>"
  using assms by (rule addNewTarget_spawned)

theorem addNewTarget_meets_contract_witness:
  "\<exists>t. spawned full_hd Easy 1000 fresh_gameRef t \<and>
       addNewTarget full_hd Hard 1000 (Some Easy) (fresh_gameRef, sconst (1/4)) =
         Some (fresh_gameRef\<lparr> targets := [t], nextTargetId := 1 \<rparr>, sconst (1/4))"
proof -
  have eq: "addNewTarget full_hd Hard 1000 (Some Easy) (fresh_gameRef, sconst (1/4)) =
      Some (fresh_gameRef\<lparr> targets := [large_target 0 575 432 1000\<lparr> t_direction := Some (- 1) \<rparr>],
        nextTargetId := 1 \<rparr>, sconst (1/4))"
    by (simp add: spawn_eval)
  from addNewTarget_meets_contract [OF eq] obtain t where
    "spawned full_hd Easy 1000 fresh_gameRef t"
    "t = large_target 0 575 432 1000\<lparr> t_direction := Some (- 1) \<rparr>"
    by (auto simp: fresh_gameRef_def)
  with eq show ?thesis by auto
qed

text \<open>
  C3. A target that \<^verbatim>\<open>addNewTarget\<close> adds is, at that moment, at a horizontal distance
  of at least the two radii plus 80 from every target that was live before.
\<close>

theorem spawn_keeps_distance:
  assumes "addNewTarget cv difficulty now diff (g, r) = Some (g', r')"
  shows "list_all (\<lambda>u. t_radius (last (targets g')) + t_radius u + 80
                        \<le> \<bar>t_x (last (targets g')) - t_x u\<bar>) (targets g)"
  using addNewTarget_last_spaced [OF assms] by (simp add: spaced_def)

theorem spawn_keeps_distance_witness:
  "addNewTarget full_hd Easy 1000 None
     (fresh_gameRef\<lparr> targets := [large_target 0 575 432 1000], nextTargetId := 1 \<rparr>,
      sconst (3/4)) =
   Some (fresh_gameRef\<lparr> targets := [large_target 0 575 432 1000, large_target 1 1345 432 1000],
      nextTargetId := 2 \<rparr>, sconst (3/4)) \<and>
   list_all (\<lambda>u. 190 + t_radius u + 80 \<le> \<bar>1345 - t_x u\<bar>) [large_target 0 575 432 1000]"
proof -
  have eq: "addNewTarget full_hd Easy 1000 None
          (fresh_gameRef\<lparr> targets := [large_target 0 575 432 1000], nextTargetId := 1 \<rparr>,
           sconst (3/4)) =
        Some (fresh_gameRef\<lparr> targets := [large_target 0 575 432 1000, large_target 1 1345 432 1000],
           nextTargetId := 2 \<rparr>, sconst (3/4))"
    by (simp add: spawn_eval)
  from spawn_keeps_distance [OF eq] eq show ?thesis by simp
qed

text \<open>
  C4. On a canvas between 380 and 1300 units wide, in easy mode, with one large live
  target whose centre lies strictly between \<open>width - 650\<close> and \<open>650\<close>, no position the
  loop can draw is valid: \<^verbatim>\<open>addNewTarget\<close> does not return, whatever the random numbers.
\<close>

theorem addNewTarget_hangs_on_narrow_canvas:
  assumes "380 \<le> width cv" and "targets g = [t]" and "t_radius t = 190"
    and "width cv - 650 < t_x t" and "t_x t < 650" and "rng_ok r"
  shows "addNewTarget cv difficulty now (Some Easy) (g, r) = None"
proof -
  from assms(1,3,4,5) have "dead_canvas Easy (CANVAS_WIDTH cv) [t]"
    by (intro narrow_canvas_dead) (simp_all add: pg_defs)
  with assms(2,6) show ?thesis by (intro addNewTarget_hangs) simp_all
qed

theorem addNewTarget_hangs_on_narrow_canvas_witness:
  "addNewTarget hd_720 Easy 1000 (Some Easy)
     (fresh_gameRef\<lparr> targets := [large_target 0 640 288 1000] \<rparr>, sconst (1/2)) = None"
  by (rule addNewTarget_hangs_on_narrow_canvas [where t = "large_target 0 640 288 1000"])
    (simp_all add: fresh_gameRef_def)

text \<open>
  C5. On a canvas at least 1300 units wide with one live target of radius at most 190,
  there are random numbers in \<open>[0, 1)\<close> on which the placement loop returns, in every
  difficulty.
\<close>

theorem wide_canvas_spawn_possible:
  assumes "1300 \<le> W" and "0 \<le> t_radius t" and "t_radius t \<le> 190"
  shows "\<exists>r. rng_ok r \<and> (\<exists>res. place_loop d W [t] r = Some res)"
proof -
  from assms obtain v where v: "0 \<le> v" "v < 1" "validPosition (v * (W - 380) + 190) 190 [t]"
    using wide_canvas_position by blast
  let ?r = "if d = Easy then sconst v else 3/4 ## sconst v"
  from v(1,2) have "rng_ok ?r" by simp
  moreover from v(3) have "attempt_ok d W [t] (sdrop (0 * stride d) ?r)"
    by (simp add: attempt_ok_def attempt_def pick_size_def sample_x_def Math_random_def)
  then have "\<exists>res. place_loop d W [t] ?r = Some res"
    unfolding place_loop_Some_iff by blast
  ultimately show ?thesis by blast
qed

theorem wide_canvas_spawn_possible_witness:
  "\<exists>r. rng_ok r \<and> (\<exists>res. place_loop Hard 1920 [large_target 0 960 432 1000] r = Some res)"
  by (rule wide_canvas_spawn_possible) simp_all

text \<open>
  C6. With random numbers in \<open>[0, 1)\<close> and a canvas at least 380 units wide, the circle
  of a newly added target lies within the width of the canvas.
\<close>

theorem spawn_x_within_canvas:
  assumes "addNewTarget cv difficulty now diff (g, r) = Some (g', r')" and "rng_ok r"
    and "380 \<le> width cv"
  shows "0 \<le> t_x (last (targets g')) - t_radius (last (targets g')) \<and>
         t_x (last (targets g')) + t_radius (last (targets g')) \<le> width cv"
  using addNewTarget_last_x [OF assms] by simp

theorem spawn_x_within_canvas_witness:
  "addNewTarget full_hd Easy 1000 None (fresh_gameRef, sconst (1/4)) =
     Some (fresh_gameRef\<lparr> targets := [large_target 0 575 432 1000\<lparr> t_direction := Some (- 1) \<rparr>],
       nextTargetId := 1 \<rparr>, sconst (1/4)) \<and>
   rng_ok (sconst (1/4)) \<and> (0::real) \<le> 575 - 190 \<and> (575::real) + 190 \<le> width full_hd"
proof -
  have eq: "addNewTarget full_hd Easy 1000 None (fresh_gameRef, sconst (1/4)) =
      Some (fresh_gameRef\<lparr> targets := [large_target 0 575 432 1000\<lparr> t_direction := Some (- 1) \<rparr>],
        nextTargetId := 1 \<rparr>, sconst (1/4))"
    by (simp add: spawn_eval)
  from spawn_x_within_canvas [OF eq] eq show ?thesis by simp
qed

text \<open>
  C7. In every difficulty other than hard, a newly added target has velocity 0; its
  radius is 190 or 130 according to its size class, and in easy mode it is large.
\<close>

theorem spawn_velocity_and_radius:
  assumes "addNewTarget cv difficulty now diff (g, r) = Some (g', r')"
  shows "(currentDifficulty diff difficulty \<noteq> Hard \<longrightarrow> t_velocity (last (targets g')) = Some 0) \<and>
         t_radius (last (targets g')) = (if t_size (last (targets g')) = Large then 190 else 130) \<and>
         (currentDifficulty diff difficulty = Easy \<longrightarrow> t_size (last (targets g')) = Large)"
  using addNewTarget_last_velocity [OF assms] addNewTarget_last_radius [OF assms]
  by (simp add: radius_of_def)

theorem spawn_velocity_and_radius_witness:
  "addNewTarget full_hd Hard 7 (Some Intermediate) (fresh_gameRef, 3/4 ## 0 ## sconst (3/4)) =
     Some (fresh_gameRef\<lparr> targets := [large_target 0 190 432 7], nextTargetId := 1 \<rparr>,
       sconst (3/4)) \<and>
   t_velocity (large_target 0 190 432 7) = Some 0 \<and> t_radius (large_target 0 190 432 7) = 190"
proof -
  have eq: "addNewTarget full_hd Hard 7 (Some Intermediate)
        (fresh_gameRef, 3/4 ## 0 ## sconst (3/4)) =
      Some (fresh_gameRef\<lparr> targets := [large_target 0 190 432 7], nextTargetId := 1 \<rparr>,
        sconst (3/4))"
    by (simp add: spawn_eval)
  from spawn_velocity_and_radius [OF eq] eq show ?thesis by simp
qed

end
