(* ===== verification/Scoring.thy ===== *)
theory Scoring
  imports Game_Data
begin

text \<open>
  The scoring rule: \<^verbatim>\<open>calculatePoints\<close> of \<^verbatim>\<open>src/app/page.tsx\<close> (lines 168-181), and
  the conversion of its integer result to the text of the label, which the source
  writes as the template literal \<^verbatim>\<open>`+${points}`\<close>. \<open>show_int\<close> is the decimal notation
  JavaScript gives an integer-valued number; \<open>read_nat\<close> reads it back and is used only
  to state that different scores have different labels.
\<close>

section \<open>Decimal notation\<close>

definition digit_char :: "nat \<Rightarrow> char" where
  "digit_char n = ''0123456789'' ! n"

fun show_nat :: "nat \<Rightarrow> string" where
  "show_nat n = (if n < 10 then [digit_char n] else show_nat (n div 10) @ [digit_char (n mod 10)])"

definition show_int :: "int \<Rightarrow> string" where
  "show_int i = (if i < 0 then CHR ''-'' # show_nat (nat (- i)) else show_nat (nat i))"

definition digit_value :: "char \<Rightarrow> nat" where
  "digit_value c = of_char c - 48"

definition read_nat :: "string \<Rightarrow> nat" where
  "read_nat s = foldl (\<lambda>acc c. 10 * acc + digit_value c) 0 s"

section \<open>The scoring rule\<close>

definition accuracy :: "real \<Rightarrow> real \<Rightarrow> real" where
  "accuracy distance radius = 1 - distance / radius"

definition calculatePoints :: "real \<Rightarrow> real \<Rightarrow> int \<times> string" where
  "calculatePoints distance radius =
     (if accuracy distance radius > 0.95 then (100, ''PERFECT'')
      else (\<lfloor>accuracy distance radius * 100\<rfloor>,
            CHR ''+'' # show_int \<lfloor>accuracy distance radius * 100\<rfloor>))"

section \<open>Properties of the notation\<close>

declare show_nat.simps [simp del]

lemma digit_value_digit_char: "n < 10 \<Longrightarrow> digit_value (digit_char n) = n"
proof -
  assume "n < 10"
  then have "n \<in> {0, 1, 2, 3, 4, 5, 6, 7, 8, 9}" by auto
  then show ?thesis by (auto simp: digit_value_def digit_char_def)
qed

lemma show_nat_small: "n < 10 \<Longrightarrow> show_nat n = [digit_char n]"
  by (subst show_nat.simps) simp

lemma show_nat_large:
  "10 \<le> n \<Longrightarrow> show_nat n = show_nat (n div 10) @ [digit_char (n mod 10)]"
  by (subst show_nat.simps) simp

lemma show_nat_nonempty: "show_nat n \<noteq> []"
  by (subst show_nat.simps) simp

lemma read_nat_snoc: "read_nat (s @ [c]) = 10 * read_nat s + digit_value c"
  by (simp add: read_nat_def)

lemma read_show_nat: "read_nat (show_nat n) = n"
proof (induction n rule: show_nat.induct)
  case (1 n)
  show ?case
  proof (cases "n < 10")
    case True
    then show ?thesis
      by (simp add: show_nat_small read_nat_def digit_value_digit_char)
  next
    case False
    with "1.IH" have "read_nat (show_nat (n div 10)) = n div 10" by simp
    with False show ?thesis
      by (simp add: show_nat_large read_nat_snoc digit_value_digit_char)
  qed
qed

lemma show_nat_inj: "show_nat m = show_nat n \<Longrightarrow> m = n"
  by (metis read_show_nat)

lemma show_int_nonneg: "0 \<le> i \<Longrightarrow> show_int i = show_nat (nat i)"
  by (simp add: show_int_def)

section \<open>Properties of the scoring rule\<close>

lemma accuracy_centre [simp]: "accuracy 0 r = 1"
  by (simp add: accuracy_def)

lemma accuracy_edge [simp]: "r \<noteq> 0 \<Longrightarrow> accuracy r r = 0"
  by (simp add: accuracy_def)

lemma accuracy_range: "0 < r \<Longrightarrow> 0 \<le> d \<Longrightarrow> d \<le> r \<Longrightarrow> 0 \<le> accuracy d r \<and> accuracy d r \<le> 1"
  by (simp add: accuracy_def)

lemma accuracy_antimono: "0 < r \<Longrightarrow> d1 \<le> d2 \<Longrightarrow> accuracy d2 r \<le> accuracy d1 r"
  by (simp add: accuracy_def divide_right_mono)

lemma accuracy_perfect_iff: "0 < r \<Longrightarrow> accuracy d r > 0.95 \<longleftrightarrow> d * 20 < r"
  by (simp add: accuracy_def field_simps)

lemma calculatePoints_perfect:
  "accuracy d r > 0.95 \<Longrightarrow> calculatePoints d r = (100, ''PERFECT'')"
  by (simp add: calculatePoints_def)

lemma calculatePoints_graded:
  "\<not> accuracy d r > 0.95 \<Longrightarrow>
   calculatePoints d r = (\<lfloor>accuracy d r * 100\<rfloor>, CHR ''+'' # show_int \<lfloor>accuracy d r * 100\<rfloor>)"
  by (simp add: calculatePoints_def)

lemma calculatePoints_centre: "calculatePoints 0 r = (100, ''PERFECT'')"
  by (simp add: calculatePoints_def)

lemma calculatePoints_edge: "r \<noteq> 0 \<Longrightarrow> calculatePoints r r = (0, ''+0'')"
  by (simp add: calculatePoints_def show_int_def show_nat_small digit_char_def)

lemma perfect_label_iff: "snd (calculatePoints d r) = ''PERFECT'' \<longleftrightarrow> accuracy d r > 0.95"
  by (simp add: calculatePoints_def)

lemma graded_points_le_95:
  assumes "\<not> accuracy d r > 0.95"
  shows "fst (calculatePoints d r) \<le> 95"
proof -
  from assms have "accuracy d r * 100 \<le> 95" by simp
  then have "\<lfloor>accuracy d r * 100\<rfloor> \<le> 95" by (simp add: floor_le_iff)
  with assms show ?thesis by (simp add: calculatePoints_def)
qed

lemma points_never_96_to_99:
  "fst (calculatePoints d r) = 100 \<or> fst (calculatePoints d r) \<le> 95"
  using graded_points_le_95 [of d r] by (cases "accuracy d r > 0.95") (simp_all add: calculatePoints_def)

lemma calculatePoints_range:
  assumes "0 < r" and "0 \<le> d" and "d \<le> r"
  shows "0 \<le> fst (calculatePoints d r) \<and> fst (calculatePoints d r) \<le> 100"
proof (cases "accuracy d r > 0.95")
  case True
  then show ?thesis by (simp add: calculatePoints_def)
next
  case False
  from assms have "0 \<le> accuracy d r * 100" using accuracy_range [of r d] by simp
  then have "0 \<le> \<lfloor>accuracy d r * 100\<rfloor>" by simp
  moreover from False have "fst (calculatePoints d r) \<le> 95" by (rule graded_points_le_95)
  ultimately show ?thesis using False by (simp add: calculatePoints_def)
qed

lemma calculatePoints_antimono:
  assumes "0 < r" and "d1 \<le> d2"
  shows "fst (calculatePoints d2 r) \<le> fst (calculatePoints d1 r)"
proof (cases "accuracy d1 r > 0.95")
  case True
  then show ?thesis using points_never_96_to_99 [of d2 r] by (auto simp: calculatePoints_def)
next
  case False
  from assms have le: "accuracy d2 r \<le> accuracy d1 r" by (rule accuracy_antimono)
  with False have "\<not> accuracy d2 r > 0.95" by simp
  moreover from le have "\<lfloor>accuracy d2 r * 100\<rfloor> \<le> \<lfloor>accuracy d1 r * 100\<rfloor>"
    by (intro floor_mono) simp
  ultimately show ?thesis using False by (simp add: calculatePoints_def)
qed

lemma graded_label_reads_back:
  assumes "0 < r" and "0 \<le> d" and "d \<le> r" and "\<not> accuracy d r > 0.95"
  shows "\<exists>s. snd (calculatePoints d r) = CHR ''+'' # s \<and>
             int (read_nat s) = fst (calculatePoints d r)"
proof -
  from assms have "0 \<le> fst (calculatePoints d r)" using calculatePoints_range by blast
  with assms(4) show ?thesis
    by (simp add: calculatePoints_def show_int_nonneg read_show_nat)
qed

section \<open>Properties of the scoring\<close>

lemmas score_eval = calculatePoints_def accuracy_def show_int_def show_nat.simps digit_char_def
  read_nat_def digit_value_def

text \<open>
  C10. For a click inside a target (distance between 0 and the radius) the points
  awarded lie between 0 and 100.
\<close>

theorem points_between_0_and_100:
  assumes "0 < r" and "0 \<le> d" and "d \<le> r"
  shows "0 \<le> fst (calculatePoints d r) \<and> fst (calculatePoints d r) \<le> 100"
  using assms by (rule calculatePoints_range)

theorem points_between_0_and_100_witness:
  "(0::real) < 190 \<and> (0::real) \<le> 95 \<and> (95::real) \<le> 190 \<and>
   calculatePoints 95 190 = (50, ''+50'') \<and>
   0 \<le> fst (calculatePoints 95 190) \<and> fst (calculatePoints 95 190) \<le> 100"
  using points_between_0_and_100 [of 190 95] by (simp add: score_eval)

text \<open>
  A click on the centre of a target is a perfect hit worth 100 points; a click on
  its rim is worth 0 points and is labelled \<open>+0\<close>.
\<close>

theorem centre_is_perfect_and_rim_is_zero:
  assumes "0 < r"
  shows "calculatePoints 0 r = (100, ''PERFECT'') \<and> calculatePoints r r = (0, ''+0'')"
  using assms by (simp add: calculatePoints_centre calculatePoints_edge)

theorem centre_is_perfect_and_rim_is_zero_witness:
  "calculatePoints 0 130 = (100, ''PERFECT'') \<and> calculatePoints 130 130 = (0, ''+0'')"
  using centre_is_perfect_and_rim_is_zero [of 130] by simp

text \<open>
  A hit is perfect exactly when the click is closer to the centre than a twentieth
  of the radius.
\<close>

theorem perfect_iff_within_a_twentieth:
  assumes "0 < r"
  shows "snd (calculatePoints d r) = ''PERFECT'' \<longleftrightarrow> d * 20 < r"
  using assms accuracy_perfect_iff [of r d] by (simp add: perfect_label_iff)

theorem perfect_iff_within_a_twentieth_witness:
  "snd (calculatePoints 9 190) = ''PERFECT'' \<and> snd (calculatePoints 10 190) \<noteq> ''PERFECT''"
  using perfect_iff_within_a_twentieth [of 190 9] perfect_iff_within_a_twentieth [of 190 10]
  by simp

text \<open>
  The points never increase with the distance from the centre.
\<close>

theorem points_decrease_with_distance:
  assumes "0 < r" and "d1 \<le> d2"
  shows "fst (calculatePoints d2 r) \<le> fst (calculatePoints d1 r)"
  using assms by (rule calculatePoints_antimono)

theorem points_decrease_with_distance_witness:
  "fst (calculatePoints 95 190) = 50 \<and> fst (calculatePoints 19 190) = 90 \<and>
   fst (calculatePoints 95 190) \<le> fst (calculatePoints 19 190)"
  using points_decrease_with_distance [of 190 19 95] by (simp add: score_eval)

text \<open>
  C40. The scores 96, 97, 98 and 99 are never awarded: a hit is worth 100 points or at
  most 95.
\<close>

theorem points_skip_96_to_99:
  "fst (calculatePoints d r) = 100 \<or> fst (calculatePoints d r) \<le> 95"
  by (rule points_never_96_to_99)

text \<open>
  The label of a hit that is not perfect is a plus sign followed by the decimal
  notation of the points: reading the digits back gives the points awarded.
\<close>

theorem graded_label_shows_points:
  assumes "0 < r" and "0 \<le> d" and "d \<le> r" and "\<not> d * 20 < r"
  shows "\<exists>s. snd (calculatePoints d r) = CHR ''+'' # s \<and>
             int (read_nat s) = fst (calculatePoints d r)"
  using assms accuracy_perfect_iff [of r d] by (intro graded_label_reads_back) simp_all

theorem graded_label_shows_points_witness:
  "snd (calculatePoints 57 190) = ''+70'' \<and> int (read_nat ''70'') = fst (calculatePoints 57 190)"
  using graded_label_shows_points [of 190 57] by (simp add: score_eval)

end
