(* ===== verification/Hit_Resolver.thy ===== *)
theory Hit_Resolver
  imports Spawner Scoring
begin

text \<open>
  The pointer handlers: \<^verbatim>\<open>handleCanvasClick\<close> (lines 184-264) and
  \<^verbatim>\<open>handleMouseMove\<close> (lines 267-277) of \<^verbatim>\<open>src/app/page.tsx\<close>.

  A click is resolved in the order of the source: the guard on the game state, the net
  (penalty) zone, the scan of the targets from the last index down, and the miss with
  its burst of sparkles. The scan is \<open>find_hit\<close>; what the body of its \<^verbatim>\<open>if\<close> does to
  the game variables before it calls \<^verbatim>\<open>addNewTarget\<close> is \<open>register_hit\<close>. The handler
  returns \<open>None\<close> when that call does not return.

  The arguments \<open>clickX\<close> and \<open>clickY\<close> are the canvas coordinates the handler computes
  from the event; the guard on a missing canvas element is not represented, since the
  handler is attached to that element.
\<close>

section \<open>Hit test\<close>

definition distance_to :: "real \<Rightarrow> real \<Rightarrow> Target \<Rightarrow> real" where
  "distance_to clickX clickY t = sqrt ((clickX - t_x t)\<^sup>2 + (clickY - t_y t)\<^sup>2)"

definition inside :: "real \<Rightarrow> real \<Rightarrow> Target \<Rightarrow> bool" where
  "inside clickX clickY t \<longleftrightarrow> distance_to clickX clickY t \<le> t_radius t"

fun find_hit :: "nat \<Rightarrow> real \<Rightarrow> real \<Rightarrow> Target list \<Rightarrow> nat option" where
  "find_hit 0 clickX clickY ts = None"
| "find_hit (Suc i) clickX clickY ts =
     (if inside clickX clickY (ts ! i) then Some i else find_hit i clickX clickY ts)"

section \<open>Effects of a hit\<close>

definition reactionTime_of :: "int \<Rightarrow> Target \<Rightarrow> int" where
  "reactionTime_of now t =
     (case t_createdAt t of None \<Rightarrow> 0 | Some c \<Rightarrow> if c \<noteq> 0 then now - c else 0)"

definition hit_feedback :: "Target \<Rightarrow> int \<Rightarrow> string \<Rightarrow> Feedback" where
  "hit_feedback t points fb =
     \<lparr> f_x = t_x t, f_y = t_y t, f_text = fb, f_points = points, f_opacity = 1,
       f_isMiss = None \<rparr>"

definition register_hit :: "int \<Rightarrow> real \<Rightarrow> real \<Rightarrow> nat \<Rightarrow> gameRef \<Rightarrow> gameRef" where
  "register_hit now clickX clickY i g =
     (let target = targets g ! i;
          distance = distance_to clickX clickY target;
          (points, fb) = calculatePoints distance (t_radius target);
          reactionTime = reactionTime_of now target
      in g\<lparr> reactionTimes := reactionTimes g @ [reactionTime],
            score := score g + points,
            totalHits := totalHits g + 1,
            perfectHits := (if fb = ''PERFECT'' then perfectHits g + 1 else perfectHits g),
            feedback := feedback g @ [hit_feedback target points fb],
            targets := splice1 i (targets g) \<rparr>)"

section \<open>Effects of a miss\<close>

definition penalty_feedback :: "real \<Rightarrow> real \<Rightarrow> Feedback" where
  "penalty_feedback clickX clickY =
     \<lparr> f_x = clickX, f_y = clickY, f_text = ''MISS'', f_points = 0, f_opacity = 1,
       f_isMiss = None \<rparr>"

definition miss_feedback :: "real \<Rightarrow> real \<Rightarrow> Feedback" where
  "miss_feedback clickX clickY =
     \<lparr> f_x = clickX, f_y = clickY, f_text = ''MISS'', f_points = 0, f_opacity = 1,
       f_isMiss = Some True \<rparr>"

definition make_sparkle :: "real \<Rightarrow> real \<Rightarrow> nat \<Rightarrow> rng \<Rightarrow> Sparkle \<times> rng" where
  "make_sparkle clickX clickY i r =
     (case Math_random r of (v1, r1) \<Rightarrow>
      case Math_random r1 of (v2, r2) \<Rightarrow>
        (\<lparr> s_x = clickX, s_y = clickY, s_life = 1, s_angle = (real i / 8) * pi * 2,
           s_speed = 2 + v1 * 2, s_rotation = Some (v2 * pi * 2) \<rparr>, r2))"

function sparkle_loop ::
  "real \<Rightarrow> real \<Rightarrow> nat \<Rightarrow> Sparkle list \<times> rng \<Rightarrow> Sparkle list \<times> rng" where
  "sparkle_loop clickX clickY i (ss, r) =
     (if i < 8 then
        (case make_sparkle clickX clickY i r of
           (s, r') \<Rightarrow> sparkle_loop clickX clickY (Suc i) (ss @ [s], r'))
      else (ss, r))"
  by pat_completeness auto
termination
  by (relation "measure (\<lambda>(clickX, clickY, i, acc). 8 - i)") auto

declare sparkle_loop.simps [simp del]

text \<open>The eight sparkles of one burst, as a list: what the loop appends.\<close>

definition burst :: "real \<Rightarrow> real \<Rightarrow> rng \<Rightarrow> Sparkle list" where
  "burst cx cy r = map (\<lambda>k. fst (make_sparkle cx cy k (sdrop (2 * k) r))) [0..<8]"

section \<open>The handlers\<close>

definition handleCanvasClick ::
  "canvas \<Rightarrow> GameState \<Rightarrow> Difficulty \<Rightarrow> int \<Rightarrow> real \<Rightarrow> real \<Rightarrow> gameRef \<times> rng \<Rightarrow>
   (gameRef \<times> rng) option" where
  "handleCanvasClick cv gameState difficulty now clickX clickY gr =
     (case gr of (g, r) \<Rightarrow>
      if gameState \<noteq> Game then Some (g, r)
      else if clickY > NET_Y cv then
        Some (g\<lparr> feedback := feedback g @ [penalty_feedback clickX clickY],
                 score := max 0 (score g - 10) \<rparr>, r)
      else
        (case find_hit (length (targets g)) clickX clickY (targets g) of
           Some i \<Rightarrow> addNewTarget cv difficulty now None (register_hit now clickX clickY i g, r)
         | None \<Rightarrow>
             (case sparkle_loop clickX clickY 0 (sparkles g, r) of
                (ss, r') \<Rightarrow>
                  Some (g\<lparr> feedback := feedback g @ [miss_feedback clickX clickY],
                           sparkles := ss \<rparr>, r'))))"

definition handleMouseMove :: "real \<Rightarrow> real \<Rightarrow> gameRef \<Rightarrow> gameRef" where
  "handleMouseMove x y g = g\<lparr> mousePos := (x, y) \<rparr>"

section \<open>Sample states\<close>

text \<open>
  Two large targets on a 1920 by 1080 canvas, created at time 1000; at time 2500 the
  pointer goes down on the centre of the newer one.
\<close>

abbreviation two_targets :: gameRef where
  "two_targets \<equiv>
     fresh_gameRef\<lparr> targets := [large_target 0 1345 432 1000, large_target 1 575 432 1000],
                    nextTargetId := 2 \<rparr>"

abbreviation after_hit :: gameRef where
  "after_hit \<equiv>
     fresh_gameRef\<lparr> targets := [large_target 0 1345 432 1000], nextTargetId := 2,
       score := 100, totalHits := 1, perfectHits := 1, reactionTimes := [1500],
       feedback := [hit_feedback (large_target 1 575 432 1000) 100 ''PERFECT''] \<rparr>"

abbreviation after_click :: gameRef where
  "after_click \<equiv>
     after_hit\<lparr> targets := [large_target 0 1345 432 1000,
                    large_target 2 382.5 432 2500\<lparr> t_direction := Some (- 1) \<rparr>],
                nextTargetId := 3 \<rparr>"

section \<open>Hit test and sparkle burst\<close>

lemma find_hit_SomeD:
  "find_hit n cx cy ts = Some i \<Longrightarrow>
     i < n \<and> inside cx cy (ts ! i) \<and> (\<forall>j. i < j \<and> j < n \<longrightarrow> \<not> inside cx cy (ts ! j))"
  by (induction n) (auto split: if_splits simp: less_Suc_eq)

lemma find_hit_None_iff:
  "find_hit n cx cy ts = None \<longleftrightarrow> (\<forall>j<n. \<not> inside cx cy (ts ! j))"
  by (induction n) (auto simp: less_Suc_eq)

lemma find_hit_last:
  "inside cx cy (ts ! n) \<Longrightarrow> find_hit (Suc n) cx cy ts = Some n"
  by simp

lemma inside_centre: "0 \<le> t_radius t \<Longrightarrow> inside (t_x t) (t_y t) t"
  by (simp add: inside_def distance_to_def)

lemma distance_to_nonneg [simp]: "0 \<le> distance_to cx cy t"
  by (simp add: distance_to_def)

lemma distance_to_centre [simp]: "distance_to (t_x t) (t_y t) t = 0"
  by (simp add: distance_to_def)

lemma inside_iff_squares:
  "0 \<le> t_radius t \<Longrightarrow>
   inside cx cy t \<longleftrightarrow> (cx - t_x t)\<^sup>2 + (cy - t_y t)\<^sup>2 \<le> (t_radius t)\<^sup>2"
  by (simp add: inside_def distance_to_def sqrt_le_iff_squares)

lemma make_sparkle_rng: "snd (make_sparkle cx cy i r) = sdrop 2 r"
  by (simp add: make_sparkle_def Math_random_def numeral_2_eq_2)

lemma sparkle_loop_eq:
  "i \<le> 8 \<Longrightarrow>
   sparkle_loop cx cy i (ss, r) =
     (ss @ map (\<lambda>k. fst (make_sparkle cx cy (i + k) (sdrop (2 * k) r))) [0..<8 - i],
      sdrop (2 * (8 - i)) r)"
proof (induction cx cy i "(ss, r)" arbitrary: ss r rule: sparkle_loop.induct)
  case (1 cx cy i ss r)
  show ?case
  proof (cases "i < 8")
    case False
    with "1.prems" show ?thesis by (simp add: sparkle_loop.simps)
  next
    case True
    obtain s r' where mk: "make_sparkle cx cy i r = (s, r')" by (cases "make_sparkle cx cy i r")
    then have r': "r' = sdrop 2 r" using make_sparkle_rng [of cx cy i r] by simp
    from True have e: "8 - i = Suc (7 - i)" by simp
    have "sparkle_loop cx cy i (ss, r) = sparkle_loop cx cy (Suc i) (ss @ [s], r')"
      using True mk by (simp add: sparkle_loop.simps [of cx cy i])
    also have "\<dots> = ((ss @ [s]) @
        map (\<lambda>k. fst (make_sparkle cx cy (Suc i + k) (sdrop (2 * k) r'))) [0..<8 - Suc i],
        sdrop (2 * (8 - Suc i)) r')"
      using True mk by (intro "1.hyps") simp_all
    also have "\<dots> = (ss @ map (\<lambda>k. fst (make_sparkle cx cy (i + k) (sdrop (2 * k) r))) [0..<8 - i],
        sdrop (2 * (8 - i)) r)"
      using mk by (simp add: e r' map_upt_Suc add.commute del: upt_Suc)
    finally show ?thesis .
  qed
qed

section \<open>The branches of a click\<close>

lemma sparkle_loop_burst:
  "sparkle_loop cx cy 0 (ss, r) = (ss @ burst cx cy r, sdrop 16 r)"
  by (simp add: sparkle_loop_eq burst_def)

lemma length_burst [simp]: "length (burst cx cy r) = 8"
  by (simp add: burst_def)

lemma burst_nth:
  "k < 8 \<Longrightarrow> burst cx cy r ! k =
     \<lparr> s_x = cx, s_y = cy, s_life = 1, s_angle = (real k / 8) * pi * 2,
       s_speed = 2 + (r !! (2 * k)) * 2, s_rotation = Some ((r !! (2 * k + 1)) * pi * 2) \<rparr>"
  by (simp add: burst_def make_sparkle_def Math_random_def sdrop_snth [symmetric]
      del: upt_Suc)

lemma burst_angles: "map s_angle (burst cx cy r) = map (\<lambda>k. real k * pi / 4) [0..<8]"
  by (simp add: burst_def make_sparkle_def Math_random_def del: upt_Suc)

lemma burst_visible: "list_all sparkle_visible (burst cx cy r)"
  by (simp add: burst_def make_sparkle_def Math_random_def sparkle_visible_def
      list_all_iff del: upt_Suc)

lemma burst_speed:
  assumes "rng_ok r" and "s \<in> set (burst cx cy r)"
  shows "2 \<le> s_speed s \<and> s_speed s < 4"
proof -
  from assms(2) obtain k where s: "s = fst (make_sparkle cx cy k (sdrop (2 * k) r))"
    by (auto simp: burst_def)
  have "rng_ok (sdrop (2 * k) r)" using assms(1) by (rule rng_ok_sdrop)
  then have "0 \<le> shd (sdrop (2 * k) r) \<and> shd (sdrop (2 * k) r) < 1" by (rule rng_ok_shd)
  with s show ?thesis by (simp add: make_sparkle_def Math_random_def)
qed

lemma handleCanvasClick_inactive:
  "gs \<noteq> Game \<Longrightarrow> handleCanvasClick cv gs d now cx cy (g, r) = Some (g, r)"
  by (simp add: handleCanvasClick_def)

lemma handleCanvasClick_penalty:
  "cy > NET_Y cv \<Longrightarrow>
   handleCanvasClick cv Game d now cx cy (g, r) =
     Some (g\<lparr> feedback := feedback g @ [penalty_feedback cx cy],
              score := max 0 (score g - 10) \<rparr>, r)"
  by (simp add: handleCanvasClick_def)

lemma handleCanvasClick_miss:
  "\<not> cy > NET_Y cv \<Longrightarrow> find_hit (length (targets g)) cx cy (targets g) = None \<Longrightarrow>
   handleCanvasClick cv Game d now cx cy (g, r) =
     Some (g\<lparr> feedback := feedback g @ [miss_feedback cx cy],
              sparkles := sparkles g @ burst cx cy r \<rparr>, sdrop 16 r)"
  by (simp add: handleCanvasClick_def sparkle_loop_burst)

lemma handleCanvasClick_hit:
  "\<not> cy > NET_Y cv \<Longrightarrow> find_hit (length (targets g)) cx cy (targets g) = Some i \<Longrightarrow>
   handleCanvasClick cv Game d now cx cy (g, r) =
     addNewTarget cv d now None (register_hit now cx cy i g, r)"
  by (simp add: handleCanvasClick_def)

lemma register_hit_fields [simp]:
  "targets (register_hit now cx cy i g) = splice1 i (targets g)"
  "score (register_hit now cx cy i g) =
     score g + fst (calculatePoints (distance_to cx cy (targets g ! i)) (t_radius (targets g ! i)))"
  "totalHits (register_hit now cx cy i g) = totalHits g + 1"
  "perfectHits (register_hit now cx cy i g) =
     (if snd (calculatePoints (distance_to cx cy (targets g ! i)) (t_radius (targets g ! i)))
           = ''PERFECT''
      then perfectHits g + 1 else perfectHits g)"
  "reactionTimes (register_hit now cx cy i g) =
     reactionTimes g @ [reactionTime_of now (targets g ! i)]"
  "nextTargetId (register_hit now cx cy i g) = nextTargetId g"
  "sparkles (register_hit now cx cy i g) = sparkles g"
  "timeLeft (register_hit now cx cy i g) = timeLeft g"
  "mousePos (register_hit now cx cy i g) = mousePos g"
  "feedback (register_hit now cx cy i g) =
     feedback g @ [hit_feedback (targets g ! i)
       (fst (calculatePoints (distance_to cx cy (targets g ! i)) (t_radius (targets g ! i))))
       (snd (calculatePoints (distance_to cx cy (targets g ! i)) (t_radius (targets g ! i))))]"
  by (auto simp: register_hit_def Let_def split: prod.splits)

section \<open>Invariants kept by a click\<close>

lemma hit_points_range:
  assumes "target_wf t" and "inside cx cy t"
  shows "0 \<le> fst (calculatePoints (distance_to cx cy t) (t_radius t)) \<and>
         fst (calculatePoints (distance_to cx cy t) (t_radius t)) \<le> 100"
  using assms by (intro calculatePoints_range) (simp_all add: target_wf_radius_pos inside_def)

lemma register_hit_inv:
  assumes "game_inv g" and "i < length (targets g)" and "inside cx cy (targets g ! i)"
  shows "game_inv (register_hit now cx cy i g)"
proof -
  let ?t = "targets g ! i"
  from assms(1,2) have "target_wf ?t" by (simp add: game_inv_defs list_all_length)
  with assms(3) have pts: "0 \<le> fst (calculatePoints (distance_to cx cy ?t) (t_radius ?t))"
    "fst (calculatePoints (distance_to cx cy ?t) (t_radius ?t)) \<le> 100"
    using hit_points_range by blast+
  from assms(1) pts have "stats_inv (register_hit now cx cy i g)"
    by (simp add: game_inv_def stats_inv_def)
  moreover from assms(1) have "targets_inv (register_hit now cx cy i g)"
    by (simp add: game_inv_def targets_inv_def list_all_splice1 distinct_map_splice1)
  moreover from assms(1) have "effects_inv (register_hit now cx cy i g)"
    by (simp add: game_inv_def effects_inv_def hit_feedback_def feedback_visible_def)
  ultimately show ?thesis by (simp add: game_inv_def)
qed

lemma click_cases:
  assumes "handleCanvasClick cv gs d now cx cy (g, r) = Some (g', r')"
  obtains (inactive) "gs \<noteq> Game" "g' = g" "r' = r"
  | (penalty) "gs = Game" "cy > NET_Y cv" "r' = r"
      "g' = g\<lparr> feedback := feedback g @ [penalty_feedback cx cy],
               score := max 0 (score g - 10) \<rparr>"
  | (miss) "gs = Game" "\<not> cy > NET_Y cv"
      "find_hit (length (targets g)) cx cy (targets g) = None" "r' = sdrop 16 r"
      "g' = g\<lparr> feedback := feedback g @ [miss_feedback cx cy],
               sparkles := sparkles g @ burst cx cy r \<rparr>"
  | (hit) i where "gs = Game" "\<not> cy > NET_Y cv"
      "find_hit (length (targets g)) cx cy (targets g) = Some i"
      "addNewTarget cv d now None (register_hit now cx cy i g, r) = Some (g', r')"
proof (cases "gs = Game")
  case False
  with assms inactive show ?thesis by (simp add: handleCanvasClick_inactive)
next
  case Game: True
  show ?thesis
  proof (cases "cy > NET_Y cv")
    case True
    with assms Game penalty show ?thesis by (simp add: handleCanvasClick_penalty)
  next
    case False
    show ?thesis
    proof (cases "find_hit (length (targets g)) cx cy (targets g)")
      case None
      with assms Game False miss show ?thesis by (simp add: handleCanvasClick_miss)
    next
      case (Some i)
      with assms Game False hit show ?thesis by (simp add: handleCanvasClick_hit)
    qed
  qed
qed

lemma click_target_count:
  assumes "handleCanvasClick cv gs d now cx cy (g, r) = Some (g', r')"
  shows "length (targets g') = length (targets g)"
  using assms
proof (cases rule: click_cases)
  case (hit i)
  from hit(3) have "i < length (targets g)" by (auto dest: find_hit_SomeD)
  with addNewTarget_length [OF hit(4)] show ?thesis by simp
qed simp_all

lemma click_game_inv:
  assumes "handleCanvasClick cv gs d now cx cy (g, r) = Some (g', r')"
    and "game_inv g" and "rng_ok r"
  shows "game_inv g' \<and> rng_ok r'"
  using assms(1)
proof (cases rule: click_cases)
  case inactive
  with assms show ?thesis by simp
next
  case penalty
  with assms show ?thesis
    by (simp add: game_inv_defs penalty_feedback_def feedback_visible_def)
next
  case miss
  with assms show ?thesis
    by (simp add: game_inv_defs miss_feedback_def feedback_visible_def burst_visible
        rng_ok_sdrop)
next
  case (hit i)
  from hit(3) have "i < length (targets g)" "inside cx cy (targets g ! i)"
    by (auto dest: find_hit_SomeD)
  with assms(2) have "game_inv (register_hit now cx cy i g)" by (intro register_hit_inv)
  with hit(4) assms(3) show ?thesis
    by (auto intro: addNewTarget_game_inv addNewTarget_rng_ok)
qed

section \<open>Properties of the pointer handlers\<close>

lemma distance_to_horizontal [simp]: "distance_to cx (t_y t) t = \<bar>cx - t_x t\<bar>"
  by (simp add: distance_to_def)

lemmas click_eval = handleCanvasClick_def find_hit.simps inside_iff_squares register_hit_def
  penalty_feedback_def miss_feedback_def hit_feedback_def reactionTime_of_def splice1_def
  Let_def

text \<open>
  C31. The scan of a click examines the targets from the most recently added down to
  the oldest and stops at the first that contains the pointer: its result is the
  greatest index of a containing target, and none when no target contains the pointer.
\<close>

theorem find_hit_newest_first:
  "(find_hit (length ts) cx cy ts = None \<longleftrightarrow> (\<forall>j<length ts. \<not> inside cx cy (ts ! j))) \<and>
   (\<forall>i. find_hit (length ts) cx cy ts = Some i \<longrightarrow>
      i < length ts \<and> inside cx cy (ts ! i) \<and>
      (\<forall>j. i < j \<and> j < length ts \<longrightarrow> \<not> inside cx cy (ts ! j)))"
  using find_hit_None_iff [of "length ts" cx cy ts] find_hit_SomeD [of "length ts" cx cy ts]
  by blast

theorem find_hit_newest_first_witness:
  "find_hit 2 600 432 [large_target 0 575 432 0, large_target 1 700 432 0] = Some 1 \<and>
   inside 600 432 (large_target 0 575 432 0) \<and> inside 600 432 (large_target 1 700 432 0)"
  using find_hit_newest_first [of "[large_target 0 575 432 0, large_target 1 700 432 0]" 600 432]
  by (simp add: inside_iff_squares numeral_2_eq_2)

text \<open>
  C29. A click below the top of the net never hits a target, even one whose circle
  contains the pointer: it takes 10 points off the score, which stops at 0, adds one
  \<open>MISS\<close> feedback at the pointer, and changes neither the targets, nor the counters,
  nor the sparkles, nor the random source.
\<close>

theorem net_click_is_penalty:
  assumes "cy > NET_Y cv"
  shows "handleCanvasClick cv Game d now cx cy (g, r) =
           Some (g\<lparr> feedback := feedback g @ [penalty_feedback cx cy],
                    score := max 0 (score g - 10) \<rparr>, r)"
  using assms by (rule handleCanvasClick_penalty)

theorem net_click_is_penalty_witness:
  "inside 640 470 (large_target 0 640 288 0) \<and> 470 > NET_Y hd_720 \<and>
   handleCanvasClick hd_720 Game Easy 5 640 470
     (fresh_gameRef\<lparr> targets := [large_target 0 640 288 0], score := 4 \<rparr>, sconst 0) =
   Some (fresh_gameRef\<lparr> targets := [large_target 0 640 288 0], score := 0,
           feedback := [penalty_feedback 640 470] \<rparr>, sconst 0)"
  using net_click_is_penalty [where cv = hd_720 and cy = 470 and d = Easy and now = 5
      and cx = 640 and r = "sconst 0"
      and g = "fresh_gameRef\<lparr> targets := [large_target 0 640 288 0], score := 4 \<rparr>"]
  by (simp add: inside_iff_squares pg_defs fresh_gameRef_def)

text \<open>
  C30. A click above the net that no target contains adds one \<open>MISS\<close> feedback flagged
  as a miss and a burst of exactly eight sparkles at the pointer, whose angles are the
  multiples of a quarter of pi from 0 to seven quarters; it consumes sixteen random
  numbers and changes neither the score nor the targets.
\<close>

theorem miss_adds_eight_sparkles:
  assumes "\<not> cy > NET_Y cv" and "find_hit (length (targets g)) cx cy (targets g) = None"
  shows "handleCanvasClick cv Game d now cx cy (g, r) =
           Some (g\<lparr> feedback := feedback g @ [miss_feedback cx cy],
                    sparkles := sparkles g @ burst cx cy r \<rparr>, sdrop 16 r) \<and>
         length (burst cx cy r) = 8 \<and>
         map s_angle (burst cx cy r) = map (\<lambda>k. real k * pi / 4) [0..<8]"
  using assms by (simp add: handleCanvasClick_miss burst_angles)

theorem miss_adds_eight_sparkles_witness:
  "map s_angle (burst 100 100 (sconst 0)) =
     [0, pi / 4, pi / 2, 3 * pi / 4, pi, 5 * pi / 4, 3 * pi / 2, 7 * pi / 4] \<and>
   handleCanvasClick full_hd Game Easy 5 100 100
     (fresh_gameRef\<lparr> targets := [large_target 0 575 432 0] \<rparr>, sconst 0) =
   Some (fresh_gameRef\<lparr> targets := [large_target 0 575 432 0],
           feedback := [miss_feedback 100 100], sparkles := burst 100 100 (sconst 0) \<rparr>,
         sconst 0)"
proof -
  let ?g = "fresh_gameRef\<lparr> targets := [large_target 0 575 432 0] \<rparr>"
  have 1: "\<not> 100 > NET_Y full_hd" by (simp add: pg_defs)
  have 2: "find_hit (length (targets ?g)) 100 100 (targets ?g) = None"
    by (simp add: inside_iff_squares fresh_gameRef_def)
  from miss_adds_eight_sparkles [OF 1 2, of Easy 5 "sconst 0"] show ?thesis
    by (simp add: fresh_gameRef_def upt_rec [of 0] upt_rec [of "Suc _"] eval_nat_numeral
        del: upt_Suc)
qed

lemma click_hit_fields:
  assumes "handleCanvasClick cv Game d now cx cy (g, r) = Some (g', r')"
    and "\<not> cy > NET_Y cv" and "find_hit (length (targets g)) cx cy (targets g) = Some i"
  shows "score g' = score g + fst (calculatePoints (distance_to cx cy (targets g ! i))
                                    (t_radius (targets g ! i)))"
    and "totalHits g' = totalHits g + 1"
    and "perfectHits g' = (if snd (calculatePoints (distance_to cx cy (targets g ! i))
                                   (t_radius (targets g ! i))) = ''PERFECT''
                           then perfectHits g + 1 else perfectHits g)"
    and "reactionTimes g' = reactionTimes g @ [reactionTime_of now (targets g ! i)]"
    and "feedback g' = feedback g @ [hit_feedback (targets g ! i)
           (fst (calculatePoints (distance_to cx cy (targets g ! i)) (t_radius (targets g ! i))))
           (snd (calculatePoints (distance_to cx cy (targets g ! i)) (t_radius (targets g ! i))))]"
    and "butlast (targets g') = splice1 i (targets g)"
    and "sparkles g' = sparkles g"
proof -
  from assms have a: "addNewTarget cv d now None (register_hit now cx cy i g, r) = Some (g', r')"
    by (simp add: handleCanvasClick_hit)
  note c = addNewTarget_counters [OF a]
  show "score g' = score g + fst (calculatePoints (distance_to cx cy (targets g ! i))
                                    (t_radius (targets g ! i)))"
    using c(1) by simp
  show "totalHits g' = totalHits g + 1" using c(2) by simp
  show "perfectHits g' = (if snd (calculatePoints (distance_to cx cy (targets g ! i))
                                   (t_radius (targets g ! i))) = ''PERFECT''
                           then perfectHits g + 1 else perfectHits g)"
    using c(3) by simp
  show "reactionTimes g' = reactionTimes g @ [reactionTime_of now (targets g ! i)]"
    using c(4) by simp
  show "feedback g' = feedback g @ [hit_feedback (targets g ! i)
           (fst (calculatePoints (distance_to cx cy (targets g ! i)) (t_radius (targets g ! i))))
           (snd (calculatePoints (distance_to cx cy (targets g ! i)) (t_radius (targets g ! i))))]"
    using c(5) by simp
  show "butlast (targets g') = splice1 i (targets g)"
    using a by (auto elim!: addNewTarget_new)
  show "sparkles g' = sparkles g" using c(6) by simp
qed

lemma find_hit_centre_of_last:
  assumes "ts \<noteq> []" and "0 \<le> t_radius (last ts)"
  shows "find_hit (length ts) (t_x (last ts)) (t_y (last ts)) ts = Some (length ts - 1)"
proof -
  from assms(1) obtain n where n: "length ts = Suc n" by (cases ts) auto
  with assms(1) have "last ts = ts ! n" by (simp add: last_conv_nth)
  with assms(2) n show ?thesis by (simp add: inside_centre)
qed

section \<open>A worked click\<close>

lemma demo_scan: "find_hit (length (targets two_targets)) 575 432 (targets two_targets) = Some 1"
  by (simp add: fresh_gameRef_def inside_iff_squares)

lemma demo_register: "register_hit 2500 575 432 1 two_targets = after_hit"
  by (simp add: register_hit_def Let_def fresh_gameRef_def calculatePoints_def accuracy_def
      distance_to_def reactionTime_of_def hit_feedback_def)

lemma demo_respawn:
  "addNewTarget full_hd Easy 2500 None (after_hit, sconst (1/8)) = Some (after_click, sconst (1/8))"
  by (simp add: spawn_eval)

lemma demo_click:
  "handleCanvasClick full_hd Game Easy 2500 575 432 (two_targets, sconst (1/8)) =
     Some (after_click, sconst (1/8))"
proof -
  have "\<not> 432 > NET_Y full_hd" by (simp add: pg_defs)
  from handleCanvasClick_hit [OF this demo_scan, of Easy 2500 "sconst (1/8)"]
  show ?thesis by (simp only: demo_register demo_respawn)
qed

lemma demo_game_inv: "game_inv two_targets"
  by (simp add: game_inv_defs fresh_gameRef_def target_wf_def)

text \<open>
  A click that returns leaves the number of live targets as it was: a hit removes
  one target and adds one.
\<close>

theorem click_keeps_target_count:
  assumes "handleCanvasClick cv gs d now cx cy (g, r) = Some (g', r')"
  shows "length (targets g') = length (targets g)"
  using assms by (rule click_target_count)

theorem click_keeps_target_count_witness:
  "handleCanvasClick full_hd Game Easy 2500 575 432 (two_targets, sconst (1/8)) =
     Some (after_click, sconst (1/8)) \<and>
   length (targets after_click) = length (targets two_targets)"
  using click_keeps_target_count [OF demo_click] demo_click by simp

text \<open>
  A click keeps the invariant of the game variables: the score stays between 0 and
  100 times the number of hits, there is one reaction time per hit, perfect hits do not
  exceed hits, targets stay well formed with distinct identifiers below the next one,
  and every listed effect is visible. The random source stays within \<open>[0, 1)\<close>.
\<close>

theorem click_keeps_game_inv:
  assumes "handleCanvasClick cv gs d now cx cy (g, r) = Some (g', r')"
    and "game_inv g" and "rng_ok r"
  shows "game_inv g' \<and> rng_ok r'"
  using assms by (rule click_game_inv)

theorem click_keeps_game_inv_witness:
  "game_inv two_targets \<and> rng_ok (sconst (1/8)) \<and> game_inv after_click"
  using click_keeps_game_inv [OF demo_click demo_game_inv] demo_game_inv by simp

text \<open>
  C9. A click above the net that a target contains adds the points of the scoring rule
  to the score, counts one hit, counts a perfect hit exactly when the label is
  \<open>PERFECT\<close>, records the time since the target was created, puts the feedback at the
  centre of the target, and removes that target before the new one is appended.
\<close>

theorem hit_updates_score_and_counters:
  assumes "handleCanvasClick cv Game d now cx cy (g, r) = Some (g', r')"
    and "\<not> cy > NET_Y cv" and "find_hit (length (targets g)) cx cy (targets g) = Some i"
  shows "score g' = score g + fst (calculatePoints (distance_to cx cy (targets g ! i))
                                    (t_radius (targets g ! i))) \<and>
         totalHits g' = totalHits g + 1 \<and>
         perfectHits g' = (if snd (calculatePoints (distance_to cx cy (targets g ! i))
                                   (t_radius (targets g ! i))) = ''PERFECT''
                           then perfectHits g + 1 else perfectHits g) \<and>
         reactionTimes g' = reactionTimes g @ [reactionTime_of now (targets g ! i)] \<and>
         f_x (last (feedback g')) = t_x (targets g ! i) \<and>
         f_y (last (feedback g')) = t_y (targets g ! i) \<and>
         butlast (targets g') = splice1 i (targets g)"
  using click_hit_fields [OF assms] by (simp add: hit_feedback_def)

theorem hit_updates_score_and_counters_witness:
  "score after_click = score two_targets + 100 \<and> totalHits after_click = 1 \<and>
   perfectHits after_click = 1 \<and> reactionTimes after_click = [2500 - 1000] \<and>
   butlast (targets after_click) = [large_target 0 1345 432 1000]"
proof -
  have "\<not> 432 > NET_Y full_hd" by (simp add: pg_defs)
  from hit_updates_score_and_counters [OF demo_click this demo_scan] show ?thesis
    by (simp add: fresh_gameRef_def)
qed

text \<open>
  A click on the centre of the most recently added target, above the net, is a
  perfect hit: 100 points, one more perfect hit, and the label \<open>PERFECT\<close>.
\<close>

theorem centre_click_is_perfect:
  assumes "handleCanvasClick cv Game d now (t_x (last (targets g))) (t_y (last (targets g)))
             (g, r) = Some (g', r')"
    and "targets g \<noteq> []" and "0 < t_radius (last (targets g))"
    and "\<not> t_y (last (targets g)) > NET_Y cv"
  shows "score g' = score g + 100 \<and> perfectHits g' = perfectHits g + 1 \<and>
         f_text (last (feedback g')) = ''PERFECT''"
proof -
  let ?t = "last (targets g)"
  from assms(2,3) have hit:
    "find_hit (length (targets g)) (t_x ?t) (t_y ?t) (targets g) = Some (length (targets g) - 1)"
    by (intro find_hit_centre_of_last) simp_all
  from assms(2) have "targets g ! (length (targets g) - 1) = ?t" by (simp add: last_conv_nth)
  with click_hit_fields(1,3,5) [OF assms(1,4) hit] show ?thesis
    by (simp add: calculatePoints_centre hit_feedback_def)
qed

theorem centre_click_is_perfect_witness:
  "score after_click = 100 \<and> perfectHits after_click = 1 \<and>
   f_text (last (feedback after_click)) = ''PERFECT''"
proof -
  have "handleCanvasClick full_hd Game Easy 2500 (t_x (last (targets two_targets)))
     (t_y (last (targets two_targets))) (two_targets, sconst (1/8)) = Some (after_click, sconst (1/8))"
    using demo_click by (simp add: fresh_gameRef_def)
  from centre_click_is_perfect [OF this] show ?thesis
    by (simp add: fresh_gameRef_def pg_defs hit_feedback_def)
qed

text \<open>
  The loop that creates the sparkles of a miss runs eight times and appends the
  eight sparkles \<open>burst\<close> describes: the \<open>k\<close>-th has angle \<open>k/8\<close> of a full turn, takes
  its speed and its rotation from the two random numbers at positions \<open>2k\<close> and \<open>2k+1\<close>,
  and starts with life 1 at the pointer.
\<close>

theorem sparkle_loop_appends_burst:
  "sparkle_loop cx cy 0 (ss, r) = (ss @ burst cx cy r, sdrop 16 r) \<and>
   length (burst cx cy r) = 8 \<and>
   (\<forall>k<8. burst cx cy r ! k =
      \<lparr> s_x = cx, s_y = cy, s_life = 1, s_angle = (real k / 8) * pi * 2,
        s_speed = 2 + (r !! (2 * k)) * 2, s_rotation = Some ((r !! (2 * k + 1)) * pi * 2) \<rparr>)"
  by (simp add: sparkle_loop_burst burst_nth)

theorem sparkle_loop_appends_burst_witness:
  "burst 10 20 (sconst (1/2)) ! 2 =
     \<lparr> s_x = 10, s_y = 20, s_life = 1, s_angle = pi / 2, s_speed = 3, s_rotation = Some pi \<rparr>"
  using sparkle_loop_appends_burst [of 10 20 "[]" "sconst (1/2)"] by simp

text \<open>
  With random numbers in \<open>[0, 1)\<close>, every sparkle of a burst has a speed of at
  least 2 and less than 4, and is visible.
\<close>

theorem burst_speed_range:
  assumes "rng_ok r"
  shows "list_all (\<lambda>s. 2 \<le> s_speed s \<and> s_speed s < 4 \<and> sparkle_visible s) (burst cx cy r)"
  using burst_speed [OF assms] burst_visible [of cx cy r] by (auto simp: list_all_iff)

theorem burst_speed_range_witness:
  "rng_ok (sconst (1/2)) \<and> s_speed (burst 10 20 (sconst (1/2)) ! 2) = 3"
  using burst_speed_range [of "sconst (1/2)" 10 20] by (simp add: burst_nth)

end
