(* ===== verification/Frame_Update.thy ===== *)
theory Frame_Update
  imports Game_Data
begin

text \<open>
  What one animation frame does to the game variables: the state changes made by
  \<^verbatim>\<open>draw\<close> (lines 334-344, 410-425 and 468-475 of \<^verbatim>\<open>src/app/page.tsx\<close>; all its other
  lines paint the canvas and are in theory \<open>Render\<close>), and the first part of \<^verbatim>\<open>gameLoop\<close>
  (lines 530-543): the remaining time, the oscillation of the targets in hard mode, and
  the call of \<^verbatim>\<open>draw\<close>. The end of \<^verbatim>\<open>gameLoop\<close>, which changes the state of the
  component, is in theory \<open>Session\<close>; the statistics it computes are \<open>make_stats\<close> here.

  Where the source dereferences an optional field with \<^verbatim>\<open>!\<close> and the field is absent,
  JavaScript computes NaN; here the number is left as it was. Targets and sparkles made
  by the program always have these fields (\<open>target_wf\<close>, \<open>sparkle_visible\<close>).
\<close>

section \<open>Drift of a moving target\<close>

definition move_target :: "canvas \<Rightarrow> Target \<Rightarrow> Target" where
  "move_target cv t =
     (case t_velocity t of
        None \<Rightarrow> t
      | Some v \<Rightarrow>
          if v \<noteq> 0 \<and> v > 0 then
            (case t_direction t of
               None \<Rightarrow> t
             | Some d \<Rightarrow>
                 let x' = t_x t + d * v in
                 if x' - t_radius t < 0 then t\<lparr> t_x := x', t_direction := Some 1 \<rparr>
                 else if x' + t_radius t > CANVAS_WIDTH cv
                   then t\<lparr> t_x := x', t_direction := Some (- 1) \<rparr>
                 else t\<lparr> t_x := x' \<rparr>)
          else t)"

section \<open>Ageing of the effects\<close>

definition sparkle_step :: "Sparkle \<Rightarrow> Sparkle option" where
  "sparkle_step s =
     (let life = s_life s - 0.02 in
      if life \<le> 0 then None
      else Some (s\<lparr> s_life := life,
                    s_rotation := map_option (\<lambda>a. a + 0.15) (s_rotation s) \<rparr>))"

definition feedback_step :: "Feedback \<Rightarrow> Feedback option" where
  "feedback_step fb =
     (let opacity = f_opacity fb - 0.02 in
      if opacity \<le> 0 then None else Some (fb\<lparr> f_opacity := opacity \<rparr>))"

definition draw :: "canvas \<Rightarrow> gameRef \<Rightarrow> gameRef" where
  "draw cv g =
     g\<lparr> targets := map (move_target cv) (targets g),
        sparkles := sweep sparkle_step (length (sparkles g)) (sparkles g),
        feedback := sweep feedback_step (length (feedback g)) (feedback g) \<rparr>"

section \<open>The frame\<close>

definition remaining :: "int \<Rightarrow> int \<Rightarrow> real" where
  "remaining startTime now = max 0 (60 - real_of_int (now - startTime) / 1000)"

definition wobble :: "canvas \<Rightarrow> int \<Rightarrow> Target \<Rightarrow> Target" where
  "wobble cv now t =
     (let time = real_of_int now / 1000;
          x' = t_x t + sin (time * 2) * 2
      in t\<lparr> t_x := max (t_radius t) (min (CANVAS_WIDTH cv - t_radius t) x') \<rparr>)"

definition advance_frame :: "canvas \<Rightarrow> Difficulty \<Rightarrow> int \<Rightarrow> int \<Rightarrow> gameRef \<Rightarrow> gameRef" where
  "advance_frame cv difficulty startTime now g =
     (let g1 = g\<lparr> timeLeft := remaining startTime now \<rparr>;
          g2 = (if difficulty = Hard then g1\<lparr> targets := map (wobble cv now) (targets g1) \<rparr>
                else g1)
      in draw cv g2)"

text \<open>A run of frames, one per reading of the clock in \<open>nows\<close>.\<close>

definition frames :: "canvas \<Rightarrow> Difficulty \<Rightarrow> int \<Rightarrow> int list \<Rightarrow> gameRef \<Rightarrow> gameRef" where
  "frames cv difficulty startTime nows g =
     foldl (\<lambda>g' now. advance_frame cv difficulty startTime now g') g nows"

section \<open>Statistics of a finished session\<close>

definition avgReactionTime :: "int list \<Rightarrow> real" where
  "avgReactionTime rts =
     (if length rts > 0 then real_of_int (foldl (\<lambda>a b. a + b) 0 rts) / real (length rts)
      else 0)"

definition make_stats :: "Difficulty \<Rightarrow> gameRef \<Rightarrow> GameStats" where
  "make_stats difficulty g =
     \<lparr> finalScore = score g, st_perfectHits = perfectHits g, st_totalHits = totalHits g,
       st_reactionTimes = reactionTimes g,
       averageReactionTime = avgReactionTime (reactionTimes g), mode = difficulty \<rparr>"

section \<open>Notions of the proofs\<close>

text \<open>
  The effect of \<open>n\<close> frames on one effect, in closed form: it is still listed when its
  life exceeds \<open>n\<close> steps of 0.02, and then it has lost exactly that much.
\<close>

definition feedback_after :: "nat \<Rightarrow> Feedback \<Rightarrow> Feedback option" where
  "feedback_after n fb =
     (if f_opacity fb - 0.02 * real n \<le> 0 then None
      else Some (fb\<lparr> f_opacity := f_opacity fb - 0.02 * real n \<rparr>))"

definition sparkle_after :: "nat \<Rightarrow> Sparkle \<Rightarrow> Sparkle option" where
  "sparkle_after n s =
     (if s_life s - 0.02 * real n \<le> 0 then None
      else Some (s\<lparr> s_life := s_life s - 0.02 * real n,
                    s_rotation := map_option (\<lambda>a. a + 0.15 * real n) (s_rotation s) \<rparr>))"

text \<open>Sample inputs for the instances below.\<close>

abbreviation one_target :: gameRef where
  "one_target \<equiv> fresh_gameRef\<lparr> targets := [large_target 0 960 432 0], nextTargetId := 1 \<rparr>"

abbreviation fresh_miss :: Feedback where
  "fresh_miss \<equiv> \<lparr> f_x = 10, f_y = 20, f_text = ''MISS'', f_points = 0, f_opacity = 1,
                   f_isMiss = Some True \<rparr>"

abbreviation drifting :: Target where
  "drifting \<equiv> \<lparr> t_id = 0, t_x = 1729, t_y = 432, t_radius = 190, t_size = Large,
                 t_velocity = Some 1.5, t_direction = Some 1, t_createdAt = Some 0 \<rparr>"

section \<open>Drift and oscillation\<close>

lemma move_target_static: "t_velocity t = Some 0 \<Longrightarrow> move_target cv t = t"
  by (simp add: move_target_def)

lemma move_target_frame [pg_frame]:
  "t_id (move_target cv t) = t_id t"
  "t_y (move_target cv t) = t_y t"
  "t_radius (move_target cv t) = t_radius t"
  "t_size (move_target cv t) = t_size t"
  "t_velocity (move_target cv t) = t_velocity t"
  "t_createdAt (move_target cv t) = t_createdAt t"
  by (simp_all add: move_target_def Let_def split: option.splits)

lemma move_target_wf [pg_wf]: "target_wf t \<Longrightarrow> target_wf (move_target cv t)"
  by (auto simp: move_target_def target_wf_def Let_def split: option.splits)

lemma move_target_step:
  assumes "target_wf t"
  shows "\<exists>v. t_velocity t = Some v \<and> \<bar>t_x (move_target cv t) - t_x t\<bar> = v"
  using assms by (auto simp: move_target_def target_wf_def Let_def split: option.splits)

lemma move_target_bounce:
  assumes "target_wf t" and "t_velocity t = Some v" and "0 < v"
  shows "(t_x (move_target cv t) < t_radius t \<longrightarrow> t_direction (move_target cv t) = Some 1) \<and>
         (t_radius t \<le> t_x (move_target cv t) \<and>
            CANVAS_WIDTH cv - t_radius t < t_x (move_target cv t) \<longrightarrow>
          t_direction (move_target cv t) = Some (- 1))"
  using assms by (auto simp: move_target_def target_wf_def Let_def split: option.splits)

lemma wobble_frame [pg_frame]:
  "t_id (wobble cv now t) = t_id t"
  "t_y (wobble cv now t) = t_y t"
  "t_radius (wobble cv now t) = t_radius t"
  "t_size (wobble cv now t) = t_size t"
  "t_velocity (wobble cv now t) = t_velocity t"
  "t_direction (wobble cv now t) = t_direction t"
  "t_createdAt (wobble cv now t) = t_createdAt t"
  by (simp_all add: wobble_def Let_def)

lemma wobble_x:
  "t_x (wobble cv now t) =
     clamp (t_radius t) (CANVAS_WIDTH cv - t_radius t) (t_x t + sin (real_of_int now / 1000 * 2) * 2)"
  by (simp add: wobble_def clamp_def Let_def)

lemma wobble_wf [pg_wf]: "target_wf t \<Longrightarrow> target_wf (wobble cv now t)"
  by (simp add: wobble_def Let_def)

lemma wobble_range:
  "t_radius t * 2 \<le> CANVAS_WIDTH cv \<Longrightarrow>
   t_radius t \<le> t_x (wobble cv now t) \<and> t_x (wobble cv now t) \<le> CANVAS_WIDTH cv - t_radius t"
  by (simp add: wobble_x clamp_lower clamp_upper)

lemma wobble_shift:
  assumes "t_radius t \<le> t_x t" and "t_x t \<le> CANVAS_WIDTH cv - t_radius t"
  shows "\<bar>t_x (wobble cv now t) - t_x t\<bar> \<le> 2"
  unfolding wobble_x using assms sin_times2_bound by (rule clamp_shift)

section \<open>Ageing and pruning of effects\<close>

lemma feedback_after_0 [simp]: "feedback_visible fb \<Longrightarrow> feedback_after 0 fb = Some fb"
  by (simp add: feedback_after_def feedback_visible_def)

lemma feedback_after_Suc:
  "Option.bind (feedback_after n fb) feedback_step = feedback_after (Suc n) fb"
  by (auto simp: feedback_after_def feedback_step_def Let_def algebra_simps)

lemma sparkle_after_0 [simp]: "sparkle_visible s \<Longrightarrow> sparkle_after 0 s = Some s"
  by (cases "s_rotation s") (simp_all add: sparkle_after_def sparkle_visible_def)

lemma sparkle_after_Suc:
  "Option.bind (sparkle_after n s) sparkle_step = sparkle_after (Suc n) s"
  by (auto simp: sparkle_after_def sparkle_step_def Let_def algebra_simps
      option.map_comp comp_def add_divide_distrib)

lemma feedback_step_visible:
  "feedback_visible fb \<Longrightarrow> feedback_step fb = Some fb' \<Longrightarrow> feedback_visible fb'"
  by (auto simp: feedback_step_def feedback_visible_def Let_def split: if_splits)

lemma sparkle_step_visible:
  "sparkle_visible s \<Longrightarrow> sparkle_step s = Some s' \<Longrightarrow> sparkle_visible s'"
  by (auto simp: sparkle_step_def sparkle_visible_def Let_def split: if_splits)

lemma draw_frame [pg_frame]:
  "score (draw cv g) = score g"
  "timeLeft (draw cv g) = timeLeft g"
  "nextTargetId (draw cv g) = nextTargetId g"
  "perfectHits (draw cv g) = perfectHits g"
  "totalHits (draw cv g) = totalHits g"
  "mousePos (draw cv g) = mousePos g"
  "reactionTimes (draw cv g) = reactionTimes g"
  by (simp_all add: draw_def)

lemma draw_effects:
  "feedback (draw cv g) = List.map_filter feedback_step (feedback g)"
  "sparkles (draw cv g) = List.map_filter sparkle_step (sparkles g)"
  by (simp_all add: draw_def sweep_all)

lemma draw_targets: "targets (draw cv g) = map (move_target cv) (targets g)"
  by (simp add: draw_def)

lemma draw_game_inv:
  assumes "game_inv g"
  shows "game_inv (draw cv g)"
proof -
  from assms have "stats_inv (draw cv g)" by (simp add: game_inv_def stats_inv_def draw_frame)
  moreover from assms have "targets_inv (draw cv g)"
    by (simp add: game_inv_def targets_inv_def draw_targets draw_frame list_all_iff
        move_target_wf move_target_frame comp_def)
  moreover from assms have "effects_inv (draw cv g)"
    by (auto simp: game_inv_def effects_inv_def draw_effects list_all_iff
        intro!: list_all_map_filter [unfolded list_all_iff]
        elim: feedback_step_visible sparkle_step_visible)
  ultimately show ?thesis by (simp add: game_inv_def)
qed

section \<open>Frames, lifetimes, the clock and the statistics\<close>

lemma map_filter_id: "(\<And>x. x \<in> set xs \<Longrightarrow> f x = Some x) \<Longrightarrow> List.map_filter f xs = xs"
  by (induction xs) (simp_all add: List.map_filter_simps)

lemma advance_frame_fields:
  "timeLeft (advance_frame cv d st now g) = remaining st now"
  "feedback (advance_frame cv d st now g) = List.map_filter feedback_step (feedback g)"
  "sparkles (advance_frame cv d st now g) = List.map_filter sparkle_step (sparkles g)"
  "targets (advance_frame cv d st now g) =
     map (move_target cv) (if d = Hard then map (wobble cv now) (targets g) else targets g)"
  by (simp_all add: advance_frame_def Let_def draw_effects draw_targets draw_frame)

lemma advance_frame_frame [pg_frame]:
  "score (advance_frame cv d st now g) = score g"
  "nextTargetId (advance_frame cv d st now g) = nextTargetId g"
  "perfectHits (advance_frame cv d st now g) = perfectHits g"
  "totalHits (advance_frame cv d st now g) = totalHits g"
  "mousePos (advance_frame cv d st now g) = mousePos g"
  "reactionTimes (advance_frame cv d st now g) = reactionTimes g"
  by (simp_all add: advance_frame_def Let_def draw_frame)

lemma advance_frame_target_count:
  "length (targets (advance_frame cv d st now g)) = length (targets g)"
  by (simp add: advance_frame_fields)

lemma advance_frame_ids:
  "map t_id (targets (advance_frame cv d st now g)) = map t_id (targets g)"
  by (simp add: advance_frame_fields comp_def move_target_frame wobble_frame)

lemma advance_frame_game_inv:
  assumes "game_inv g"
  shows "game_inv (advance_frame cv d st now g)"
proof -
  let ?g = "if d = Hard then g\<lparr> timeLeft := remaining st now,
      targets := map (wobble cv now) (targets g) \<rparr> else g\<lparr> timeLeft := remaining st now \<rparr>"
  from assms have "game_inv ?g"
    by (simp add: game_inv_defs list_all_iff wobble_wf wobble_frame comp_def)
  then have "game_inv (draw cv ?g)" by (rule draw_game_inv)
  moreover have "advance_frame cv d st now g = draw cv ?g"
    by (simp add: advance_frame_def Let_def)
  ultimately show ?thesis by simp
qed

lemma frames_snoc:
  "frames cv d st (nows @ [now]) g = advance_frame cv d st now (frames cv d st nows g)"
  by (simp add: frames_def)

lemma frames_Cons:
  "frames cv d st (now # nows) g = frames cv d st nows (advance_frame cv d st now g)"
  by (simp add: frames_def)

lemma frames_Nil [simp]: "frames cv d st [] g = g"
  by (simp add: frames_def)

lemma frames_feedback:
  "list_all feedback_visible (feedback g) \<Longrightarrow>
   feedback (frames cv d st nows g) = List.map_filter (feedback_after (length nows)) (feedback g)"
proof (induction nows rule: rev_induct)
  case Nil
  then show ?case by (simp add: map_filter_id list_all_iff)
next
  case (snoc now nows)
  then show ?case
    by (simp add: frames_snoc advance_frame_fields map_filter_comp feedback_after_Suc)
qed

lemma frames_sparkles:
  "list_all sparkle_visible (sparkles g) \<Longrightarrow>
   sparkles (frames cv d st nows g) = List.map_filter (sparkle_after (length nows)) (sparkles g)"
proof (induction nows rule: rev_induct)
  case Nil
  then show ?case by (simp add: map_filter_id list_all_iff)
next
  case (snoc now nows)
  then show ?case
    by (simp add: frames_snoc advance_frame_fields map_filter_comp sparkle_after_Suc)
qed

lemma frames_game_inv: "game_inv g \<Longrightarrow> game_inv (frames cv d st nows g)"
  by (induction nows rule: rev_induct) (simp_all add: frames_snoc advance_frame_game_inv)

lemma frames_target_count: "length (targets (frames cv d st nows g)) = length (targets g)"
  by (induction nows rule: rev_induct) (simp_all add: frames_snoc advance_frame_target_count)

lemma fresh_feedback_lifetime:
  assumes "f_opacity fb = 1"
  shows "feedback_after n fb \<noteq> None \<longleftrightarrow> n < 50"
proof -
  have "1 - 0.02 * real n \<le> 0 \<longleftrightarrow> 50 \<le> real n" by (simp add: field_simps)
  also have "\<dots> \<longleftrightarrow> 50 \<le> n" by simp
  finally show ?thesis using assms by (auto simp: feedback_after_def)
qed

lemma fresh_sparkle_lifetime:
  assumes "s_life s = 1"
  shows "sparkle_after n s \<noteq> None \<longleftrightarrow> n < 50"
proof -
  have "1 - 0.02 * real n \<le> 0 \<longleftrightarrow> 50 \<le> real n" by (simp add: field_simps)
  also have "\<dots> \<longleftrightarrow> 50 \<le> n" by simp
  finally show ?thesis using assms by (auto simp: sparkle_after_def)
qed

text \<open>No effect outlives 50 frames.\<close>

lemma feedback_after_old:
  "feedback_visible fb \<Longrightarrow> 50 \<le> n \<Longrightarrow> feedback_after n fb = None"
  by (simp add: feedback_after_def feedback_visible_def)

lemma sparkle_after_old:
  "sparkle_visible s \<Longrightarrow> 50 \<le> n \<Longrightarrow> sparkle_after n s = None"
  by (simp add: sparkle_after_def sparkle_visible_def)

lemma map_filter_None: "(\<And>x. x \<in> set xs \<Longrightarrow> f x = None) \<Longrightarrow> List.map_filter f xs = []"
  by (induction xs) (simp_all add: List.map_filter_simps)

lemma remaining_nonneg [simp]: "0 \<le> remaining st now"
  by (simp add: remaining_def)

lemma remaining_le_60: "st \<le> now \<Longrightarrow> remaining st now \<le> 60"
  by (simp add: remaining_def)

lemma remaining_pos_iff: "0 < remaining st now \<longleftrightarrow> now - st < 60000"
proof -
  have "0 < remaining st now \<longleftrightarrow> real_of_int (now - st) < 60000"
    by (simp add: remaining_def max_def field_simps)
  also have "\<dots> \<longleftrightarrow> now - st < 60000" by linarith
  finally show ?thesis .
qed

lemma remaining_zero_iff: "remaining st now = 0 \<longleftrightarrow> 60000 \<le> now - st"
  using remaining_pos_iff [of st now] remaining_nonneg [of st now] by linarith

lemma remaining_antimono: "now1 \<le> now2 \<Longrightarrow> remaining st now2 \<le> remaining st now1"
  by (simp add: remaining_def max_def divide_right_mono)

lemma foldl_add_sum_list: "foldl (\<lambda>a b. a + b) a xs = a + sum_list (xs :: int list)"
  by (induction xs arbitrary: a) simp_all

lemma avgReactionTime_Nil [simp]: "avgReactionTime [] = 0"
  by (simp add: avgReactionTime_def)

lemma avgReactionTime_mean:
  "rts \<noteq> [] \<Longrightarrow> avgReactionTime rts = real_of_int (sum_list rts) / real (length rts)"
  by (simp add: avgReactionTime_def foldl_add_sum_list)

lemma avgReactionTime_times_length:
  "avgReactionTime rts * real (length rts) = real_of_int (sum_list rts)"
  by (cases "rts = []") (simp_all add: avgReactionTime_mean)

lemma avgReactionTime_nonneg:
  "list_all (\<lambda>t. 0 \<le> t) rts \<Longrightarrow> 0 \<le> avgReactionTime rts"
  by (cases "rts = []") (auto simp: avgReactionTime_mean list_all_iff intro!: divide_nonneg_nonneg sum_list_nonneg)

lemma make_stats_consistent:
  "stats_inv g \<Longrightarrow>
   st_totalHits (make_stats d g) = length (st_reactionTimes (make_stats d g)) \<and>
   st_perfectHits (make_stats d g) \<le> st_totalHits (make_stats d g) \<and>
   0 \<le> finalScore (make_stats d g)"
  by (simp add: make_stats_def stats_inv_def)

lemma make_stats_no_hits:
  "stats_inv g \<Longrightarrow> totalHits g = 0 \<Longrightarrow> averageReactionTime (make_stats d g) = 0"
  by (simp add: make_stats_def stats_inv_def)

section \<open>Properties of the frame\<close>

lemma advance_frame_static:
  assumes "d \<noteq> Hard" and "list_all (\<lambda>t. t_velocity t = Some 0) (targets g)"
  shows "targets (advance_frame cv d st now g) = targets g"
  using assms by (simp add: advance_frame_fields list_all_iff move_target_static map_idI)

lemma hard_frame_shift:
  assumes "target_wf t" and "t_velocity t = Some v"
    and "t_radius t \<le> t_x t" and "t_x t \<le> CANVAS_WIDTH cv - t_radius t"
  shows "\<bar>t_x (move_target cv (wobble cv now t)) - t_x t\<bar> \<le> v + 2"
proof -
  let ?w = "wobble cv now t"
  from assms(1) have "target_wf ?w" by (rule wobble_wf)
  from move_target_step [OF this, of cv] assms(2)
  have "\<bar>t_x (move_target cv ?w) - t_x ?w\<bar> = v" by (simp add: wobble_frame)
  moreover from assms(3,4) have "\<bar>t_x ?w - t_x t\<bar> \<le> 2" by (rule wobble_shift)
  ultimately show ?thesis by linarith
qed

lemma one_target_inv: "game_inv one_target"
  by (simp add: game_inv_defs fresh_gameRef_def target_wf_def)

lemma frames_fresh_feedback:
  assumes "f_opacity fb = 1"
  shows "feedback (frames cv d st nows (g\<lparr> feedback := [fb] \<rparr>)) =
           (if length nows < 50 then [fb\<lparr> f_opacity := 1 - 0.02 * real (length nows) \<rparr>] else [])"
proof -
  from assms have "list_all feedback_visible (feedback (g\<lparr> feedback := [fb] \<rparr>))"
    by (simp add: feedback_visible_def)
  from frames_feedback [OF this] fresh_feedback_lifetime [OF assms, of "length nows"] assms
  show ?thesis
    by (auto simp: List.map_filter_simps feedback_after_def split: if_splits)
qed

text \<open>
  A frame keeps the invariant of the game variables, the number of live targets
  and their identifiers, and changes neither the score nor the counters nor the
  recorded reaction times; it sets the time left to the remaining time.
\<close>

theorem frame_keeps_game_inv:
  assumes "game_inv g"
  shows "game_inv (advance_frame cv d st now g) \<and>
         map t_id (targets (advance_frame cv d st now g)) = map t_id (targets g) \<and>
         score (advance_frame cv d st now g) = score g \<and>
         totalHits (advance_frame cv d st now g) = totalHits g \<and>
         perfectHits (advance_frame cv d st now g) = perfectHits g \<and>
         reactionTimes (advance_frame cv d st now g) = reactionTimes g \<and>
         timeLeft (advance_frame cv d st now g) = remaining st now"
  using assms
  by (simp add: advance_frame_game_inv advance_frame_ids advance_frame_frame
      advance_frame_fields(1))

theorem frame_keeps_game_inv_witness:
  "game_inv one_target \<and> game_inv (advance_frame full_hd Hard 0 1000 one_target) \<and>
   timeLeft (advance_frame full_hd Hard 0 1000 one_target) = 59"
  using frame_keeps_game_inv [OF one_target_inv, of full_hd Hard 0 1000] one_target_inv
  by (simp add: remaining_def)

text \<open>
  Outside hard mode a frame leaves targets of velocity 0 where they are.
\<close>

theorem static_targets_stay:
  assumes "d \<noteq> Hard" and "list_all (\<lambda>t. t_velocity t = Some 0) (targets g)"
  shows "targets (advance_frame cv d st now g) = targets g"
  using assms by (rule advance_frame_static)

theorem static_targets_stay_witness:
  "targets (advance_frame full_hd Easy 0 1000 one_target) = [large_target 0 960 432 0]"
  using static_targets_stay [of Easy one_target full_hd 0 1000] by (simp add: fresh_gameRef_def)

text \<open>
  In hard mode one frame moves a well-formed target that lies within the canvas
  by at most its velocity plus 2: the oscillation contributes at most 2 and the drift
  exactly the velocity.
\<close>

theorem hard_frame_moves_at_most_velocity_plus_2:
  assumes "target_wf t" and "t_velocity t = Some v"
    and "t_radius t \<le> t_x t" and "t_x t \<le> CANVAS_WIDTH cv - t_radius t"
  shows "\<bar>t_x (move_target cv (wobble cv now t)) - t_x t\<bar> \<le> v + 2"
  using assms by (rule hard_frame_shift)

theorem hard_frame_moves_at_most_velocity_plus_2_witness:
  "target_wf drifting \<and> \<bar>t_x (move_target full_hd (wobble full_hd 500 drifting)) - 1729\<bar> \<le> 3.5"
  using hard_frame_moves_at_most_velocity_plus_2 [of drifting "1.5" full_hd 500]
  by (simp add: target_wf_def pg_defs)

text \<open>
  A drifting target whose edge has left the canvas on the left heads right after the
  frame, and one whose edge has left it on the right heads left.
\<close>

theorem drifting_target_bounces:
  assumes "target_wf t" and "t_velocity t = Some v" and "0 < v"
  shows "(t_x (move_target cv t) < t_radius t \<longrightarrow> t_direction (move_target cv t) = Some 1) \<and>
         (t_radius t \<le> t_x (move_target cv t) \<and>
            CANVAS_WIDTH cv - t_radius t < t_x (move_target cv t) \<longrightarrow>
          t_direction (move_target cv t) = Some (- 1))"
  using assms by (rule move_target_bounce)

theorem drifting_target_bounces_witness:
  "target_wf drifting \<and> t_x (move_target full_hd drifting) = 1730.5 \<and>
   t_direction (move_target full_hd drifting) = Some (- 1)"
  using drifting_target_bounces [of drifting "1.5" full_hd]
  by (simp add: target_wf_def pg_defs move_target_def)

text \<open>
  After \<open>n\<close> frames the feedback list holds exactly the entries whose opacity
  exceeded \<open>n\<close> steps of 0.02, in their order, each with its opacity lowered by that
  amount; likewise the sparkles, whose rotation has advanced by \<open>n\<close> steps of 0.15.
\<close>

theorem effects_after_n_frames:
  assumes "effects_inv g"
  shows "feedback (frames cv d st nows g) =
           List.map_filter (feedback_after (length nows)) (feedback g) \<and>
         sparkles (frames cv d st nows g) =
           List.map_filter (sparkle_after (length nows)) (sparkles g)"
  using assms by (simp add: effects_inv_def frames_feedback frames_sparkles)

theorem effects_after_n_frames_witness:
  "feedback (frames full_hd Easy 0 [16, 32, 48] (one_target\<lparr> feedback := [fresh_miss] \<rparr>)) =
     [fresh_miss\<lparr> f_opacity := 0.94 \<rparr>]"
  using effects_after_n_frames [of "one_target\<lparr> feedback := [fresh_miss] \<rparr>" full_hd Easy 0 "[16, 32, 48]"]
  by (simp add: effects_inv_def feedback_visible_def fresh_gameRef_def feedback_after_def
      List.map_filter_simps)

text \<open>
  A feedback entry created with opacity 1 is shown for 49 frames and removed by
  the 50th.
\<close>

theorem fresh_feedback_lasts_49_frames:
  assumes "f_opacity fb = 1"
  shows "feedback (frames cv d st nows (g\<lparr> feedback := [fb] \<rparr>)) \<noteq> [] \<longleftrightarrow> length nows < 50"
  using frames_fresh_feedback [OF assms] by simp

theorem fresh_feedback_lasts_49_frames_witness:
  "feedback (frames full_hd Easy 0 (replicate 50 0) (one_target\<lparr> feedback := [fresh_miss] \<rparr>)) = [] \<and>
   feedback (frames full_hd Easy 0 (replicate 49 0) (one_target\<lparr> feedback := [fresh_miss] \<rparr>)) \<noteq> []"
  using fresh_feedback_lasts_49_frames [of fresh_miss full_hd Easy 0 "replicate 50 0" one_target]
    fresh_feedback_lasts_49_frames [of fresh_miss full_hd Easy 0 "replicate 49 0" one_target]
  by simp

text \<open>
  The remaining time lies between 0 and 60 seconds, does not increase with the
  clock, and is 0 exactly when 60000 milliseconds or more have passed since the start.
\<close>

theorem remaining_time_bounds:
  assumes "st \<le> now1" and "now1 \<le> now2"
  shows "0 \<le> remaining st now2 \<and> remaining st now2 \<le> remaining st now1 \<and>
         remaining st now1 \<le> 60 \<and> (remaining st now2 = 0 \<longleftrightarrow> 60000 \<le> now2 - st)"
  using assms by (simp add: remaining_antimono remaining_le_60 remaining_zero_iff)

theorem remaining_time_bounds_witness:
  "remaining 1000 61000 = 0 \<and> remaining 1000 60999 = 0.001 \<and> remaining 1000 1000 = 60"
  using remaining_time_bounds [of 1000 1000 61000] by (simp add: remaining_def)

text \<open>
  The average reaction time is 0 when there is no hit and the arithmetic mean of
  the recorded times otherwise.
\<close>

theorem average_reaction_time_is_mean:
  "avgReactionTime [] = 0 \<and>
   avgReactionTime (t # ts) = real_of_int (sum_list (t # ts)) / real (length (t # ts))"
  using avgReactionTime_mean [of "t # ts"] by simp

text \<open>
  The statistics taken from game variables that satisfy the invariant are
  consistent: one reaction time per hit, no more perfect hits than hits, a score between
  0 and 100 per hit, and an average of 0 when nothing was hit.
\<close>

theorem stats_snapshot_consistent:
  assumes "game_inv g"
  shows "st_totalHits (make_stats d g) = length (st_reactionTimes (make_stats d g)) \<and>
         st_perfectHits (make_stats d g) \<le> st_totalHits (make_stats d g) \<and>
         0 \<le> finalScore (make_stats d g) \<and>
         finalScore (make_stats d g) \<le> 100 * int (st_totalHits (make_stats d g)) \<and>
         (st_totalHits (make_stats d g) = 0 \<longrightarrow> averageReactionTime (make_stats d g) = 0)"
  using assms by (auto simp: game_inv_def stats_inv_def make_stats_def)

theorem stats_snapshot_consistent_witness:
  "game_inv one_target \<and> averageReactionTime (make_stats Easy one_target) = 0"
  using stats_snapshot_consistent [OF one_target_inv, of Easy] one_target_inv
  by (simp add: make_stats_def fresh_gameRef_def)

end
