(* ===== verification/Session.thy ===== *)
theory Session
  imports Hit_Resolver Frame_Update
begin

text \<open>
  The component \<^verbatim>\<open>PaddleGame\<close> as a state machine. Its state \<open>app\<close> holds

  \<^item> the React state of the component: \<open>canvasSize\<close>, \<open>gameState\<close>, \<open>difficulty\<close> and
    \<open>gameStats\<close> (lines 50-55 of \<^verbatim>\<open>src/app/page.tsx\<close>);
  \<^item> \<open>current\<close>, the object \<^verbatim>\<open>gameRef.current\<close> (lines 58-69);
  \<^item> \<open>startTime\<close> and \<open>loopCanvas\<close>, what the running game-loop effect captured when it
    started: the clock reading of line 527 and the canvas size its closure sees
    (\<^verbatim>\<open>draw\<close> and \<^verbatim>\<open>gameLoop\<close> are not re-created while the effect runs, because the
    effect depends on \<^verbatim>\<open>gameState\<close> and \<^verbatim>\<open>difficulty\<close> only);
  \<^item> the environment: \<open>rnd\<close>, the results \<^verbatim>\<open>Math.random\<close> has yet to return, and
    \<open>clock\<close>, the last reading of \<^verbatim>\<open>Date.now\<close>.

  An \<open>event\<close> is a callback the browser may invoke; \<open>step now a e\<close> runs it at clock
  reading \<open>now\<close>. A callback whose element is not rendered in the current screen (lines
  731-737) leaves the state as it is. The result is \<open>None\<close> when the callback does not
  return, which happens only through the placement loop of \<^verbatim>\<open>addNewTarget\<close>.

  The effect is taken to start at the clock reading of the callback that caused it.
  The effects themselves, the requests for animation frames, the listeners and the
  request for fullscreen display are in theory \<open>Lifecycle\<close>, which refines this one;
  the elements that install the callbacks are in theory \<open>Screens\<close>.
\<close>

section \<open>State and events\<close>

record app =
  canvasSize :: canvas
  gameState :: GameState
  difficulty :: Difficulty
  gameStats :: "GameStats option"
  current :: gameRef
  startTime :: int
  loopCanvas :: canvas
  rnd :: rng
  clock :: int

datatype event =
    Resize real real
  | SelectDifficulty Difficulty
  | Click real real
  | MouseMove real real
  | Frame
  | PlayAgain
  | BackToMenu

definition initial_app :: "rng \<Rightarrow> int \<Rightarrow> app" where
  "initial_app r t0 =
     \<lparr> canvasSize = initial_canvas, gameState = Menu, difficulty = Easy, gameStats = None,
       current = fresh_gameRef, startTime = t0, loopCanvas = initial_canvas, rnd = r,
       clock = t0 \<rparr>"

section \<open>Operations\<close>

definition updateCanvasSize :: "real \<Rightarrow> real \<Rightarrow> app \<Rightarrow> app" where
  "updateCanvasSize w h a = a\<lparr> canvasSize := \<lparr> width = w, height = h \<rparr> \<rparr>"

definition initializeGame :: "Difficulty \<Rightarrow> int \<Rightarrow> app \<Rightarrow> app option" where
  "initializeGame selectedDifficulty now a =
     (case addNewTarget (canvasSize a) (difficulty a) now (Some selectedDifficulty)
             (fresh_gameRef, rnd a) of
        None \<Rightarrow> None
      | Some (g1, r1) \<Rightarrow>
          (case addNewTarget (canvasSize a) (difficulty a) now (Some selectedDifficulty)
                  (g1, r1) of
             None \<Rightarrow> None
           | Some (g2, r2) \<Rightarrow>
               Some (a\<lparr> difficulty := selectedDifficulty, current := g2, rnd := r2,
                        gameState := Game \<rparr>)))"

definition start_loop :: "int \<Rightarrow> app \<Rightarrow> app" where
  "start_loop now a = a\<lparr> startTime := now, loopCanvas := canvasSize a \<rparr>"

definition gameLoop :: "int \<Rightarrow> app \<Rightarrow> app" where
  "gameLoop now a =
     (let g = advance_frame (loopCanvas a) (difficulty a) (startTime a) now (current a) in
      if timeLeft g > 0 then a\<lparr> current := g \<rparr>
      else a\<lparr> current := g, gameStats := Some (make_stats (difficulty a) g),
              gameState := End \<rparr>)"

definition click :: "int \<Rightarrow> real \<Rightarrow> real \<Rightarrow> app \<Rightarrow> app option" where
  "click now x y a =
     (case handleCanvasClick (canvasSize a) (gameState a) (difficulty a) now x y
             (current a, rnd a) of
        None \<Rightarrow> None
      | Some (g, r) \<Rightarrow> Some (a\<lparr> current := g, rnd := r \<rparr>))"

fun handle :: "int \<Rightarrow> app \<Rightarrow> event \<Rightarrow> app option" where
  "handle now a (Resize w h) = Some (updateCanvasSize w h a)"
| "handle now a (SelectDifficulty d) =
     (if gameState a = Menu then map_option (start_loop now) (initializeGame d now a)
      else Some a)"
| "handle now a (Click x y) = (if gameState a = Game then click now x y a else Some a)"
| "handle now a (MouseMove x y) =
     (if gameState a = Game then Some (a\<lparr> current := handleMouseMove x y (current a) \<rparr>)
      else Some a)"
| "handle now a Frame = (if gameState a = Game then Some (gameLoop now a) else Some a)"
| "handle now a PlayAgain =
     (if gameState a = End then
        (case gameStats a of
           None \<Rightarrow> Some a
         | Some st \<Rightarrow> map_option (start_loop now) (initializeGame (mode st) now a))
      else Some a)"
| "handle now a BackToMenu =
     (if gameState a = End \<and> gameStats a \<noteq> None then Some (a\<lparr> gameState := Menu \<rparr>)
      else Some a)"

definition step :: "int \<Rightarrow> app \<Rightarrow> event \<Rightarrow> app option" where
  "step now a e = map_option (\<lambda>a'. a'\<lparr> clock := now \<rparr>) (handle now a e)"

section \<open>Runs and reachable states\<close>

fun run :: "app \<Rightarrow> (int \<times> event) list \<Rightarrow> app option" where
  "run a [] = Some a"
| "run a ((now, e) # es) = (case step now a e of None \<Rightarrow> None | Some a' \<Rightarrow> run a' es)"

text \<open>\<open>in_time t es\<close>: the clock readings of \<open>es\<close> do not decrease, starting from \<open>t\<close>.\<close>

fun in_time :: "int \<Rightarrow> (int \<times> event) list \<Rightarrow> bool" where
  "in_time t [] = True"
| "in_time t ((now, e) # es) = (t \<le> now \<and> in_time now es)"

inductive reachable :: "app \<Rightarrow> bool" where
  reach_start: "rng_ok r \<Longrightarrow> reachable (initial_app r t0)"
| reach_step: "reachable a \<Longrightarrow> clock a \<le> now \<Longrightarrow> step now a e = Some a' \<Longrightarrow> reachable a'"

section \<open>The invariant of the session\<close>

definition session_inv :: "app \<Rightarrow> bool" where
  "session_inv a \<longleftrightarrow>
     game_inv (current a) \<and> rng_ok (rnd a) \<and>
     (gameState a = Game \<longrightarrow> length (targets (current a)) = 2) \<and>
     (gameState a = End \<longrightarrow>
        gameStats a = Some (make_stats (difficulty a) (current a)) \<and>
        timeLeft (current a) = 0) \<and>
     (gameState a \<noteq> Menu \<longrightarrow> nextTargetId (current a) = totalHits (current a) + 2)"

section \<open>Sample states\<close>

text \<open>
  A session on a 1920 by 1080 canvas, started in easy mode at clock reading 1000, the
  same session timed out, and a session in front of an 800 by 600 canvas.
\<close>

abbreviation demo_rng :: rng where
  "demo_rng \<equiv> 1/4 ## 3/4 ## 3/4 ## 1/4 ## sconst (7/8)"

abbreviation started_game :: gameRef where
  "started_game \<equiv>
     fresh_gameRef\<lparr> targets :=
         [large_target 0 575 432 1000,
          \<lparr> t_id = 1, t_x = 1345, t_y = 432, t_radius = 190, t_size = Large,
            t_velocity = Some 0, t_direction = Some (- 1), t_createdAt = Some 1000 \<rparr>],
       nextTargetId := 2 \<rparr>"

abbreviation started :: app where
  "started \<equiv>
     \<lparr> canvasSize = full_hd, gameState = Game, difficulty = Easy, gameStats = None,
       current = started_game, startTime = 1000, loopCanvas = full_hd,
       rnd = sconst (7/8), clock = 1000 \<rparr>"

abbreviation timed_out :: app where
  "timed_out \<equiv>
     started\<lparr> current := started_game\<lparr> timeLeft := 0 \<rparr>,
              gameStats := Some \<lparr> finalScore = 0, st_perfectHits = 0, st_totalHits = 0,
                                  st_reactionTimes = [], averageReactionTime = 0, mode = Easy \<rparr>,
              gameState := End, clock := 61000 \<rparr>"

abbreviation small_screen :: app where
  "small_screen \<equiv> (initial_app (sconst (1/2)) 0)\<lparr> canvasSize := \<lparr> width = 800, height = 600 \<rparr> \<rparr>"

text \<open>The session of the worked example, after the perfect hit and after the penalty.\<close>

abbreviation hit_game :: gameRef where
  "hit_game \<equiv>
     fresh_gameRef\<lparr> targets := [large_target 0 575 432 1000, large_target 2 1537.5 432 2500],
       nextTargetId := 3, score := 100, totalHits := 1, perfectHits := 1,
       reactionTimes := [1500],
       feedback := [\<lparr> f_x = 1345, f_y = 432, f_text = ''PERFECT'', f_points = 100,
                       f_opacity = 1, f_isMiss = None \<rparr>] \<rparr>"

abbreviation after_perfect_hit :: app where
  "after_perfect_hit \<equiv> started\<lparr> current := hit_game, clock := 2500 \<rparr>"

abbreviation after_penalty :: app where
  "after_penalty \<equiv>
     started\<lparr> current := hit_game\<lparr> score := 90,
                   feedback := feedback hit_game @ [penalty_feedback 100 900] \<rparr>,
              clock := 3000 \<rparr>"

abbreviation final_stats :: GameStats where
  "final_stats \<equiv> \<lparr> finalScore = 90, st_perfectHits = 1, st_totalHits = 1,
                     st_reactionTimes = [1500], averageReactionTime = 1500, mode = Easy \<rparr>"

section \<open>Every operation keeps the invariant\<close>

lemma click_id_balance:
  assumes "handleCanvasClick cv gs d now cx cy (g, r) = Some (g', r')"
  shows "nextTargetId g' + totalHits g = nextTargetId g + totalHits g'"
  using assms
proof (cases rule: click_cases)
  case (hit i)
  from addNewTarget_counters(2,9) [OF hit(4)] show ?thesis by simp
qed simp_all

lemma initializeGame_SomeE:
  assumes "initializeGame sd now a = Some a'"
  obtains g1 r1 g2 r2 where
    "addNewTarget (canvasSize a) (difficulty a) now (Some sd) (fresh_gameRef, rnd a) = Some (g1, r1)"
    "addNewTarget (canvasSize a) (difficulty a) now (Some sd) (g1, r1) = Some (g2, r2)"
    "a' = a\<lparr> difficulty := sd, current := g2, rnd := r2, gameState := Game \<rparr>"
  using assms by (auto simp: initializeGame_def split: option.splits)

lemma session_invD:
  assumes "session_inv a"
  shows "game_inv (current a)" and "rng_ok (rnd a)"
  using assms by (simp_all add: session_inv_def)

lemma initializeGame_inv:
  assumes "initializeGame sd now a = Some a'" and "session_inv a"
  shows "session_inv a'"
proof -
  from assms(2) have ok: "rng_ok (rnd a)" by (rule session_invD)
  from assms(1) obtain g1 r1 g2 r2 where
    a1: "addNewTarget (canvasSize a) (difficulty a) now (Some sd) (fresh_gameRef, rnd a) = Some (g1, r1)" and
    a2: "addNewTarget (canvasSize a) (difficulty a) now (Some sd) (g1, r1) = Some (g2, r2)" and
    a': "a' = a\<lparr> difficulty := sd, current := g2, rnd := r2, gameState := Game \<rparr>"
    by (rule initializeGame_SomeE)
  from a1 ok have g1: "game_inv g1" "rng_ok r1"
    by (auto intro: addNewTarget_game_inv addNewTarget_rng_ok game_inv_fresh)
  with a2 have g2: "game_inv g2" "rng_ok r2"
    by (auto intro: addNewTarget_game_inv addNewTarget_rng_ok)
  have "length (targets g2) = 2"
    using addNewTarget_length [OF a1] addNewTarget_length [OF a2] by (simp add: fresh_gameRef_def)
  moreover have "nextTargetId g2 = 2" "totalHits g2 = 0"
    using addNewTarget_counters(2,9) [OF a1] addNewTarget_counters(2,9) [OF a2]
    by (simp_all add: fresh_gameRef_def)
  ultimately show ?thesis using g2 by (simp add: session_inv_def a')
qed

lemma start_loop_inv [simp]: "session_inv (start_loop now a) = session_inv a"
  by (simp add: session_inv_def start_loop_def)

lemma updateCanvasSize_inv [simp]: "session_inv (updateCanvasSize w h a) = session_inv a"
  by (simp add: session_inv_def updateCanvasSize_def)

lemma clock_update_inv [simp]: "session_inv (a\<lparr> clock := now \<rparr>) = session_inv a"
  by (simp add: session_inv_def)

lemma click_SomeE:
  assumes "click now x y a = Some a'"
  obtains g r where
    "handleCanvasClick (canvasSize a) (gameState a) (difficulty a) now x y (current a, rnd a)
       = Some (g, r)"
    "a' = a\<lparr> current := g, rnd := r \<rparr>"
  using assms by (auto simp: click_def split: option.splits)

lemma click_inv:
  assumes "click now x y a = Some a'" and "session_inv a" and "gameState a = Game"
  shows "session_inv a'"
proof -
  from assms(1) obtain g r where
    h: "handleCanvasClick (canvasSize a) (gameState a) (difficulty a) now x y (current a, rnd a)
          = Some (g, r)" and a': "a' = a\<lparr> current := g, rnd := r \<rparr>"
    by (rule click_SomeE)
  from h have "game_inv g \<and> rng_ok r"
    using session_invD [OF assms(2)] by (rule click_game_inv)
  moreover from h have "length (targets g) = length (targets (current a))"
    by (rule click_target_count)
  moreover from h have "nextTargetId g + totalHits (current a) = nextTargetId (current a) + totalHits g"
    by (rule click_id_balance)
  ultimately show ?thesis using assms(2,3) by (simp add: session_inv_def a')
qed

lemma gameLoop_inv:
  assumes "session_inv a" and "gameState a = Game"
  shows "session_inv (gameLoop now a)"
proof -
  let ?g = "advance_frame (loopCanvas a) (difficulty a) (startTime a) now (current a)"
  from assms(1) have "game_inv ?g" by (simp add: session_inv_def advance_frame_game_inv)
  moreover have "\<not> timeLeft ?g > 0 \<Longrightarrow> timeLeft ?g = 0"
    using remaining_nonneg [of "startTime a" now] by (simp add: advance_frame_fields)
  ultimately show ?thesis using assms
    by (simp add: session_inv_def gameLoop_def Let_def advance_frame_target_count
        advance_frame_frame)
qed

lemma handle_inv:
  assumes "handle now a e = Some a'" and "session_inv a"
  shows "session_inv a'"
proof (cases e)
  case (SelectDifficulty d)
  with assms show ?thesis by (auto split: if_splits intro: initializeGame_inv)
next
  case (Click x y)
  with assms show ?thesis by (auto split: if_splits intro: click_inv)
next
  case (MouseMove x y)
  with assms show ?thesis
    by (auto simp: session_inv_def handleMouseMove_def game_inv_defs split: if_splits)
next
  case Frame
  with assms show ?thesis by (auto split: if_splits intro: gameLoop_inv)
next
  case PlayAgain
  with assms show ?thesis
    by (auto split: if_splits option.splits intro: initializeGame_inv)
next
  case BackToMenu
  with assms show ?thesis by (auto simp: session_inv_def split: if_splits)
qed (use assms in auto)

lemma step_inv: "step now a e = Some a' \<Longrightarrow> session_inv a \<Longrightarrow> session_inv a'"
  by (auto simp: step_def dest: handle_inv)

lemma initial_inv: "rng_ok r \<Longrightarrow> session_inv (initial_app r t0)"
  by (simp add: session_inv_def initial_app_def game_inv_fresh)

lemma reachable_inv: "reachable a \<Longrightarrow> session_inv a"
  by (induction rule: reachable.induct) (auto intro: initial_inv step_inv)

section \<open>Runs, reachability and the phases of a session\<close>

lemma step_clock: "step now a e = Some a' \<Longrightarrow> clock a' = now"
  by (auto simp: step_def)

lemma run_append:
  "run a (es @ es') = (case run a es of None \<Rightarrow> None | Some a' \<Rightarrow> run a' es')"
  by (induction es arbitrary: a) (auto split: option.splits)

lemma in_time_snoc:
  "in_time t (es @ [(now, e)]) \<longleftrightarrow> in_time t es \<and> (if es = [] then t else fst (last es)) \<le> now"
  by (induction es arbitrary: t) auto

lemma run_clock:
  "run a es = Some a' \<Longrightarrow> clock a' = (if es = [] then clock a else fst (last es))"
proof (induction es arbitrary: a)
  case Nil
  then show ?case by simp
next
  case (Cons p es)
  obtain now e where p: "p = (now, e)" by (cases p)
  with Cons.prems obtain a1 where s: "step now a e = Some a1" and r: "run a1 es = Some a'"
    by (auto split: option.splits)
  from Cons.IH [OF r] step_clock [OF s] p show ?case by simp
qed

lemma run_reachable:
  "reachable a \<Longrightarrow> in_time (clock a) es \<Longrightarrow> run a es = Some a' \<Longrightarrow> reachable a'"
proof (induction es arbitrary: a)
  case Nil
  then show ?case by simp
next
  case (Cons p es)
  obtain now e where p: "p = (now, e)" by (cases p)
  with Cons.prems obtain a1 where s: "step now a e = Some a1" and r: "run a1 es = Some a'"
    by (auto split: option.splits)
  from Cons.prems p have "clock a \<le> now" "in_time now es" by simp_all
  with Cons.prems(1) s have "reachable a1" "in_time (clock a1) es"
    by (auto intro: reach_step simp: step_clock)
  then show ?case using r by (rule Cons.IH)
qed

lemma reachable_run:
  "reachable a \<Longrightarrow> \<exists>r t0 es. rng_ok r \<and> in_time t0 es \<and> run (initial_app r t0) es = Some a"
proof (induction rule: reachable.induct)
  case (reach_start r t0)
  then have "rng_ok r \<and> in_time t0 [] \<and> run (initial_app r t0) [] = Some (initial_app r t0)"
    by simp
  then show ?case by blast
next
  case (reach_step a now e a')
  then obtain r t0 es where ok: "rng_ok r" and t: "in_time t0 es"
    and r: "run (initial_app r t0) es = Some a" by blast
  from run_clock [OF r] have "clock a = (if es = [] then t0 else fst (last es))"
    by (simp add: initial_app_def)
  with t reach_step.hyps(2) have "in_time t0 (es @ [(now, e)])" by (simp add: in_time_snoc)
  moreover from r reach_step.hyps(3) have "run (initial_app r t0) (es @ [(now, e)]) = Some a'"
    by (simp add: run_append)
  ultimately show ?case using ok by blast
qed

lemma initial_clock [simp]: "clock (initial_app r t0) = t0"
  by (simp add: initial_app_def)

lemma gameLoop_phase:
  "gameState (gameLoop now a) = (if 60000 \<le> now - startTime a then End else gameState a)"
  using remaining_pos_iff [of "startTime a" now]
  by (auto simp: gameLoop_def Let_def advance_frame_fields)

lemma gameLoop_stats:
  "60000 \<le> now - startTime a \<Longrightarrow>
   gameStats (gameLoop now a) = Some (make_stats (difficulty a) (current (gameLoop now a))) \<and>
   timeLeft (current (gameLoop now a)) = 0"
  using remaining_pos_iff [of "startTime a" now] remaining_zero_iff [of "startTime a" now]
  by (auto simp: gameLoop_def Let_def advance_frame_fields)

lemma step_ignored:
  assumes "gameState a \<noteq> Game"
  shows "step now a (Click x y) = Some (a\<lparr> clock := now \<rparr>)"
    and "step now a (MouseMove x y) = Some (a\<lparr> clock := now \<rparr>)"
    and "step now a Frame = Some (a\<lparr> clock := now \<rparr>)"
  using assms by (simp_all add: step_def)

lemma step_returns:
  "\<exists>a'. step now a (Resize w h) = Some a'"
  "\<exists>a'. step now a (MouseMove x y) = Some a'"
  "\<exists>a'. step now a Frame = Some a'"
  "\<exists>a'. step now a BackToMenu = Some a'"
  by (simp_all add: step_def)

lemma initializeGame_hangs:
  assumes "380 \<le> width (canvasSize a)" and "width (canvasSize a) < 840" and "rng_ok (rnd a)"
  shows "initializeGame Easy now a = None"
proof (cases "addNewTarget (canvasSize a) (difficulty a) now (Some Easy) (fresh_gameRef, rnd a)")
  case None
  then show ?thesis by (simp add: initializeGame_def)
next
  case (Some p)
  obtain g1 r1 where p: "p = (g1, r1)" by (cases p)
  note a1 = Some [unfolded p]
  from a1 have len: "length (targets g1) = 1"
    by (auto dest: addNewTarget_length simp: fresh_gameRef_def)
  then obtain t where ts: "targets g1 = [t]" by (cases "targets g1") simp_all
  from addNewTarget_last_radius [OF a1] ts have rad: "t_radius t = 190"
    by (simp add: currentDifficulty_def)
  from addNewTarget_last_x [OF a1 assms(3,1)] ts rad
  have "190 \<le> t_x t" "t_x t \<le> width (canvasSize a) - 190" by simp_all
  with assms(2) have "width (canvasSize a) - 650 < t_x t" "t_x t < 650" by simp_all
  with assms(1) rad have "dead_canvas Easy (CANVAS_WIDTH (canvasSize a)) (targets g1)"
    unfolding ts by (intro narrow_canvas_dead) (simp_all add: pg_defs)
  moreover from a1 assms(3) have "rng_ok r1" by (rule addNewTarget_rng_ok)
  ultimately have "addNewTarget (canvasSize a) (difficulty a) now (Some Easy) (g1, r1) = None"
    by (intro addNewTarget_hangs) (simp_all add: currentDifficulty_def)
  with a1 show ?thesis by (simp add: initializeGame_def)
qed

text \<open>
  Which callbacks can change the screen: a click, a move of the pointer and a change of
  the size of the screen never do.
\<close>

lemma gameLoop_deps:
  "difficulty (gameLoop now a) = difficulty a"
  "gameState (gameLoop now a) = (if timeLeft (current (gameLoop now a)) > 0 then gameState a else End)"
  by (simp_all add: gameLoop_def Let_def)

lemma gameLoop_score [simp]: "score (current (gameLoop now a)) = score (current a)"
  by (simp add: gameLoop_def Let_def advance_frame_frame)

lemma make_stats_gameLoop [simp]:
  "make_stats d (current (gameLoop now a)) = make_stats d (current a)"
  by (simp add: make_stats_def gameLoop_def Let_def advance_frame_frame)

lemma gameLoop_startTime [simp]: "startTime (gameLoop now a) = startTime a"
  by (simp add: gameLoop_def Let_def)

lemma gameLoop_timeLeft: "timeLeft (current (gameLoop now a)) = remaining (startTime a) now"
  by (simp add: gameLoop_def Let_def advance_frame_fields)

lemma gameLoop_current:
  "current (gameLoop now a) =
     advance_frame (loopCanvas a) (difficulty a) (startTime a) now (current a)"
  by (simp add: gameLoop_def Let_def)

lemma gameLoop_loopCanvas [simp]: "loopCanvas (gameLoop now a) = loopCanvas a"
  by (simp add: gameLoop_def Let_def)

lemma initializeGame_deps:
  "initializeGame d now a = Some a' \<Longrightarrow> gameState a' = Game \<and> difficulty a' = d"
  by (erule initializeGame_SomeE) simp

lemma click_deps:
  "click now x y a = Some a' \<Longrightarrow> gameState a' = gameState a \<and> difficulty a' = difficulty a"
  by (auto simp: click_def split: option.splits)

fun_cases handle_ResizeE: "handle now a (Resize w h) = Some a'"
  and handle_ClickE: "handle now a (Click x y) = Some a'"
  and handle_MouseMoveE: "handle now a (MouseMove x y) = Some a'"

lemma handle_keeps_screen:
  assumes "handle now a e = Some a'" and "gameState a' \<noteq> gameState a"
  shows "(\<exists>d. e = SelectDifficulty d) \<or> e = PlayAgain \<or> e = BackToMenu \<or> e = Frame"
proof (cases e)
  case (Resize w h)
  with assms show ?thesis by (auto elim!: handle_ResizeE simp: updateCanvasSize_def)
next
  case (Click x y)
  with assms show ?thesis by (auto elim!: handle_ClickE dest: click_deps split: if_splits)
next
  case (MouseMove x y)
  with assms show ?thesis by (auto elim!: handle_MouseMoveE split: if_splits)
qed simp_all

section \<open>A worked session\<close>

lemma demo_spawn1:
  "addNewTarget full_hd Easy 1000 (Some Easy) (fresh_gameRef, demo_rng) =
     Some (fresh_gameRef\<lparr> targets := [large_target 0 575 432 1000], nextTargetId := 1 \<rparr>,
           3/4 ## 1/4 ## sconst (7/8))"
  by (simp add: spawn_eval currentDifficulty_def)

lemma demo_spawn2:
  "addNewTarget full_hd Easy 1000 (Some Easy)
     (fresh_gameRef\<lparr> targets := [large_target 0 575 432 1000], nextTargetId := 1 \<rparr>,
      3/4 ## 1/4 ## sconst (7/8)) = Some (started_game, sconst (7/8))"
  by (simp add: spawn_eval currentDifficulty_def)

lemma demo_start:
  "run (initial_app demo_rng 0) [(0, Resize 1920 1080), (1000, SelectDifficulty Easy)] = Some started"
  by (simp add: step_def initial_app_def updateCanvasSize_def initializeGame_def start_loop_def
      demo_spawn1 demo_spawn2 del: One_nat_def)

lemma started_reachable: "reachable started"
proof -
  have "reachable (initial_app demo_rng 0)" by (rule reach_start) simp
  then show ?thesis by (rule run_reachable [OF _ _ demo_start]) simp
qed

lemma demo_timeout: "step 61000 started Frame = Some timed_out"
  by (simp add: step_def gameLoop_def advance_frame_def draw_def remaining_def make_stats_def
      move_target_def fresh_gameRef_def Let_def)

lemma timed_out_reachable: "reachable timed_out"
  using started_reachable _ demo_timeout by (rule reach_step) simp

lemma scenario_click:
  "handleCanvasClick full_hd Game Easy 2500 1345 432 (started_game, sconst (7/8)) =
     Some (hit_game, sconst (7/8))"
proof -
  let ?g = "fresh_gameRef\<lparr> targets := [large_target 0 575 432 1000], nextTargetId := 2,
       score := 100, totalHits := 1, perfectHits := 1, reactionTimes := [1500],
       feedback := [\<lparr> f_x = 1345, f_y = 432, f_text = ''PERFECT'', f_points = 100,
                       f_opacity = 1, f_isMiss = None \<rparr>] \<rparr>"
  have n: "\<not> 432 > NET_Y full_hd" by (simp add: pg_defs)
  have s: "find_hit (length (targets started_game)) 1345 432 (targets started_game) = Some 1"
    by (simp add: fresh_gameRef_def inside_iff_squares)
  have r: "register_hit 2500 1345 432 1 started_game = ?g"
    by (simp add: register_hit_def Let_def fresh_gameRef_def calculatePoints_def accuracy_def
        distance_to_def reactionTime_of_def hit_feedback_def)
  have a: "addNewTarget full_hd Easy 2500 None (?g, sconst (7/8)) = Some (hit_game, sconst (7/8))"
    by (simp add: spawn_eval currentDifficulty_def)
  from handleCanvasClick_hit [OF n s, of Easy 2500 "sconst (7/8)"] show ?thesis
    by (simp only: r a)
qed

lemma run_single [simp]: "run a [(now, e)] = step now a e"
  by (simp split: option.splits)

lemma scenario_hit: "step 2500 started (Click 1345 432) = Some after_perfect_hit"
  by (simp add: step_def click_def scenario_click del: One_nat_def)

lemma scenario_penalty: "step 3000 after_perfect_hit (Click 100 900) = Some after_penalty"
proof -
  have "100 * 9 > NET_Y full_hd" by (simp add: pg_defs)
  then show ?thesis
    by (simp add: step_def click_def handleCanvasClick_penalty fresh_gameRef_def
        del: One_nat_def)
qed

lemma scenario_timeout:
  "\<exists>a. step 61000 after_penalty Frame = Some a \<and> gameState a = End \<and>
       gameStats a = Some final_stats \<and> length (targets (current a)) = 2"
proof -
  let ?a = "gameLoop 61000 after_penalty"
  have "step 61000 after_penalty Frame = Some (?a\<lparr> clock := 61000 \<rparr>)"
    by (simp add: step_def)
  moreover have "gameState ?a = End"
    by (simp add: gameLoop_phase)
  moreover have "gameStats ?a = Some (make_stats Easy (current ?a))"
    using gameLoop_stats [of 61000 after_penalty] by simp
  moreover have "make_stats Easy (current ?a) = final_stats"
    by (simp add: make_stats_def gameLoop_def Let_def advance_frame_frame avgReactionTime_def
        fresh_gameRef_def)
  moreover have "length (targets (current ?a)) = 2"
    by (simp add: gameLoop_def Let_def advance_frame_target_count fresh_gameRef_def)
  ultimately show ?thesis by simp
qed

lemma after_perfect_hit_reachable: "reachable after_perfect_hit"
  using started_reachable _ scenario_hit by (rule reach_step) simp

section \<open>Properties of the session\<close>

text \<open>
  C8. Every state the component can reach satisfies the invariant of the session:
  the game variables satisfy theirs, the random source stays within \<open>[0, 1)\<close>, there
  are two live targets while a game is on, the identifiers handed out are the hits plus
  two, and on the end screen the statistics are those of the game variables and the time
  left is 0.
\<close>

theorem reachable_states_satisfy_session_inv:
  assumes "reachable a"
  shows "session_inv a"
  using assms by (rule reachable_inv)

theorem reachable_states_satisfy_session_inv_witness:
  "reachable started \<and> session_inv started"
  using reachable_states_satisfy_session_inv [OF started_reachable] started_reachable by simp

text \<open>
  While a game is on there are exactly two live targets, and the next identifier
  is the number of hits plus two.
\<close>

theorem two_live_targets_while_playing:
  assumes "reachable a" and "gameState a = Game"
  shows "length (targets (current a)) = 2 \<and>
         nextTargetId (current a) = totalHits (current a) + 2"
  using reachable_inv [OF assms(1)] assms(2) by (simp add: session_inv_def)

theorem two_live_targets_while_playing_witness:
  "reachable started \<and> gameState started = Game \<and> length (targets (current started)) = 2"
  using two_live_targets_while_playing [OF started_reachable] started_reachable by simp

text \<open>
  C19. A frame of a running game returns; it ends the session exactly when 60000
  milliseconds or more have passed since the loop started, and then it stores the
  statistics of the game variables and leaves the time left at 0. Before that the game
  stays on.
\<close>

theorem session_ends_exactly_at_timeout:
  assumes "gameState a = Game"
  shows "\<exists>a'. step now a Frame = Some a' \<and>
           gameState a' = (if 60000 \<le> now - startTime a then End else Game) \<and>
           (60000 \<le> now - startTime a \<longrightarrow>
              gameStats a' = Some (make_stats (difficulty a) (current a')) \<and>
              timeLeft (current a') = 0)"
  using assms gameLoop_phase [of now a] gameLoop_stats [of now a]
  by (auto simp: step_def gameLoop_def Let_def)

theorem session_ends_exactly_at_timeout_witness:
  "gameState started = Game \<and>
   (\<exists>a'. step 60999 started Frame = Some a' \<and> gameState a' = Game) \<and>
   (\<exists>a'. step 61000 started Frame = Some a' \<and> gameState a' = End)"
  using session_ends_exactly_at_timeout [of started 60999]
    session_ends_exactly_at_timeout [of started 61000]
  by auto

text \<open>
  Outside a running game a click, a pointer move and a frame change nothing but
  the clock.
\<close>

theorem idle_session_ignores_input:
  assumes "gameState a \<noteq> Game"
  shows "step now a (Click x y) = Some (a\<lparr> clock := now \<rparr>) \<and>
         step now a (MouseMove x y) = Some (a\<lparr> clock := now \<rparr>) \<and>
         step now a Frame = Some (a\<lparr> clock := now \<rparr>)"
  using assms by (simp add: step_ignored)

theorem idle_session_ignores_input_witness:
  "gameState timed_out = End \<and> step 62000 timed_out (Click 575 432) = Some (timed_out\<lparr> clock := 62000 \<rparr>)"
  using idle_session_ignores_input [of timed_out 62000 575 432] by simp

text \<open>
  On the end screen of a reachable state the statistics are present and
  consistent with the game variables: the final score is the score, it lies between 0
  and 100 per hit, there is one reaction time per hit, perfect hits do not exceed hits,
  the mode is the difficulty played, and the time left is 0.
\<close>

theorem end_screen_statistics:
  assumes "reachable a" and "gameState a = End"
  shows "\<exists>st. gameStats a = Some st \<and> finalScore st = score (current a) \<and>
           0 \<le> finalScore st \<and> finalScore st \<le> 100 * int (st_totalHits st) \<and>
           length (st_reactionTimes st) = st_totalHits st \<and>
           st_perfectHits st \<le> st_totalHits st \<and> mode st = difficulty a \<and>
           averageReactionTime st = avgReactionTime (reactionTimes (current a)) \<and>
           timeLeft (current a) = 0"
  using reachable_inv [OF assms(1)] assms(2)
  by (simp add: session_inv_def make_stats_def game_inv_def stats_inv_def)

theorem end_screen_statistics_witness:
  "reachable timed_out \<and> gameState timed_out = End \<and>
   (\<exists>st. gameStats timed_out = Some st \<and> finalScore st = 0 \<and> mode st = Easy)"
  using end_screen_statistics [OF timed_out_reachable] timed_out_reachable
  by (simp add: fresh_gameRef_def)

text \<open>
  C37. With a canvas at least 380 and less than 840 units wide, choosing the easy
  difficulty in the menu never returns, whatever the random numbers are: the first
  target leaves no position for the second, and the placement loop runs forever.
\<close>

theorem easy_start_hangs_below_840:
  assumes "gameState a = Menu" and "380 \<le> width (canvasSize a)"
    and "width (canvasSize a) < 840" and "rng_ok (rnd a)"
  shows "step now a (SelectDifficulty Easy) = None"
  using assms by (simp add: step_def initializeGame_hangs)

theorem easy_start_hangs_below_840_witness:
  "gameState small_screen = Menu \<and> rng_ok (rnd small_screen) \<and>
   step 1000 small_screen (SelectDifficulty Easy) = None"
  using easy_start_hangs_below_840 [of small_screen 1000] by (simp add: initial_app_def)

text \<open>
  Resizing, pointer moves, frames and the return to the menu always return; a
  click returns whenever it does not hit a target.
\<close>

theorem callbacks_without_spawn_return:
  "step now a (Resize w h) \<noteq> None \<and> step now a (MouseMove x y) \<noteq> None \<and>
   step now a Frame \<noteq> None \<and> step now a BackToMenu \<noteq> None \<and>
   (find_hit (length (targets (current a))) x y (targets (current a)) = None \<or>
    y > NET_Y (canvasSize a) \<longrightarrow> step now a (Click x y) \<noteq> None)"
  by (auto simp: step_def click_def handleCanvasClick_def Let_def split: prod.splits)

theorem callbacks_without_spawn_return_witness:
  "step 2000 started (Click 5 5) \<noteq> None"
  using callbacks_without_spawn_return [of 2000 started _ _ 5 5]
  by (simp add: fresh_gameRef_def inside_iff_squares)

text \<open>
  The reachable states are exactly the results of the runs that start in the
  initial state with random numbers in \<open>[0, 1)\<close> and whose clock readings do not
  decrease.
\<close>

theorem reachable_iff_run:
  "reachable a \<longleftrightarrow>
   (\<exists>r t0 es. rng_ok r \<and> in_time t0 es \<and> run (initial_app r t0) es = Some a)"
proof
  assume "reachable a"
  then show "\<exists>r t0 es. rng_ok r \<and> in_time t0 es \<and> run (initial_app r t0) es = Some a"
    by (rule reachable_run)
next
  assume "\<exists>r t0 es. rng_ok r \<and> in_time t0 es \<and> run (initial_app r t0) es = Some a"
  then obtain r t0 es where "rng_ok r" "in_time t0 es" "run (initial_app r t0) es = Some a"
    by blast
  then show "reachable a"
    by (intro run_reachable [of "initial_app r t0" es a] reach_start) simp_all
qed

theorem reachable_iff_run_witness:
  "reachable started"
  using reachable_iff_run [of started] demo_start
  by (intro iffD2 [OF reachable_iff_run] exI [of _ demo_rng] exI [of _ 0]
      exI [of _ "[(0, Resize 1920 1080), (1000, SelectDifficulty Easy)]"]) simp

end
