(* ===== verification/Session_Spec.thy ===== *)
theory Session_Spec
  imports Session
begin

text \<open>
  What a player can observe of a session, as an abstract machine: the screen, the score,
  the two hit counters and the difficulty. Its transitions are the ones the
  specification allows (section 4.5 for the screens, section 4.3 for the score). The
  component of theory \<open>Session\<close> refines this machine: every callback that returns
  either leaves the observation as it is or makes one of these transitions. Facts proved
  once about the machine then hold in every reachable state of the component.
\<close>

section \<open>The abstract machine\<close>

record board =
  b_phase :: GameState
  b_score :: int
  b_hits :: nat
  b_perfect :: nat
  b_mode :: Difficulty

definition new_board :: "Difficulty \<Rightarrow> board" where
  "new_board d = \<lparr> b_phase = Game, b_score = 0, b_hits = 0, b_perfect = 0, b_mode = d \<rparr>"

definition initial_board :: board where
  "initial_board = \<lparr> b_phase = Menu, b_score = 0, b_hits = 0, b_perfect = 0, b_mode = Easy \<rparr>"

inductive astep :: "board \<Rightarrow> board \<Rightarrow> bool" where
  start: "b_phase b = Menu \<Longrightarrow> astep b (new_board d)"
| again: "b_phase b = End \<Longrightarrow> astep b (new_board (b_mode b))"
| perfect: "b_phase b = Game \<Longrightarrow>
     astep b (b\<lparr> b_score := b_score b + 100, b_hits := b_hits b + 1,
                  b_perfect := b_perfect b + 1 \<rparr>)"
| graded: "b_phase b = Game \<Longrightarrow> 0 \<le> p \<Longrightarrow> p \<le> 95 \<Longrightarrow>
     astep b (b\<lparr> b_score := b_score b + p, b_hits := b_hits b + 1 \<rparr>)"
| penalty: "b_phase b = Game \<Longrightarrow> astep b (b\<lparr> b_score := max 0 (b_score b - 10) \<rparr>)"
| timeout: "b_phase b = Game \<Longrightarrow> astep b (b\<lparr> b_phase := End \<rparr>)"
| to_menu: "b_phase b = End \<Longrightarrow> astep b (b\<lparr> b_phase := Menu \<rparr>)"

code_pred astep .

inductive areach :: "board \<Rightarrow> bool" where
  areach_init: "areach initial_board"
| areach_step: "areach b \<Longrightarrow> astep b b' \<Longrightarrow> areach b'"

definition board_ok :: "board \<Rightarrow> bool" where
  "board_ok b \<longleftrightarrow>
     0 \<le> b_score b \<and> b_perfect b \<le> b_hits b \<and>
     b_score b \<le> 100 * int (b_perfect b) + 95 * int (b_hits b - b_perfect b)"

definition phase_order :: "(GameState \<times> GameState) set" where
  "phase_order = {(Menu, Game), (Game, Game), (Game, End), (End, Game), (End, Menu)}"

section \<open>The observation of a state of the component\<close>

definition observe :: "app \<Rightarrow> board" where
  "observe a =
     \<lparr> b_phase = gameState a, b_score = score (current a), b_hits = totalHits (current a),
       b_perfect = perfectHits (current a), b_mode = difficulty a \<rparr>"

section \<open>Facts about the abstract machine\<close>

lemma astep_board_ok: "astep b b' \<Longrightarrow> board_ok b \<Longrightarrow> board_ok b'"
  by (induction rule: astep.induct) (auto simp: board_ok_def new_board_def)

lemma areach_board_ok: "areach b \<Longrightarrow> board_ok b"
proof (induction rule: areach.induct)
  case areach_init
  show ?case by (simp add: board_ok_def initial_board_def)
next
  case (areach_step b b')
  then show ?case by (simp add: astep_board_ok)
qed

lemma astep_phase: "astep b b' \<Longrightarrow> (b_phase b, b_phase b') \<in> phase_order"
  by (induction rule: astep.induct) (auto simp: phase_order_def new_board_def)

lemma astep_from_Menu:
  "astep b b' \<Longrightarrow> b_phase b = Menu \<Longrightarrow> \<exists>d. b' = new_board d"
  by (induction rule: astep.induct) auto

section \<open>Every callback is a transition of the machine or changes nothing\<close>

lemma observe_simps [simp]:
  "observe (a\<lparr> clock := now \<rparr>) = observe a"
  "observe (start_loop now a) = observe a"
  "observe (updateCanvasSize w h a) = observe a"
  by (simp_all add: observe_def start_loop_def updateCanvasSize_def)

lemma initializeGame_observe:
  assumes "initializeGame sd now a = Some a'"
  shows "observe a' = new_board sd"
proof -
  from assms obtain g1 r1 g2 r2 where
    a1: "addNewTarget (canvasSize a) (difficulty a) now (Some sd) (fresh_gameRef, rnd a) = Some (g1, r1)" and
    a2: "addNewTarget (canvasSize a) (difficulty a) now (Some sd) (g1, r1) = Some (g2, r2)" and
    a': "a' = a\<lparr> difficulty := sd, current := g2, rnd := r2, gameState := Game \<rparr>"
    by (rule initializeGame_SomeE)
  note c1 = addNewTarget_counters [OF a1] and c2 = addNewTarget_counters [OF a2]
  from a' c1(1-3) c2(1-3) show ?thesis
    by (simp add: observe_def new_board_def fresh_gameRef_def)
qed

lemma restart_observe:
  assumes "map_option (start_loop now) (initializeGame sd now a) = Some a'"
  shows "observe a' = new_board sd"
proof -
  from assms obtain a1 where "initializeGame sd now a = Some a1" "a' = start_loop now a1"
    by (cases "initializeGame sd now a") simp_all
  then show ?thesis by (simp add: initializeGame_observe)
qed

lemma hit_astep:
  assumes "target_wf t" and "inside cx cy t"
  shows "astep \<lparr> b_phase = Game, b_score = s, b_hits = h, b_perfect = q, b_mode = m \<rparr>
     \<lparr> b_phase = Game,
       b_score = s + fst (calculatePoints (distance_to cx cy t) (t_radius t)),
       b_hits = Suc h,
       b_perfect = (if snd (calculatePoints (distance_to cx cy t) (t_radius t)) = ''PERFECT''
                    then Suc q else q),
       b_mode = m \<rparr>"
proof (cases "accuracy (distance_to cx cy t) (t_radius t) > 0.95")
  case True
  then have "calculatePoints (distance_to cx cy t) (t_radius t) = (100, ''PERFECT'')"
    by (rule calculatePoints_perfect)
  with astep.perfect [of "\<lparr> b_phase = Game, b_score = s, b_hits = h, b_perfect = q, b_mode = m \<rparr>"]
  show ?thesis by simp
next
  case False
  let ?p = "fst (calculatePoints (distance_to cx cy t) (t_radius t))"
  from assms have "0 \<le> ?p" using hit_points_range by blast
  moreover from False have "?p \<le> 95" by (rule graded_points_le_95)
  moreover from False have "snd (calculatePoints (distance_to cx cy t) (t_radius t)) \<noteq> ''PERFECT''"
    by (simp add: perfect_label_iff)
  ultimately show ?thesis
    using astep.graded [of "\<lparr> b_phase = Game, b_score = s, b_hits = h, b_perfect = q, b_mode = m \<rparr>" ?p]
    by simp
qed

lemma click_observe:
  assumes "click now x y a = Some a'" and "session_inv a" and "gameState a = Game"
  shows "observe a' = observe a \<or> astep (observe a) (observe a')"
proof -
  from assms(1) obtain g r where
    h: "handleCanvasClick (canvasSize a) (gameState a) (difficulty a) now x y (current a, rnd a)
          = Some (g, r)" and a': "a' = a\<lparr> current := g, rnd := r \<rparr>"
    by (rule click_SomeE)
  from h show ?thesis
  proof (cases rule: click_cases)
    case inactive
    with a' show ?thesis by (simp add: observe_def)
  next
    case penalty
    from astep.penalty [of "observe a"] assms(3) penalty(4) a' show ?thesis
      by (simp add: observe_def)
  next
    case miss
    with a' show ?thesis by (simp add: observe_def)
  next
    case (hit i)
    let ?t = "targets (current a) ! i"
    from hit(3) have i: "i < length (targets (current a))" "inside x y ?t"
      by (auto dest: find_hit_SomeD)
    from assms(2) i(1) have "target_wf ?t"
      by (simp add: session_inv_def game_inv_defs list_all_length)
    from hit_astep [OF this i(2), of "score (current a)" "totalHits (current a)"
        "perfectHits (current a)" "difficulty a"] assms(3) addNewTarget_counters(1-3) [OF hit(4)] a'
    show ?thesis by (auto simp: observe_def split: if_splits)
  qed
qed

lemma gameLoop_observe:
  assumes "gameState a = Game"
  shows "observe (gameLoop now a) = observe a \<or> astep (observe a) (observe (gameLoop now a))"
proof (cases "60000 \<le> now - startTime a")
  case True
  have "observe (gameLoop now a) = (observe a)\<lparr> b_phase := End \<rparr>"
    using gameLoop_phase [of now a] True
    by (simp add: observe_def gameLoop_def Let_def advance_frame_frame)
  with astep.timeout [of "observe a"] assms show ?thesis by (simp add: observe_def)
next
  case False
  have "observe (gameLoop now a) = observe a"
    using gameLoop_phase [of now a] False
    by (simp add: observe_def gameLoop_def Let_def advance_frame_frame)
  then show ?thesis by simp
qed

lemma start_observe:
  assumes "handle now a (SelectDifficulty d) = Some a'"
  shows "observe a' = observe a \<or> astep (observe a) (observe a')"
proof (cases "gameState a = Menu")
  case True
  with assms have "observe a' = new_board d" by (simp add: restart_observe)
  with astep.start [of "observe a" d] True show ?thesis by (simp add: observe_def)
next
  case False
  with assms show ?thesis by simp
qed

lemma again_observe:
  assumes "handle now a PlayAgain = Some a'" and "session_inv a"
  shows "observe a' = observe a \<or> astep (observe a) (observe a')"
proof (cases "gameState a = End")
  case True
  with assms(2) have "gameStats a = Some (make_stats (difficulty a) (current a))"
    by (simp add: session_inv_def)
  with assms(1) True have "observe a' = new_board (difficulty a)"
    by (simp add: restart_observe make_stats_def)
  with astep.again [of "observe a"] True show ?thesis by (simp add: observe_def)
next
  case False
  with assms show ?thesis by simp
qed

lemma back_observe:
  assumes "handle now a BackToMenu = Some a'"
  shows "observe a' = observe a \<or> astep (observe a) (observe a')"
proof (cases "gameState a = End \<and> gameStats a \<noteq> None")
  case True
  with assms have "observe a' = (observe a)\<lparr> b_phase := Menu \<rparr>" by (auto simp: observe_def)
  with astep.to_menu [of "observe a"] True show ?thesis by (simp add: observe_def)
next
  case False
  with assms show ?thesis by auto
qed

lemma frame_observe:
  assumes "handle now a Frame = Some a'"
  shows "observe a' = observe a \<or> astep (observe a) (observe a')"
proof (cases "gameState a = Game")
  case True
  with assms have "a' = gameLoop now a" by simp
  with gameLoop_observe [OF True, of now] show ?thesis by simp
next
  case False
  with assms show ?thesis by simp
qed

lemma handle_observe:
  assumes "handle now a e = Some a'" and "session_inv a"
  shows "observe a' = observe a \<or> astep (observe a) (observe a')"
proof (cases e)
  case (Resize w h)
  with assms show ?thesis by auto
next
  case (Click x y)
  with assms show ?thesis by (cases "gameState a = Game") (simp_all add: click_observe)
next
  case (MouseMove x y)
  with assms show ?thesis
    by (cases "gameState a = Game") (auto simp: observe_def handleMouseMove_def)
next
  case (SelectDifficulty d)
  from assms(1) show ?thesis unfolding SelectDifficulty by (rule start_observe)
next
  case PlayAgain
  from assms show ?thesis unfolding PlayAgain by (rule again_observe)
next
  case BackToMenu
  from assms(1) show ?thesis unfolding BackToMenu by (rule back_observe)
next
  case Frame
  from assms(1) show ?thesis unfolding Frame by (rule frame_observe)
qed

lemma step_observe:
  assumes "step now a e = Some a'" and "session_inv a"
  shows "observe a' = observe a \<or> astep (observe a) (observe a')"
proof -
  from assms(1) obtain a1 where "handle now a e = Some a1" "a' = a1\<lparr> clock := now \<rparr>"
    by (auto simp: step_def)
  with handle_observe [OF _ assms(2)] show ?thesis by simp
qed

lemma reachable_areach: "reachable a \<Longrightarrow> areach (observe a)"
proof (induction rule: reachable.induct)
  case (reach_start r t0)
  have "observe (initial_app r t0) = initial_board"
    by (simp add: observe_def initial_app_def initial_board_def fresh_gameRef_def)
  then show ?case by (simp add: areach_init)
next
  case (reach_step a now e a')
  from reach_step.hyps(1) have "session_inv a" by (rule reachable_inv)
  with reach_step.hyps(3) have "observe a' = observe a \<or> astep (observe a) (observe a')"
    by (rule step_observe)
  with reach_step.IH show ?case by (auto intro: areach_step)
qed

section \<open>Properties of the refinement\<close>

text \<open>
  C12. The component refines the abstract machine: a callback that returns in a
  reachable state either leaves the screen, the score, the hit counters and the
  difficulty as they are, or changes them by one transition of the machine.
\<close>

theorem callbacks_refine_scoreboard:
  assumes "reachable a" and "step now a e = Some a'"
  shows "observe a' = observe a \<or> astep (observe a) (observe a')"
  using assms(2) reachable_inv [OF assms(1)] by (rule step_observe)

theorem callbacks_refine_scoreboard_witness:
  "reachable started \<and> step 2500 started (Click 1345 432) = Some after_perfect_hit \<and>
   astep (observe started) (observe after_perfect_hit)"
  using callbacks_refine_scoreboard [OF started_reachable scenario_hit] started_reachable
    scenario_hit
  by (simp add: observe_def fresh_gameRef_def)

text \<open>
  C27. In every reachable state the score is not negative and is at most 100 for each
  perfect hit plus 95 for each other hit, and perfect hits do not exceed hits.
\<close>

theorem score_bounded_by_hit_quality:
  assumes "reachable a"
  shows "0 \<le> score (current a) \<and> perfectHits (current a) \<le> totalHits (current a) \<and>
         score (current a) \<le> 100 * int (perfectHits (current a)) +
           95 * int (totalHits (current a) - perfectHits (current a))"
proof -
  from assms have "areach (observe a)" by (rule reachable_areach)
  then have "board_ok (observe a)" by (rule areach_board_ok)
  then show ?thesis unfolding board_ok_def observe_def by (simp only: board.simps)
qed

theorem score_bounded_by_hit_quality_witness:
  "reachable after_perfect_hit \<and> score (current after_perfect_hit) = 100 \<and>
   perfectHits (current after_perfect_hit) = 1 \<and> totalHits (current after_perfect_hit) = 1"
  using score_bounded_by_hit_quality [OF after_perfect_hit_reachable] after_perfect_hit_reachable
  by (simp add: fresh_gameRef_def)

text \<open>
  The screens follow the order of the specification: a callback that returns in
  a reachable state keeps the screen or goes from the menu to the game, from the game
  to the end screen, or from the end screen to the game or to the menu.
\<close>

theorem screens_follow_phase_order:
  assumes "reachable a" and "step now a e = Some a'"
  shows "gameState a' = gameState a \<or>
         (gameState a, gameState a') \<in> {(Menu, Game), (Game, End), (End, Game), (End, Menu)}"
proof -
  from assms(2) reachable_inv [OF assms(1)]
  have "observe a' = observe a \<or> astep (observe a) (observe a')" by (rule step_observe)
  then show ?thesis
  proof
    assume "observe a' = observe a"
    then have "b_phase (observe a') = b_phase (observe a)" by simp
    then show ?thesis by (simp add: observe_def)
  next
    assume "astep (observe a) (observe a')"
    then have "(b_phase (observe a), b_phase (observe a')) \<in> phase_order" by (rule astep_phase)
    then show ?thesis by (auto simp: observe_def phase_order_def)
  qed
qed

theorem screens_follow_phase_order_witness:
  "reachable started \<and> step 61000 started Frame = Some timed_out \<and>
   gameState started = Game \<and> gameState timed_out = End"
  using screens_follow_phase_order [OF started_reachable demo_timeout] started_reachable
    demo_timeout
  by simp

end
