(* ===== verification/Hud_Format.thy ===== *)
theory Hud_Format
  imports Scoring
begin

text \<open>
  The numbers and names the component shows: the heads-up display of \<^verbatim>\<open>renderGame\<close>
  (lines 635-659 of \<^verbatim>\<open>src/app/page.tsx\<close>) and the result card of \<^verbatim>\<open>renderEnd\<close> (lines
  676-709). Only the texts computed from the state are here; the markup around them
  is in theory \<open>Screens\<close>. \<open>padStart\<close>, \<open>Math_round\<close>, \<open>js_rem\<close> and \<open>toFixed2\<close> stand for the
  JavaScript operations \<^verbatim>\<open>String.prototype.padStart\<close> with a one-character filler,
  \<^verbatim>\<open>Math.round\<close>, the remainder operator \<^verbatim>\<open>%\<close> and \<^verbatim>\<open>toFixed(2)\<close>, on real numbers.
\<close>

section \<open>JavaScript operations\<close>

definition padStart :: "nat \<Rightarrow> char \<Rightarrow> string \<Rightarrow> string" where
  "padStart n c s = replicate (n - length s) c @ s"

definition Math_round :: "real \<Rightarrow> int" where
  "Math_round x = \<lfloor>x + 1/2\<rfloor>"

definition js_trunc :: "real \<Rightarrow> int" where
  "js_trunc x = (if 0 \<le> x then \<lfloor>x\<rfloor> else \<lceil>x\<rceil>)"

definition js_rem :: "real \<Rightarrow> real \<Rightarrow> real" where
  "js_rem x y = x - y * real_of_int (js_trunc (x / y))"

definition toFixed2 :: "real \<Rightarrow> string" where
  "toFixed2 x =
     (let n = nat \<lfloor>\<bar>x\<bar> * 100 + 1/2\<rfloor>;
          digits = show_nat (n div 100) @ ''.'' @ padStart 2 CHR ''0'' (show_nat (n mod 100))
      in if x < 0 then CHR ''-'' # digits else digits)"

section \<open>The heads-up display\<close>

definition hud_mode :: "Difficulty \<Rightarrow> string" where
  "hud_mode d = (if d = Easy then ''EASY'' else if d = Intermediate then ''INTER'' else ''HARD'')"

definition hud_time :: "real \<Rightarrow> string" where
  "hud_time secs =
     padStart 2 CHR ''0'' (show_int \<lfloor>secs / 60\<rfloor>) @ '':'' @
     padStart 2 CHR ''0'' (show_int \<lfloor>js_rem secs 60\<rfloor>)"

definition hud_score :: "int \<Rightarrow> string" where
  "hud_score s = padStart 5 CHR ''0'' (show_int s)"

section \<open>The result card\<close>

definition end_mode :: "GameStats \<Rightarrow> string" where
  "end_mode st =
     (if mode st = Easy then ''Easy'' else if mode st = Intermediate then ''Intermediate''
      else ''Hard'')"

definition end_score :: "GameStats \<Rightarrow> string" where
  "end_score st = padStart 5 CHR ''0'' (show_int (finalScore st))"

definition accuracy_percent :: "GameStats \<Rightarrow> int" where
  "accuracy_percent st =
     (if st_totalHits st > 0
      then Math_round (real (st_perfectHits st) / real (st_totalHits st) * 100) else 0)"

definition end_reaction :: "GameStats \<Rightarrow> string" where
  "end_reaction st = toFixed2 (averageReactionTime st / 1000)"

section \<open>Padding and decimal notation\<close>

lemma length_padStart [simp]: "length (padStart n c s) = max n (length s)"
  by (simp add: padStart_def)

lemma padStart_long: "n \<le> length s \<Longrightarrow> padStart n c s = s"
  by (simp add: padStart_def)

lemma read_nat_append: "read_nat (s @ t) = foldl (\<lambda>acc c. 10 * acc + digit_value c) (read_nat s) t"
  by (simp add: read_nat_def)

lemma read_nat_zeros [simp]: "read_nat (replicate k CHR ''0'') = 0"
proof (induction k)
  case 0
  show ?case by (simp add: read_nat_def)
next
  case (Suc k)
  have "replicate (Suc k) CHR ''0'' = replicate k CHR ''0'' @ [CHR ''0'']"
    by (simp add: replicate_append_same)
  with Suc show ?case by (simp only: read_nat_snoc) (simp add: digit_value_def)
qed

lemma read_nat_padStart [simp]: "read_nat (padStart n CHR ''0'' s) = read_nat s"
  by (simp add: padStart_def read_nat_append) (simp add: read_nat_def)

lemma length_show_nat: "0 < k \<Longrightarrow> n < 10 ^ k \<Longrightarrow> length (show_nat n) \<le> k"
proof (induction n arbitrary: k rule: show_nat.induct)
  case (1 n)
  show ?case
  proof (cases "n < 10")
    case True
    with "1.prems" show ?thesis by (simp add: show_nat_small Suc_leI)
  next
    case False
    with "1.prems" obtain j where k: "k = Suc j" "0 < j"
      by (cases k; cases "k - 1") auto
    with "1.prems" have "n div 10 < 10 ^ j" by (simp add: less_mult_imp_div_less mult.commute)
    with "1.IH" [of j] False k have "length (show_nat (n div 10)) \<le> j" by simp
    with False k show ?thesis by (simp add: show_nat_large)
  qed
qed

lemma length_show_nat_pos: "0 < length (show_nat n)"
  using show_nat_nonempty [of n] by simp

section \<open>Time, score and accuracy\<close>

lemma js_rem_nonneg: "0 \<le> x \<Longrightarrow> js_rem x 60 = x - 60 * real_of_int (\<lfloor>x\<rfloor> div 60)"
proof -
  assume "0 \<le> x"
  moreover have "\<lfloor>x / 60\<rfloor> = \<lfloor>x\<rfloor> div 60"
    using floor_divide_real_eq_div [of 60 x] by simp
  ultimately show ?thesis by (simp add: js_rem_def js_trunc_def)
qed

lemma floor_js_rem: "0 \<le> x \<Longrightarrow> \<lfloor>js_rem x 60\<rfloor> = \<lfloor>x\<rfloor> mod 60"
proof -
  assume x: "0 \<le> x"
  have "\<lfloor>x - real_of_int (60 * (\<lfloor>x\<rfloor> div 60))\<rfloor> = \<lfloor>x\<rfloor> - 60 * (\<lfloor>x\<rfloor> div 60)"
    by (rule floor_diff_of_int)
  also have "\<dots> = \<lfloor>x\<rfloor> mod 60" by (simp add: minus_mult_div_eq_mod)
  finally show ?thesis using x by (simp add: js_rem_nonneg)
qed

lemma floor_minutes: "\<lfloor>x / 60\<rfloor> = \<lfloor>x\<rfloor> div 60" for x :: real
  using floor_divide_real_eq_div [of 60 x] by simp

lemma hud_time_parts:
  assumes "0 \<le> secs" and "secs < 6000"
  shows "hud_time secs = padStart 2 CHR ''0'' (show_nat (nat \<lfloor>secs\<rfloor> div 60)) @ '':'' @
           padStart 2 CHR ''0'' (show_nat (nat \<lfloor>secs\<rfloor> mod 60))"
    and "length (hud_time secs) = 5"
proof -
  from assms(1) have f: "0 \<le> \<lfloor>secs\<rfloor>" by simp
  then have m: "nat (\<lfloor>secs\<rfloor> div 60) = nat \<lfloor>secs\<rfloor> div 60" "nat (\<lfloor>secs\<rfloor> mod 60) = nat \<lfloor>secs\<rfloor> mod 60"
    by (simp_all add: nat_div_distrib nat_mod_distrib)
  from f have "0 \<le> \<lfloor>secs\<rfloor> div 60" "0 \<le> \<lfloor>secs\<rfloor> mod 60" by (simp_all add: pos_imp_zdiv_nonneg_iff)
  with assms(1) m show eq: "hud_time secs = padStart 2 CHR ''0'' (show_nat (nat \<lfloor>secs\<rfloor> div 60)) @ '':'' @
           padStart 2 CHR ''0'' (show_nat (nat \<lfloor>secs\<rfloor> mod 60))"
    by (simp add: hud_time_def floor_minutes floor_js_rem show_int_nonneg)
  from assms have "nat \<lfloor>secs\<rfloor> < 6000" by (simp add: nat_less_iff floor_less_iff)
  then have "nat \<lfloor>secs\<rfloor> div 60 < 10 ^ 2" by simp
  then have "length (show_nat (nat \<lfloor>secs\<rfloor> div 60)) \<le> 2" by (intro length_show_nat) simp_all
  moreover have "nat \<lfloor>secs\<rfloor> mod 60 < 10 ^ 2" by (simp add: less_trans [OF mod_less_divisor])
  then have "length (show_nat (nat \<lfloor>secs\<rfloor> mod 60)) \<le> 2" by (intro length_show_nat) simp_all
  ultimately show "length (hud_time secs) = 5" by (simp add: eq max_def)
qed

lemma hud_score_length: "0 \<le> s \<Longrightarrow> s < 100000 \<Longrightarrow> length (hud_score s) = 5"
proof -
  assume "0 \<le> s" "s < 100000"
  then have "nat s < 10 ^ 5" by simp
  then have "length (show_nat (nat s)) \<le> 5" by (intro length_show_nat) simp_all
  with \<open>0 \<le> s\<close> show ?thesis by (simp add: hud_score_def show_int_nonneg max_def)
qed

lemma hud_score_read: "0 \<le> s \<Longrightarrow> int (read_nat (hud_score s)) = s"
  by (simp add: hud_score_def show_int_nonneg read_show_nat)

lemma Math_round_range: "0 \<le> x \<Longrightarrow> x \<le> 100 \<Longrightarrow> 0 \<le> Math_round x \<and> Math_round x \<le> 100"
  by (simp add: Math_round_def floor_le_iff le_floor_iff)

lemma accuracy_percent_bounds:
  assumes "st_perfectHits st \<le> st_totalHits st"
  shows "0 \<le> accuracy_percent st \<and> accuracy_percent st \<le> 100"
proof (cases "st_totalHits st > 0")
  case True
  with assms have "real (st_perfectHits st) / real (st_totalHits st) * 100 \<le> 100"
    by (simp add: field_simps)
  moreover have "0 \<le> real (st_perfectHits st) / real (st_totalHits st) * 100" by simp
  ultimately show ?thesis using True Math_round_range by (simp add: accuracy_percent_def)
next
  case False
  then show ?thesis by (simp add: accuracy_percent_def)
qed

lemma accuracy_percent_all_perfect:
  "0 < st_totalHits st \<Longrightarrow> st_perfectHits st = st_totalHits st \<Longrightarrow> accuracy_percent st = 100"
  by (simp add: accuracy_percent_def Math_round_def)

lemma hud_time_split:
  assumes "0 \<le> secs" and "secs < 6000"
  shows "take 2 (hud_time secs) = padStart 2 CHR ''0'' (show_nat (nat \<lfloor>secs\<rfloor> div 60))"
    and "hud_time secs ! 2 = CHR '':''"
    and "drop 3 (hud_time secs) = padStart 2 CHR ''0'' (show_nat (nat \<lfloor>secs\<rfloor> mod 60))"
proof -
  let ?m = "padStart 2 CHR ''0'' (show_nat (nat \<lfloor>secs\<rfloor> div 60))"
  let ?s = "padStart 2 CHR ''0'' (show_nat (nat \<lfloor>secs\<rfloor> mod 60))"
  note eq = hud_time_parts(1) [OF assms]
  from hud_time_parts(2) [OF assms] length_show_nat_pos [of "nat \<lfloor>secs\<rfloor> mod 60"]
  have m: "length ?m = 2" unfolding eq by (simp add: max_def split: if_splits)
  then show "take 2 (hud_time secs) = ?m" by (simp add: eq)
  from m show "hud_time secs ! 2 = CHR '':''" by (simp add: eq nth_append)
  from m show "drop 3 (hud_time secs) = ?s" by (simp add: eq)
qed

lemma toFixed2_error:
  assumes "0 \<le> x"
  shows "\<bar>real (nat \<lfloor>x * 100 + 1/2\<rfloor>) / 100 - x\<bar> \<le> 1/200"
proof -
  define n where "n = \<lfloor>x * 100 + 1/2\<rfloor>"
  have b: "real_of_int n \<le> x * 100 + 1/2" "x * 100 + 1/2 < real_of_int n + 1"
    unfolding n_def by linarith+
  from assms have "0 \<le> n" unfolding n_def by simp
  then have "real (nat n) = real_of_int n" by simp
  with b have "\<bar>real (nat n) / 100 - x\<bar> \<le> 1/200" by linarith
  then show ?thesis unfolding n_def .
qed

lemma replicate_numeral: "replicate (numeral k) x = x # replicate (pred_numeral k) x"
  by (simp add: numeral_eq_Suc)

lemmas hud_eval = hud_time_def hud_score_def padStart_def js_rem_def js_trunc_def show_int_def
  show_nat.simps digit_char_def read_nat_def digit_value_def

section \<open>Properties of the displayed texts\<close>

text \<open>
  C39. For a time left between 0 and 60 seconds the clock of the display has five
  characters, two digits of minutes, a colon and two digits of seconds, and reads back
  as the whole seconds left.
\<close>

theorem hud_time_reads_back:
  assumes "0 \<le> secs" and "secs \<le> 60"
  shows "length (hud_time secs) = 5 \<and> hud_time secs ! 2 = CHR '':'' \<and>
         60 * read_nat (take 2 (hud_time secs)) + read_nat (drop 3 (hud_time secs))
           = nat \<lfloor>secs\<rfloor>"
proof -
  from assms have b: "0 \<le> secs" "secs < 6000" by simp_all
  from hud_time_parts(2) [OF b] hud_time_split [OF b] show ?thesis
    by (simp add: read_show_nat)
qed

theorem hud_time_reads_back_witness:
  "hud_time 60 = ''01:00'' \<and> hud_time 59.5 = ''00:59'' \<and> hud_time 0 = ''00:00''"
proof -
  have "\<lfloor>59.5 :: real\<rfloor> = 59" "\<lfloor>(59.5 :: real) / 60\<rfloor> = 0" by linarith+
  with hud_time_reads_back [of 60] show ?thesis by (simp add: hud_eval)
qed

text \<open>
  The score of the display reads back as the score; it has five digits as long as
  the score is below 100000.
\<close>

theorem hud_score_reads_back:
  assumes "0 \<le> s"
  shows "int (read_nat (hud_score s)) = s \<and> (s < 100000 \<longrightarrow> length (hud_score s) = 5)"
  using assms by (simp add: hud_score_read hud_score_length)

theorem hud_score_reads_back_witness:
  "hud_score 90 = ''00090'' \<and> read_nat ''00090'' = 90"
  using hud_score_reads_back [of 90] by (simp add: hud_eval numeral_3_eq_3)

text \<open>
  The accuracy shown on the result card lies between 0 and 100 percent whenever
  perfect hits do not exceed hits; it is 0 without a hit and 100 when every hit was
  perfect.
\<close>

theorem accuracy_percent_range:
  assumes "st_perfectHits st \<le> st_totalHits st"
  shows "0 \<le> accuracy_percent st \<and> accuracy_percent st \<le> 100 \<and>
         (st_totalHits st = 0 \<longrightarrow> accuracy_percent st = 0) \<and>
         (0 < st_totalHits st \<and> st_perfectHits st = st_totalHits st \<longrightarrow> accuracy_percent st = 100)"
  using accuracy_percent_bounds [OF assms] accuracy_percent_all_perfect [of st]
  by (simp add: accuracy_percent_def)

theorem accuracy_percent_range_witness:
  "accuracy_percent \<lparr> finalScore = 190, st_perfectHits = 1, st_totalHits = 3,
     st_reactionTimes = [900, 700, 800], averageReactionTime = 800, mode = Hard \<rparr> = 33"
proof -
  have "\<lfloor>(1::real) * 100 / 3 + 1 / 2\<rfloor> = 33" by linarith
  with accuracy_percent_range [of "\<lparr> finalScore = 190, st_perfectHits = 1, st_totalHits = 3,
     st_reactionTimes = [900, 700, 800], averageReactionTime = 800, mode = Hard \<rparr>"]
  show ?thesis by (simp add: accuracy_percent_def Math_round_def)
qed

end
