(* ===== verification/Screens.thy ===== *)
theory Screens
  imports Session Hud_Format
begin

text \<open>
  What the component returns for the browser to show (lines 579-737 of
  \<^verbatim>\<open>src/app/page.tsx\<close>): the tree of elements of the three screens, with the texts they
  show and the callbacks they install. Class names and inline styles are left out. An
  element is \<open>El\<close> with its tag and its children; a \<^verbatim>\<open>button\<close> is \<open>Button\<close> with the event
  of theory \<open>Session\<close> that its \<^verbatim>\<open>onClick\<close> callback is; the \<^verbatim>\<open>canvas\<close> is \<open>CanvasEl\<close> with
  its width and height, and installs \<^verbatim>\<open>handleCanvasClick\<close> and \<^verbatim>\<open>handleMouseMove\<close>.
  Adjacent texts of one element are one \<open>Text\<close>.

  \<open>offers n e\<close> says that the tree \<open>n\<close> contains an element on which the user can cause
  the event \<open>e\<close>. The guards of \<open>handle\<close> in theory \<open>Session\<close> are justified here: an
  event of the user that the screen does not offer leaves the state as it is.
\<close>

section \<open>Elements\<close>

datatype node =
    Text string
  | El string "node list"
  | Button event "node list"
  | CanvasEl real real

section \<open>The three screens\<close>

definition renderMenu :: node where
  "renderMenu =
     El ''div'' [El ''div''
       [El ''h1'' [Text ''PADEL''],
        El ''p'' [Text ''TRAINING SIMULATOR''],
        El ''div''
          [El ''p'' [Text ''SELECT DIFFICULTY''],
           El ''div''
             [Button (SelectDifficulty Easy) [Text ''Easy''],
              Button (SelectDifficulty Intermediate) [Text ''Intermediate''],
              Button (SelectDifficulty Hard) [Text ''Hard'']]],
        El ''p'' [Text ''60 SECOND SESSION'']]]"

definition renderGame :: "app \<Rightarrow> node" where
  "renderGame a =
     El ''div''
       [CanvasEl (CANVAS_WIDTH (canvasSize a)) (CANVAS_HEIGHT (canvasSize a)),
        El ''div'' [El ''div'' [Text ''MODE''], El ''div'' [Text (hud_mode (difficulty a))]],
        El ''div''
          [El ''div'' [Text ''TIME''], El ''div'' [Text (hud_time (timeLeft (current a)))]],
        El ''div''
          [El ''div'' [Text ''SCORE''], El ''div'' [Text (hud_score (score (current a)))]]]"

definition renderEnd :: "app \<Rightarrow> node option" where
  "renderEnd a =
     (case gameStats a of
        None \<Rightarrow> None
      | Some st \<Rightarrow>
          Some (El ''div'' [El ''div''
            [El ''h1'' [Text ''SESSION END''],
             El ''p'' [Text ''MATCH RESULTS''],
             El ''div''
               [El ''div'' [El ''div'' [Text ''MODE''], El ''div'' [Text (end_mode st)]],
                El ''div'' [El ''div'' [Text ''SCORE''], El ''div'' [Text (end_score st)]],
                El ''div''
                  [El ''div'' [Text ''ACCURACY''],
                   El ''div'' [Text (show_int (accuracy_percent st) @ ''%'')],
                   El ''div''
                     [Text (show_nat (st_perfectHits st) @ '' / '' @
                        show_nat (st_totalHits st) @ '' Perfect Hits'')]],
                El ''div''
                  [El ''div'' [Text ''AVG REACTION TIME''],
                   El ''div'' [Text (end_reaction st), El ''span'' [Text ''s'']]]],
             El ''div''
               [Button PlayAgain [Text ''Play Again''],
                Button BackToMenu [Text ''Menu'']]]]))"

text \<open>The value the component returns (lines 731-737).\<close>

definition view :: "app \<Rightarrow> node" where
  "view a =
     El ''div''
       ((if gameState a = Menu then [renderMenu] else []) @
        (if gameState a = Game then [renderGame a] else []) @
        (if gameState a = End then (case renderEnd a of None \<Rightarrow> [] | Some n \<Rightarrow> [n]) else []))"

section \<open>The pointer on the canvas\<close>

text \<open>
  The canvas has \<^verbatim>\<open>CANVAS_WIDTH\<close> by \<^verbatim>\<open>CANVAS_HEIGHT\<close> pixels, the size of the screen (lines
  623-624 and 84-85), and its element is shown stretched over the whole viewport, from
  the corner \<open>(0, 0)\<close> (lines 619 and 626-632). \<open>shown_at vp cv p\<close> is the position in
  the viewport \<open>vp\<close> at which the browser shows the pixel \<open>p\<close> of the canvas. A pointer
  event carries the position of the pointer in the viewport; \<open>pointerPos\<close> is what the
  two callbacks of the canvas compute from it and from the corner of the element
  (lines 190-192 and 271-273).
\<close>

definition shown_at :: "real \<times> real \<Rightarrow> canvas \<Rightarrow> real \<times> real \<Rightarrow> real \<times> real" where
  "shown_at vp cv p = (fst p * fst vp / CANVAS_WIDTH cv, snd p * snd vp / CANVAS_HEIGHT cv)"

definition pointerPos :: "real \<times> real \<Rightarrow> real \<times> real \<Rightarrow> real \<times> real" where
  "pointerPos corner client = (fst client - fst corner, snd client - snd corner)"

text \<open>
  \<open>click_on vp cv p\<close> is the position that \<^verbatim>\<open>handleCanvasClick\<close> works with when the user
  clicks on what is drawn at the pixel \<open>p\<close> of the canvas.
\<close>

definition click_on :: "real \<times> real \<Rightarrow> canvas \<Rightarrow> real \<times> real \<Rightarrow> real \<times> real" where
  "click_on vp cv p = pointerPos (0, 0) (shown_at vp cv p)"

section \<open>What a tree shows and offers\<close>

fun offers :: "node \<Rightarrow> event \<Rightarrow> bool" where
  "offers (Text s) e = False"
| "offers (El tag ns) e = list_ex (\<lambda>n. offers n e) ns"
| "offers (Button e' ns) e = (e = e')"
| "offers (CanvasEl w h) e = (case e of Click x y \<Rightarrow> True | MouseMove x y \<Rightarrow> True | _ \<Rightarrow> False)"

fun textContent :: "node \<Rightarrow> string" where
  "textContent (Text s) = s"
| "textContent (El tag ns) = concat (map textContent ns)"
| "textContent (Button e ns) = concat (map textContent ns)"
| "textContent (CanvasEl w h) = []"

fun buttons :: "node \<Rightarrow> event list" where
  "buttons (Text s) = []"
| "buttons (El tag ns) = concat (map buttons ns)"
| "buttons (Button e ns) = [e]"
| "buttons (CanvasEl w h) = []"

fun has_canvas :: "node \<Rightarrow> bool" where
  "has_canvas (Text s) = False"
| "has_canvas (El tag ns) = list_ex has_canvas ns"
| "has_canvas (Button e ns) = False"
| "has_canvas (CanvasEl w h) = True"


section \<open>The screens and the guards of the callbacks\<close>

lemma renderEnd_None_iff: "renderEnd a = None \<longleftrightarrow> gameStats a = None"
  by (simp add: renderEnd_def split: option.splits)

lemma buttons_screens:
  "buttons renderMenu =
     [SelectDifficulty Easy, SelectDifficulty Intermediate, SelectDifficulty Hard]"
  "buttons (renderGame a) = []"
  "renderEnd a = Some n \<Longrightarrow> buttons n = [PlayAgain, BackToMenu]"
  by (auto simp: renderMenu_def renderGame_def renderEnd_def split: option.splits)

text \<open>The screen depends on the state, the statistics, the game variables and the size only.\<close>

lemma view_cong:
  assumes "gameState a = gameState b" and "difficulty a = difficulty b"
    and "gameStats a = gameStats b" and "current a = current b" and "canvasSize a = canvasSize b"
  shows "view a = view b"
  using assms by (simp add: view_def renderGame_def renderEnd_def)

lemma view_clock [simp]: "view (a\<lparr> clock := c \<rparr>) = view a"
  by (rule view_cong) simp_all

lemma view_current: "gameState a \<noteq> Game \<Longrightarrow> view (a\<lparr> current := g \<rparr>) = view a"
  by (simp add: view_def renderEnd_def)

lemma has_canvas_view: "has_canvas (view a) \<longleftrightarrow> gameState a = Game"
  by (auto simp: view_def renderMenu_def renderGame_def renderEnd_def split: option.splits)

lemma offers_view:
  "offers (view a) (SelectDifficulty d) \<longleftrightarrow> gameState a = Menu"
  "offers (view a) (Click x y) \<longleftrightarrow> gameState a = Game"
  "offers (view a) (MouseMove x y) \<longleftrightarrow> gameState a = Game"
  "offers (view a) PlayAgain \<longleftrightarrow> gameState a = End \<and> gameStats a \<noteq> None"
  "offers (view a) BackToMenu \<longleftrightarrow> gameState a = End \<and> gameStats a \<noteq> None"
  "\<not> offers (view a) (Resize w h)"
  "\<not> offers (view a) Frame"
  by (cases d; auto simp: view_def renderMenu_def renderGame_def renderEnd_def
      split: option.splits)+

lemma offers_view_current [simp]: "offers (view (a\<lparr> current := g \<rparr>)) e = offers (view a) e"
  by (cases e) (simp_all add: offers_view)


lemma offers_iff:
  "offers n e \<longleftrightarrow>
     e \<in> set (buttons n) \<or>
     has_canvas n \<and> (case e of Click x y \<Rightarrow> True | MouseMove x y \<Rightarrow> True | _ \<Rightarrow> False)"
  by (induction n) (auto simp: list_ex_iff)

lemma textContent_renderGame:
  "textContent (renderGame a) =
     ''MODE'' @ hud_mode (difficulty a) @ ''TIME'' @ hud_time (timeLeft (current a)) @
     ''SCORE'' @ hud_score (score (current a))"
  by (simp add: renderGame_def)

lemma textContent_view_Game:
  "gameState a = Game \<Longrightarrow>
   textContent (view a) =
     ''MODE'' @ hud_mode (difficulty a) @ ''TIME'' @ hud_time (timeLeft (current a)) @
     ''SCORE'' @ hud_score (score (current a))"
  by (simp add: view_def textContent_renderGame)

text \<open>The page of the worked session, at its start and at its end.\<close>

lemma hud_started: "textContent (view started) = ''MODEEASYTIME01:00SCORE00000''"
  by (simp add: textContent_view_Game hud_mode_def hud_eval fresh_gameRef_def replicate_numeral)

lemma end_card_text:
  assumes "gameState a = End" and "gameStats a = Some final_stats"
  shows "textContent (view a) =
     ''SESSION ENDMATCH RESULTSMODEEasySCORE00090ACCURACY100%1 / 1 Perfect HitsAVG REACTION TIME1.50sPlay AgainMenu''"
  using assms
  by (simp add: view_def renderEnd_def end_mode_def end_score_def accuracy_percent_def
      end_reaction_def toFixed2_def Math_round_def hud_eval Let_def replicate_numeral)

lemma reachable_End_stats:
  assumes "reachable a" and "gameState a = End"
  shows "gameStats a = Some (make_stats (difficulty a) (current a))"
  using reachable_inv [OF assms(1)] assms(2) by (simp add: session_inv_def)

lemma click_on_eq:
  "click_on vp cv p = (fst p * fst vp / CANVAS_WIDTH cv, snd p * snd vp / CANVAS_HEIGHT cv)"
  by (simp add: click_on_def pointerPos_def shown_at_def)

lemma click_on_fullscreen:
  assumes "0 < width cv" and "0 < height cv"
  shows "click_on (width cv, height cv) cv p = p"
  using assms by (simp add: click_on_eq pg_defs)

lemma click_on_offset:
  assumes "0 < width cv" and "0 < height cv"
  shows "fst p - fst (click_on vp cv p) = fst p * (1 - fst vp / width cv)"
    and "snd p - snd (click_on vp cv p) = snd p * (1 - snd vp / height cv)"
  using assms by (simp_all add: click_on_eq pg_defs algebra_simps)

section \<open>Properties of the screens\<close>



text \<open>
  The screens offer exactly these events: the menu its three difficulties, the game
  screen the clicks and the mouse moves on its canvas, and the end screen, once the
  statistics are there, to play again and to go back to the menu. No screen offers an
  event of another one.
\<close>

theorem events_the_screens_offer:
  "offers (view a) e \<longleftrightarrow>
     (case e of
        SelectDifficulty d \<Rightarrow> gameState a = Menu
      | Click x y \<Rightarrow> gameState a = Game
      | MouseMove x y \<Rightarrow> gameState a = Game
      | PlayAgain \<Rightarrow> gameState a = End \<and> gameStats a \<noteq> None
      | BackToMenu \<Rightarrow> gameState a = End \<and> gameStats a \<noteq> None
      | _ \<Rightarrow> False)"
  by (cases e) (simp_all add: offers_view)

text \<open>
  The function \<^verbatim>\<open>renderEnd\<close> returns nothing when there are no statistics (line 665).
  In a state the component can reach this never happens: the end screen is shown with
  the statistics of the game variables, and it offers both of its buttons.
\<close>

theorem end_screen_is_never_blank:
  assumes "reachable a" and "gameState a = End"
  shows "renderEnd a \<noteq> None \<and> buttons (view a) = [PlayAgain, BackToMenu] \<and>
         gameStats a = Some (make_stats (difficulty a) (current a))"
  using reachable_End_stats [OF assms] assms(2)
  by (auto simp: view_def renderEnd_def)

theorem end_screen_is_never_blank_witness:
  "reachable timed_out \<and> gameState timed_out = End \<and> renderEnd timed_out \<noteq> None \<and>
   buttons (view timed_out) = [PlayAgain, BackToMenu]"
proof -
  have e: "gameState timed_out = End" by simp
  from end_screen_is_never_blank [OF timed_out_reachable e] timed_out_reachable e
  show ?thesis by blast
qed

text \<open>
  In every state the component can reach, the screen offers the user something to do:
  a button or the canvas. The user is never left with an empty page.
\<close>

theorem some_event_is_always_offered:
  assumes "reachable a"
  shows "buttons (view a) \<noteq> [] \<or> has_canvas (view a)"
proof (cases "gameState a")
  case Menu
  then show ?thesis by (simp add: view_def buttons_screens)
next
  case Game
  then show ?thesis by (simp add: has_canvas_view)
next
  case End
  with reachable_End_stats [OF assms] show ?thesis by (simp add: view_def renderEnd_def)
qed

end
