(* ===== verification/Canvas.thy ===== *)
theory Canvas
  imports Paddle_Prelude
begin

text \<open>
  The drawing interface the program paints with, \<^verbatim>\<open>CanvasRenderingContext2D\<close>. A call of
  one of its methods, or an assignment to one of its attributes, is a value of type
  \<open>cmd\<close>; what \<^verbatim>\<open>draw\<close> of \<^verbatim>\<open>src/app/page.tsx\<close> paints in one frame is the list of these
  values in the order of the calls. Colours are kept as data and not as the strings of
  the style sheet language: \<^verbatim>\<open>'#0a0f1f'\<close> is \<open>Hex ''0a0f1f''\<close>, \<^verbatim>\<open>'rgba(100, 150, 255, 0.4)'\<close>
  is \<open>Rgba 100 150 255 0.4\<close>. A gradient with its colour stops is one value of type
  \<open>paint\<close>: the calls \<^verbatim>\<open>createLinearGradient\<close>, \<^verbatim>\<open>addColorStop\<close> and the assignment to
  \<^verbatim>\<open>fillStyle\<close> are one command.

  The second half of the theory is the behaviour of the interface as far as the
  properties need it, taken from its standard and not from the program: which commands
  raise \<^verbatim>\<open>IndexSizeError\<close>, which values an attribute ignores, and what \<^verbatim>\<open>save\<close> and
  \<^verbatim>\<open>restore\<close> do to the drawing state.
\<close>

section \<open>Colours, paints and commands\<close>

datatype colour = Hex string | Rgba nat nat nat real | Transparent

datatype paint =
    Solid colour
  | LinearGradient real real real real "(real \<times> colour) list"
  | RadialGradient real real real real real real "(real \<times> colour) list"

datatype cmd =
    FillStyle paint
  | StrokeStyle colour
  | LineWidth real
  | GlobalAlpha real
  | ShadowColor colour
  | ShadowBlur real
  | TextAlign string
  | TextBaseline string
  | Font string
  | FillRect real real real real
  | BeginPath
  | MoveTo real real
  | LineTo real real
  | Arc real real real real real
  | ClosePath
  | Stroke
  | Fill
  | FillText string real real
  | Save
  | Restore
  | Translate real real
  | Rotate real

section \<open>The drawing state\<close>

datatype canvas_error = IndexSizeError

datatype move = Shift real real | Turn real

record pen =
  fillStyle :: paint
  strokeStyle :: colour
  lineWidth :: real
  globalAlpha :: real
  shadowColor :: colour
  shadowBlur :: real
  textAlign :: string
  textBaseline :: string
  font :: string
  transform :: "move list"

record ctx =
  now_pen :: pen
  saved :: "pen list"
  painted :: nat

definition default_pen :: pen where
  "default_pen =
     \<lparr> fillStyle = Solid (Hex ''000000''), strokeStyle = Hex ''000000'', lineWidth = 1,
       globalAlpha = 1, shadowColor = Transparent, shadowBlur = 0, textAlign = ''start'',
       textBaseline = ''alphabetic'', font = ''10px sans-serif'', transform = [] \<rparr>"

definition fresh_ctx :: ctx where
  "fresh_ctx = \<lparr> now_pen = default_pen, saved = [], painted = 0 \<rparr>"

section \<open>Which commands the interface accepts\<close>

text \<open>
  A gradient with a negative radius and a colour stop outside \<open>[0, 1]\<close> raise
  \<^verbatim>\<open>IndexSizeError\<close> when the gradient is built; so does an arc with a negative radius.
  No other command of the program can raise.
\<close>

definition stops_ok :: "(real \<times> colour) list \<Rightarrow> bool" where
  "stops_ok stops \<longleftrightarrow> list_all (\<lambda>(offset, c). 0 \<le> offset \<and> offset \<le> 1) stops"

fun paint_ok :: "paint \<Rightarrow> bool" where
  "paint_ok (Solid c) = True"
| "paint_ok (LinearGradient x0 y0 x1 y1 stops) = stops_ok stops"
| "paint_ok (RadialGradient x0 y0 r0 x1 y1 r1 stops) = (0 \<le> r0 \<and> 0 \<le> r1 \<and> stops_ok stops)"

fun cmd_ok :: "cmd \<Rightarrow> bool" where
  "cmd_ok (FillStyle p) = paint_ok p"
| "cmd_ok (Arc x y r a0 a1) = (0 \<le> r)"
| "cmd_ok c = True"

text \<open>
  \<open>cmd_wf\<close> is the stronger judgement that every argument of the command lies in the
  range its attribute or method documents: the command does not raise, and the context
  neither ignores nor clamps a value. An alpha value and a colour stop lie in \<open>[0, 1]\<close>,
  a colour channel is at most 255, a line width is positive, a blur and a radius are
  not negative, and an alignment is one of the keywords.
\<close>

definition hex_digit :: "char \<Rightarrow> bool" where
  "hex_digit c \<longleftrightarrow> c \<in> set ''0123456789abcdefABCDEF''"

fun colour_ok :: "colour \<Rightarrow> bool" where
  "colour_ok (Hex ds) = (length ds \<in> {3, 4, 6, 8} \<and> list_all hex_digit ds)"
| "colour_ok (Rgba r g b a) = (r \<le> 255 \<and> g \<le> 255 \<and> b \<le> 255 \<and> 0 \<le> a \<and> a \<le> 1)"
| "colour_ok Transparent = True"

fun paint_wf :: "paint \<Rightarrow> bool" where
  "paint_wf (Solid c) = colour_ok c"
| "paint_wf (LinearGradient x0 y0 x1 y1 stops) =
     (stops_ok stops \<and> list_all (\<lambda>(offset, c). colour_ok c) stops)"
| "paint_wf (RadialGradient x0 y0 r0 x1 y1 r1 stops) =
     (0 \<le> r0 \<and> 0 \<le> r1 \<and> stops_ok stops \<and> list_all (\<lambda>(offset, c). colour_ok c) stops)"

fun cmd_wf :: "cmd \<Rightarrow> bool" where
  "cmd_wf (FillStyle p) = paint_wf p"
| "cmd_wf (StrokeStyle c) = colour_ok c"
| "cmd_wf (ShadowColor c) = colour_ok c"
| "cmd_wf (LineWidth w) = (0 < w)"
| "cmd_wf (GlobalAlpha v) = (0 \<le> v \<and> v \<le> 1)"
| "cmd_wf (ShadowBlur b) = (0 \<le> b)"
| "cmd_wf (Arc x y r a0 a1) = (0 \<le> r)"
| "cmd_wf (TextAlign a) = (a \<in> set [''start'', ''end'', ''left'', ''right'', ''center''])"
| "cmd_wf (TextBaseline b) =
     (b \<in> set [''top'', ''hanging'', ''middle'', ''alphabetic'', ''ideographic'', ''bottom''])"
| "cmd_wf c = True"

section \<open>Running commands\<close>

definition set_pen :: "(pen \<Rightarrow> pen) \<Rightarrow> ctx \<Rightarrow> ctx" where
  "set_pen f s = s\<lparr> now_pen := f (now_pen s) \<rparr>"

definition ink :: "ctx \<Rightarrow> ctx" where
  "ink s = s\<lparr> painted := Suc (painted s) \<rparr>"

fun apply_cmd :: "cmd \<Rightarrow> ctx \<Rightarrow> ctx" where
  "apply_cmd (FillStyle p) s = set_pen (\<lambda>q. q\<lparr> fillStyle := p \<rparr>) s"
| "apply_cmd (StrokeStyle c) s = set_pen (\<lambda>q. q\<lparr> strokeStyle := c \<rparr>) s"
| "apply_cmd (LineWidth w) s = (if 0 < w then set_pen (\<lambda>q. q\<lparr> lineWidth := w \<rparr>) s else s)"
| "apply_cmd (GlobalAlpha v) s =
     (if 0 \<le> v \<and> v \<le> 1 then set_pen (\<lambda>q. q\<lparr> globalAlpha := v \<rparr>) s else s)"
| "apply_cmd (ShadowColor c) s = set_pen (\<lambda>q. q\<lparr> shadowColor := c \<rparr>) s"
| "apply_cmd (ShadowBlur b) s = (if 0 \<le> b then set_pen (\<lambda>q. q\<lparr> shadowBlur := b \<rparr>) s else s)"
| "apply_cmd (TextAlign a) s = set_pen (\<lambda>q. q\<lparr> textAlign := a \<rparr>) s"
| "apply_cmd (TextBaseline b) s = set_pen (\<lambda>q. q\<lparr> textBaseline := b \<rparr>) s"
| "apply_cmd (Font f) s = set_pen (\<lambda>q. q\<lparr> font := f \<rparr>) s"
| "apply_cmd (Translate x y) s = set_pen (\<lambda>q. q\<lparr> transform := Shift x y # transform q \<rparr>) s"
| "apply_cmd (Rotate a) s = set_pen (\<lambda>q. q\<lparr> transform := Turn a # transform q \<rparr>) s"
| "apply_cmd Save s = s\<lparr> saved := now_pen s # saved s \<rparr>"
| "apply_cmd Restore s =
     (case saved s of [] \<Rightarrow> s | q # qs \<Rightarrow> s\<lparr> now_pen := q, saved := qs \<rparr>)"
| "apply_cmd (FillRect x y w h) s = ink s"
| "apply_cmd Stroke s = ink s"
| "apply_cmd Fill s = ink s"
| "apply_cmd (FillText t x y) s = ink s"
| "apply_cmd c s = s"

definition exec1 :: "cmd \<Rightarrow> ctx \<Rightarrow> canvas_error + ctx" where
  "exec1 c s = (if cmd_ok c then Inr (apply_cmd c s) else Inl IndexSizeError)"

fun run_cmds :: "cmd list \<Rightarrow> ctx \<Rightarrow> canvas_error + ctx" where
  "run_cmds [] s = Inr s"
| "run_cmds (c # cs) s = (case exec1 c s of Inl e \<Rightarrow> Inl e | Inr s' \<Rightarrow> run_cmds cs s')"

text \<open>
  \<open>tidy s\<close>: nothing is saved, the transformation is the identity, shapes are painted
  opaque and without shadow. This is the state in which every frame finds and leaves
  the context.
\<close>

definition tidy :: "ctx \<Rightarrow> bool" where
  "tidy s \<longleftrightarrow>
     saved s = [] \<and> transform (now_pen s) = [] \<and> globalAlpha (now_pen s) = 1 \<and>
     shadowColor (now_pen s) = Transparent"

text \<open>\<open>inks cs\<close> is the number of shapes and texts that \<open>cs\<close> paints.\<close>

fun is_ink :: "cmd \<Rightarrow> bool" where
  "is_ink (FillRect x y w h) = True"
| "is_ink Stroke = True"
| "is_ink Fill = True"
| "is_ink (FillText t x y) = True"
| "is_ink c = False"

definition inks :: "cmd list \<Rightarrow> nat" where
  "inks cs = length (filter is_ink cs)"

text \<open>
  \<open>frame_of s\<close> is the part of the drawing state that \<^verbatim>\<open>save\<close>, \<^verbatim>\<open>restore\<close> and the
  transformations change.
\<close>

definition frame_of :: "ctx \<Rightarrow> pen list \<times> move list" where
  "frame_of s = (saved s, transform (now_pen s))"

text \<open>
  A list of commands is \<open>balanced\<close> when every \<^verbatim>\<open>save\<close> is followed by its \<^verbatim>\<open>restore\<close>
  and the transformation is only changed between the two.
\<close>

fun plain :: "cmd \<Rightarrow> bool" where
  "plain Save = False"
| "plain Restore = False"
| "plain (Translate x y) = False"
| "plain (Rotate a) = False"
| "plain c = True"

fun unnested :: "cmd \<Rightarrow> bool" where
  "unnested Save = False"
| "unnested Restore = False"
| "unnested c = True"

inductive balanced :: "cmd list \<Rightarrow> bool" where
  balanced_Nil: "balanced []"
| balanced_plain: "plain c \<Longrightarrow> balanced cs \<Longrightarrow> balanced (c # cs)"
| balanced_bracket: "list_all unnested cs \<Longrightarrow> balanced ds \<Longrightarrow> balanced (Save # cs @ Restore # ds)"

text \<open>
  \<open>bal False cs\<close> decides by one pass over the list whether \<open>cs\<close> is balanced; the
  first argument says whether the pass is between a \<^verbatim>\<open>save\<close> and its \<^verbatim>\<open>restore\<close>.
\<close>

fun bal :: "bool \<Rightarrow> cmd list \<Rightarrow> bool" where
  "bal b [] = (\<not> b)"
| "bal False (Save # cs) = bal True cs"
| "bal True (Restore # cs) = bal False cs"
| "bal False (c # cs) = (plain c \<and> bal False cs)"
| "bal True (c # cs) = (unnested c \<and> bal True cs)"

inductive_cases balanced_RestoreE: "balanced (Restore # cs)"

inductive_cases balanced_SaveE: "balanced (Save # cs)"

section \<open>Running lists of commands\<close>

lemma run_cmds_append:
  "run_cmds (cs @ ds) s = (case run_cmds cs s of Inl e \<Rightarrow> Inl e | Inr s' \<Rightarrow> run_cmds ds s')"
  by (induction cs arbitrary: s) (auto split: sum.splits)

lemma run_cmds_ok:
  "list_all cmd_ok cs \<Longrightarrow> run_cmds cs s = Inr (fold apply_cmd cs s)"
  by (induction cs arbitrary: s) (simp_all add: exec1_def)

lemma run_cmds_ok_iff: "(\<exists>s'. run_cmds cs s = Inr s') \<longleftrightarrow> list_all cmd_ok cs"
proof (induction cs arbitrary: s)
  case Nil
  show ?case by simp
next
  case (Cons c cs)
  show ?case
  proof (cases "cmd_ok c")
    case True
    with Cons [of "apply_cmd c s"] show ?thesis by (simp add: exec1_def)
  next
    case False
    then show ?thesis by (simp add: exec1_def)
  qed
qed

lemma run_cmds_error:
  "\<not> list_all cmd_ok cs \<Longrightarrow> run_cmds cs s = Inl IndexSizeError"
proof -
  assume "\<not> list_all cmd_ok cs"
  then have "\<nexists>s'. run_cmds cs s = Inr s'" by (simp add: run_cmds_ok_iff)
  then show ?thesis by (cases "run_cmds cs s") (auto intro: canvas_error.exhaust)
qed

text \<open>
  Progress: a list of well-formed commands runs to its end, and there every assignment
  has taken effect.
\<close>

lemma paint_wf_ok: "paint_wf p \<Longrightarrow> paint_ok p"
  by (cases p) simp_all

lemma cmd_wf_ok: "cmd_wf c \<Longrightarrow> cmd_ok c"
  by (cases c) (simp_all add: paint_wf_ok)

lemma list_all_cmd_wf_ok: "list_all cmd_wf cs \<Longrightarrow> list_all cmd_ok cs"
  by (induction cs) (simp_all add: cmd_wf_ok)

lemma run_cmds_wf: "list_all cmd_wf cs \<Longrightarrow> run_cmds cs s = Inr (fold apply_cmd cs s)"
  by (simp add: run_cmds_ok list_all_cmd_wf_ok)

lemma apply_cmd_wf_alpha:
  "cmd_wf (GlobalAlpha v) \<Longrightarrow> globalAlpha (now_pen (apply_cmd (GlobalAlpha v) s)) = v"
  by (simp add: set_pen_def)

lemma apply_cmd_wf_width:
  "cmd_wf (LineWidth w) \<Longrightarrow> lineWidth (now_pen (apply_cmd (LineWidth w) s)) = w"
  by (simp add: set_pen_def)

lemma apply_cmd_wf_blur:
  "cmd_wf (ShadowBlur b) \<Longrightarrow> shadowBlur (now_pen (apply_cmd (ShadowBlur b) s)) = b"
  by (simp add: set_pen_def)

lemma list_all_concat_map:
  "list_all P (concat (map f xs)) \<longleftrightarrow> list_all (\<lambda>x. list_all P (f x)) xs"
  by (induction xs) simp_all

lemma fold_concat_map_inv:
  assumes "\<And>x s. x \<in> set xs \<Longrightarrow> P s \<Longrightarrow> P (fold apply_cmd (f x) s)" and "P s"
  shows "P (fold apply_cmd (concat (map f xs)) s)"
  using assms by (induction xs arbitrary: s) simp_all

lemma stops_ok_simps [simp]:
  "stops_ok [] = True"
  "stops_ok ((offset, c) # stops) = (0 \<le> offset \<and> offset \<le> 1 \<and> stops_ok stops)"
  by (simp_all add: stops_ok_def)

section \<open>Save and restore\<close>

lemma unnested_saved: "unnested c \<Longrightarrow> saved (apply_cmd c s) = saved s"
  by (cases c) (simp_all add: set_pen_def ink_def)

lemma all_unnested_saved: "list_all unnested cs \<Longrightarrow> saved (fold apply_cmd cs s) = saved s"
  by (induction cs arbitrary: s) (simp_all add: unnested_saved)

lemma plain_frame: "plain c \<Longrightarrow> frame_of (apply_cmd c s) = frame_of s"
  by (cases c) (simp_all add: frame_of_def set_pen_def ink_def)

lemma bracket_restores:
  assumes "list_all unnested cs"
  shows "frame_of (fold apply_cmd (Save # cs @ [Restore]) s) = frame_of s"
proof -
  let ?s = "fold apply_cmd cs (apply_cmd Save s)"
  from assms have "saved ?s = now_pen s # saved s" by (simp add: all_unnested_saved)
  then show ?thesis by (simp add: frame_of_def)
qed

lemma balanced_frame: "balanced cs \<Longrightarrow> frame_of (fold apply_cmd cs s) = frame_of s"
proof (induction arbitrary: s rule: balanced.induct)
  case balanced_Nil
  show ?case by simp
next
  case (balanced_plain c cs)
  then show ?case by (simp add: plain_frame)
next
  case (balanced_bracket cs ds)
  have "fold apply_cmd (Save # cs @ Restore # ds) s =
      fold apply_cmd ds (fold apply_cmd (Save # cs @ [Restore]) s)"
    by simp
  with balanced_bracket bracket_restores [of cs s] show ?case by (simp only:)
qed

lemma balanced_append: "balanced cs \<Longrightarrow> balanced ds \<Longrightarrow> balanced (cs @ ds)"
  by (induction rule: balanced.induct) (auto intro: balanced.intros)

lemma balanced_concat_map:
  "(\<And>x. x \<in> set xs \<Longrightarrow> balanced (f x)) \<Longrightarrow> balanced (concat (map f xs))"
  by (induction xs) (auto intro: balanced.intros balanced_append)

lemma all_plain_balanced: "list_all plain cs \<Longrightarrow> balanced cs"
  by (induction cs) (auto intro: balanced.intros)

lemma painted_apply_cmd: "painted (apply_cmd c s) = painted s + (if is_ink c then 1 else 0)"
  by (cases c) (simp_all add: set_pen_def ink_def split: list.splits)

lemma painted_fold: "painted (fold apply_cmd cs s) = painted s + inks cs"
  by (induction cs arbitrary: s) (simp_all add: inks_def painted_apply_cmd)

lemma inks_simps [simp]:
  "inks [] = 0"
  "inks (c # cs) = (if is_ink c then 1 else 0) + inks cs"
  "inks (cs @ ds) = inks cs + inks ds"
  by (simp_all add: inks_def)

lemma inks_concat: "inks (concat css) = sum_list (map inks css)"
  by (induction css) simp_all

text \<open>The pass decides balance; an unmatched \<^verbatim>\<open>restore\<close> or \<^verbatim>\<open>save\<close> is never balanced.\<close>

lemma bal_inside_append:
  "list_all unnested cs \<Longrightarrow> bal True (cs @ Restore # ds) = bal False ds"
proof (induction cs)
  case Nil
  show ?case by simp
next
  case (Cons c cs)
  then show ?case by (cases c) simp_all
qed

lemma balanced_bal: "balanced cs \<Longrightarrow> bal False cs"
proof (induction rule: balanced.induct)
  case (balanced_plain c cs)
  then show ?case by (cases c) simp_all
qed (simp_all add: bal_inside_append)

lemma bal_inside_split:
  "bal True cs \<Longrightarrow> \<exists>cs' ds. cs = cs' @ Restore # ds \<and> list_all unnested cs' \<and> bal False ds"
proof (induction cs)
  case Nil
  then show ?case by simp
next
  case (Cons c cs)
  show ?case
  proof (cases "c = Restore")
    case True
    with Cons.prems have "c # cs = [] @ Restore # cs \<and> list_all unnested [] \<and> bal False cs" by simp
    then show ?thesis by blast
  next
    case False
    with Cons.prems have c: "unnested c" "bal True cs" by (cases c; simp)+
    from Cons.IH [OF c(2)] obtain cs' ds where
      "cs = cs' @ Restore # ds" "list_all unnested cs'" "bal False ds" by blast
    with c(1) have "c # cs = (c # cs') @ Restore # ds \<and> list_all unnested (c # cs') \<and> bal False ds"
      by simp
    then show ?thesis by blast
  qed
qed

lemma bal_balanced: "bal False cs \<Longrightarrow> balanced cs"
proof (induction cs rule: length_induct)
  case (1 cs)
  show ?case
  proof (cases cs)
    case Nil
    then show ?thesis by (simp add: balanced_Nil)
  next
    case (Cons c ds)
    show ?thesis
    proof (cases "c = Save")
      case True
      with 1(2) Cons have "bal True ds" by simp
      from bal_inside_split [OF this] obtain cs' es where
        s: "ds = cs' @ Restore # es" "list_all unnested cs'" "bal False es" by blast
      with 1(1) Cons have "balanced es" by simp
      with s True Cons show ?thesis by (simp add: balanced_bracket)
    next
      case False
      with 1(2) Cons have c: "plain c" "bal False ds" by (cases c; simp)+
      with 1(1) Cons have "balanced ds" by simp
      with c(1) Cons show ?thesis by (simp add: balanced_plain)
    qed
  qed
qed

lemma balanced_iff_bal: "balanced cs \<longleftrightarrow> bal False cs"
  using balanced_bal bal_balanced by blast

lemma unmatched_not_balanced: "\<not> balanced (Restore # cs)" "\<not> balanced [Save]"
  by (auto elim: balanced_RestoreE balanced_SaveE)

lemma tidy_iff:
  "tidy s \<longleftrightarrow>
     frame_of s = ([], []) \<and> globalAlpha (now_pen s) = 1 \<and> shadowColor (now_pen s) = Transparent"
  by (auto simp: tidy_def frame_of_def)

lemma tidy_fresh: "tidy fresh_ctx"
  by (simp add: tidy_def fresh_ctx_def default_pen_def)

end
