(* ===== verification/Render.thy ===== *)
theory Render
  imports Frame_Update Canvas
begin

text \<open>
  What \<^verbatim>\<open>draw\<close> paints (lines 280-513 of \<^verbatim>\<open>src/app/page.tsx\<close>): the list of commands it
  sends to the drawing context in one frame, together with the state changes of theory
  \<open>Frame_Update\<close>. \<open>draw_full\<close> is the whole function; its first component is \<open>draw\<close>.

  The function reads the clock twice (lines 334 and 428); both readings are the argument
  \<open>now\<close>. Where the source passes NaN to the context, because an optional field is
  absent, the context ignores the call, and the command is left out here.
\<close>

section \<open>Background and net\<close>

text \<open>
  The two loops that draw the grid of the net have the shape
  \<^verbatim>\<open>for (let v = x; v < w; v += 12) { .. }\<close>, and their bodies do not change \<open>v\<close>.
  \<open>steps12 w x\<close> is the list of the values \<open>v\<close> takes.
\<close>

function steps12 :: "real \<Rightarrow> real \<Rightarrow> real list" where
  "steps12 w x = (if x < w then x # steps12 w (x + 12) else [])"
  by pat_completeness auto
termination
  by (relation "measure (\<lambda>(w, x). nat \<lceil>(w - x) / 12\<rceil>)") (simp_all add: stride_ceiling)

definition grid_v :: "canvas \<Rightarrow> cmd list" where
  "grid_v cv =
     concat (map (\<lambda>x. [BeginPath, MoveTo x (NET_Y cv), LineTo x (CANVAS_HEIGHT cv), Stroke])
       (steps12 (CANVAS_WIDTH cv) 0))"

definition grid_h :: "canvas \<Rightarrow> cmd list" where
  "grid_h cv =
     concat (map (\<lambda>y. [BeginPath, MoveTo 0 y, LineTo (CANVAS_WIDTH cv) y, Stroke])
       (steps12 (CANVAS_HEIGHT cv) (NET_Y cv)))"

definition paint_background :: "canvas \<Rightarrow> cmd list" where
  "paint_background cv =
     [FillStyle (Solid (Hex ''0a0f1f'')),
      FillRect 0 0 (CANVAS_WIDTH cv) (CANVAS_HEIGHT cv),
      FillStyle (LinearGradient 0 TARGET_AREA_TOP 0 (NET_Y cv)
        [(0, Hex ''0f1a2e''), (1, Hex ''0a0f1f'')]),
      FillRect 0 TARGET_AREA_TOP (CANVAS_WIDTH cv) (NET_Y cv - TARGET_AREA_TOP),
      FillStyle (LinearGradient 0 (NET_Y cv) 0 (CANVAS_HEIGHT cv)
        [(0, Hex ''1a1a3e''), (0.3, Hex ''2a2a5e''), (0.7, Hex ''1a1a3e''), (1, Hex ''0a0a1f'')]),
      FillRect 0 (NET_Y cv) (CANVAS_WIDTH cv) (NET_HEIGHT cv),
      StrokeStyle (Rgba 100 150 255 0.4),
      LineWidth 1] @
     grid_v cv @
     grid_h cv @
     [StrokeStyle (Rgba 150 200 255 0.8),
      LineWidth 3,
      BeginPath, MoveTo 0 (NET_Y cv), LineTo (CANVAS_WIDTH cv) (NET_Y cv), Stroke,
      FillStyle (LinearGradient 0 (NET_Y cv) 0 (NET_Y cv + 100)
        [(0, Rgba 100 150 255 0.2), (1, Rgba 100 150 255 0)]),
      FillRect 0 (NET_Y cv) (CANVAS_WIDTH cv) 100]"

section \<open>Targets\<close>

definition paint_target :: "int \<Rightarrow> Target \<Rightarrow> cmd list" where
  "paint_target now t =
     (let time = real_of_int now / 1000;
          x = t_x t; y = t_y t; r = t_radius t;
          pulse = 0.4 + sin (time * 3) * 0.4
      in [FillStyle (RadialGradient x y 0 x y (r * 2.2)
            [(0, Rgba 100 220 255 0.4), (0.5, Rgba 100 220 255 0.15), (1, Rgba 100 220 255 0)]),
          BeginPath, Arc x y (r * 2.2) 0 (pi * 2), Fill,
          StrokeStyle (Rgba 100 220 255 0.95), LineWidth 4,
          BeginPath, Arc x y r 0 (pi * 2), Stroke,
          StrokeStyle (Rgba 100 220 255 0.6), LineWidth 2,
          BeginPath, Arc x y (r * 0.65) 0 (pi * 2), Stroke,
          StrokeStyle (Rgba 100 220 255 0.7), LineWidth 2,
          BeginPath, Arc x y (r * 0.35) 0 (pi * 2), Stroke,
          FillStyle (RadialGradient x y 0 x y (r * 0.28)
            [(0, Hex ''ffffff''), (1, Rgba 150 230 255 1)]),
          BeginPath, Arc x y (r * 0.28) 0 (pi * 2), Fill,
          StrokeStyle (Rgba 100 220 255 (pulse * 0.9)), LineWidth 3,
          BeginPath, Arc x y (r + 12) 0 (pi * 2), Stroke])"

section \<open>Sparkles\<close>

function star_loop :: "real \<Rightarrow> real \<Rightarrow> nat \<Rightarrow> cmd list" where
  "star_loop rotation sz j =
     (if j < 4 then
        (let angle = (real j / 4) * pi * 2 + rotation;
             px = cos angle * sz;
             py = sin angle * sz
         in (if j = 0 then MoveTo px py else LineTo px py) # star_loop rotation sz (j + 1))
      else [])"
  by pat_completeness auto
termination
  by (relation "measure (\<lambda>(rotation, sz, j). 4 - j)") simp_all

definition sparkle_pos :: "Sparkle \<Rightarrow> real \<times> real" where
  "sparkle_pos s =
     (let distance = s_speed s * (1 - s_life s);
          x = s_x s + cos (s_angle s) * distance;
          y = s_y s + sin (s_angle s) * distance
      in (x, y))"

text \<open>The shape of a sparkle, painted between \<^verbatim>\<open>save\<close> and \<^verbatim>\<open>restore\<close>.\<close>

definition sparkle_shape :: "int \<Rightarrow> Sparkle \<Rightarrow> cmd list" where
  "sparkle_shape now s =
     (let (x, y) = sparkle_pos s;
          sparkleSize = 8 + s_life s * 8;
          scale = 1 + sin (real_of_int now / 1000 * 8 - s_angle s) * 0.4
      in [Translate x y] @
         (case s_rotation s of None \<Rightarrow> [] | Some rotation \<Rightarrow> [Rotate rotation]) @
         [BeginPath, Arc 0 0 (sparkleSize * scale) 0 (pi * 2), Fill,
          StrokeStyle (Hex ''ffff00''),
          LineWidth 1.5,
          BeginPath] @
         (case s_rotation s of None \<Rightarrow> []
          | Some rotation \<Rightarrow> star_loop rotation (sparkleSize * 1.8 * scale) 0) @
         [ClosePath, Stroke])"

definition paint_sparkle :: "int \<Rightarrow> Sparkle \<Rightarrow> cmd list" where
  "paint_sparkle now s =
     [GlobalAlpha (s_life s * 0.8),
      FillStyle (Solid (Hex ''ffff00'')),
      ShadowColor (Hex ''ffff00''),
      ShadowBlur 10,
      Save] @ sparkle_shape now s @ [Restore]"

section \<open>Feedback texts\<close>

definition font_of :: "string \<Rightarrow> string" where
  \<open>font_of px = ''bold '' @ px @ ''px "Courier New", monospace''\<close>

definition flag_set :: "bool option \<Rightarrow> bool" where
  "flag_set b = (case b of None \<Rightarrow> False | Some v \<Rightarrow> v)"

definition startsWith :: "string \<Rightarrow> char \<Rightarrow> bool" where
  "startsWith s c = (case s of [] \<Rightarrow> False | d # ds \<Rightarrow> d = c)"

definition text_style :: "Feedback \<Rightarrow> cmd list" where
  "text_style fb =
     (if f_text fb = ''PERFECT'' then
        [FillStyle (Solid (Hex ''00ffff'')), Font (font_of ''48''),
         ShadowColor (Hex ''00ffff''), ShadowBlur 20]
      else if startsWith (f_text fb) CHR ''+'' then
        [FillStyle (Solid (Hex ''00ff88'')), Font (font_of ''32''),
         ShadowColor (Hex ''00ff88''), ShadowBlur 15]
      else if f_text fb = ''MISS'' \<and> flag_set (f_isMiss fb) then
        [FillStyle (Solid (Hex ''ffff00'')), Font (font_of ''36''),
         ShadowColor (Hex ''ffff00''), ShadowBlur 18]
      else
        [FillStyle (Solid (Hex ''ff4444'')), Font (font_of ''32''),
         ShadowColor (Hex ''ff4444''), ShadowBlur 10])"

definition paint_feedback :: "Feedback \<Rightarrow> cmd list" where
  "paint_feedback fb =
     (if f_text fb = ''MISS'' \<and> flag_set (f_isMiss fb) then []
      else [GlobalAlpha (f_opacity fb), TextAlign ''center'', TextBaseline ''middle''] @
           text_style fb @
           [FillText (f_text fb) (f_x fb) (f_y fb - f_opacity fb * 40),
            ShadowColor Transparent])"

section \<open>The whole function\<close>

text \<open>
  The two loops over the effects walk the array from its last index, update the
  element, remove it when it has expired and paint it otherwise. \<open>sweep_paint\<close> is the
  loop \<open>sweep\<close> of theory \<open>Paddle_Prelude\<close> together with what it paints.
\<close>

fun sweep_paint :: "('a \<Rightarrow> 'a option) \<Rightarrow> ('a \<Rightarrow> 'b list) \<Rightarrow> nat \<Rightarrow> 'a list \<Rightarrow> 'a list \<times> 'b list" where
  "sweep_paint f p 0 xs = (xs, [])"
| "sweep_paint f p (Suc i) xs =
     (case f (xs ! i) of
        None \<Rightarrow> sweep_paint f p i (splice1 i xs)
      | Some y \<Rightarrow>
          (case sweep_paint f p i (xs[i := y]) of (xs', out) \<Rightarrow> (xs', p y @ out)))"

definition draw_full :: "canvas \<Rightarrow> int \<Rightarrow> gameRef \<Rightarrow> gameRef \<times> cmd list" where
  "draw_full cv now g =
     (let ts = map (move_target cv) (targets g);
          (sp, sparkle_cmds) =
             sweep_paint sparkle_step (paint_sparkle now) (length (sparkles g)) (sparkles g);
          (fb, feedback_cmds) =
             sweep_paint feedback_step paint_feedback (length (feedback g)) (feedback g)
      in (g\<lparr> targets := ts, sparkles := sp, feedback := fb \<rparr>,
          paint_background cv @
          concat (map (paint_target now) ts) @
          sparkle_cmds @
          [ShadowColor Transparent, GlobalAlpha 1] @
          feedback_cmds @
          [GlobalAlpha 1]))"

text \<open>
  The body of \<^verbatim>\<open>gameLoop\<close> up to the call of \<^verbatim>\<open>draw\<close> (lines 531-544), as \<open>advance_frame\<close>
  of theory \<open>Frame_Update\<close>, with what the call paints.
\<close>

definition paint_frame ::
  "canvas \<Rightarrow> Difficulty \<Rightarrow> int \<Rightarrow> int \<Rightarrow> gameRef \<Rightarrow> gameRef \<times> cmd list" where
  "paint_frame cv difficulty startTime now g =
     (let g1 = g\<lparr> timeLeft := remaining startTime now \<rparr>;
          g2 = (if difficulty = Hard then g1\<lparr> targets := map (wobble cv now) (targets g1) \<rparr>
                else g1)
      in draw_full cv now g2)"

section \<open>Notions of the proofs\<close>

text \<open>
  The picture of a state: what a frame has painted when it leaves the game variables
  \<open>g\<close>. The effects are painted from the last of the list to the first.
\<close>

definition scene :: "canvas \<Rightarrow> int \<Rightarrow> gameRef \<Rightarrow> cmd list" where
  "scene cv now g =
     paint_background cv @
     concat (map (paint_target now) (targets g)) @
     concat (map (paint_sparkle now) (rev (sparkles g))) @
     [ShadowColor Transparent, GlobalAlpha 1] @
     concat (map paint_feedback (rev (feedback g))) @
     [GlobalAlpha 1]"

text \<open>\<open>shown fb\<close>: the text of \<open>fb\<close> is painted, that is, it is not the mark of a missed click.\<close>

definition shown :: "Feedback \<Rightarrow> bool" where
  "shown fb \<longleftrightarrow> \<not> (f_text fb = ''MISS'' \<and> flag_set (f_isMiss fb))"

text \<open>Sample inputs for the instances below.\<close>

abbreviation spark :: Sparkle where
  "spark \<equiv> \<lparr> s_x = 10, s_y = 20, s_life = 1, s_angle = 0, s_speed = 3, s_rotation = Some 0 \<rparr>"

abbreviation busy :: gameRef where
  "busy \<equiv> one_target\<lparr> feedback := [fresh_miss], sparkles := [spark] \<rparr>"

abbreviation shrunk :: gameRef where
  "shrunk \<equiv> fresh_gameRef\<lparr> targets := [(large_target 0 960 432 0)\<lparr> t_radius := - 1 \<rparr>] \<rparr>"

section \<open>The loops in closed form\<close>

declare steps12.simps [simp del] star_loop.simps [simp del]

lemma steps12_closed:
  "steps12 w x = map (\<lambda>k. x + 12 * real k) [0..<nat \<lceil>(w - x) / 12\<rceil>]"
proof (induction w x rule: steps12.induct)
  case (1 w x)
  show ?case
  proof (cases "x < w")
    case True
    let ?n = "nat \<lceil>(w - (x + 12)) / 12\<rceil>"
    have "(w - (x + 12)) / 12 = (w - x) / 12 - 1" by simp
    then have "\<lceil>(w - (x + 12)) / 12\<rceil> = \<lceil>(w - x) / 12\<rceil> - 1"
      by (simp only: ceiling_diff_one)
    moreover from True have "0 < \<lceil>(w - x) / 12\<rceil>" by (simp add: stride_ceiling)
    ultimately have n: "nat \<lceil>(w - x) / 12\<rceil> = Suc ?n" by linarith
    have "steps12 w x = x # map (\<lambda>k. x + 12 + 12 * real k) [0..<?n]"
      using True "1.IH" by (simp add: steps12.simps [of w x])
    also have "\<dots> = map (\<lambda>k. x + 12 * real k) (0 # map Suc [0..<?n])"
      by (simp add: comp_def algebra_simps)
    also have "0 # map Suc [0..<?n] = [0..<Suc ?n]"
      by (simp add: map_Suc_upt upt_conv_Cons del: upt_Suc)
    finally show ?thesis by (simp only: n)
  next
    case False
    then have "\<lceil>(w - x) / 12\<rceil> \<le> 0" by (simp add: ceiling_le_iff)
    with False show ?thesis by (simp add: steps12.simps [of w x])
  qed
qed

lemma length_steps12: "length (steps12 w x) = nat \<lceil>(w - x) / 12\<rceil>"
  by (simp add: steps12_closed)

lemma steps12_range: "v \<in> set (steps12 w x) \<Longrightarrow> x \<le> v \<and> v < w"
proof (induction w x rule: steps12.induct)
  case (1 w x)
  then show ?case by (cases "x < w") (auto simp: steps12.simps [of w x])
qed

lemma star_loop_closed:
  "star_loop rot sz 0 =
     [MoveTo (cos rot * sz) (sin rot * sz),
      LineTo (cos (pi / 2 + rot) * sz) (sin (pi / 2 + rot) * sz),
      LineTo (cos (pi + rot) * sz) (sin (pi + rot) * sz),
      LineTo (cos (3 * pi / 2 + rot) * sz) (sin (3 * pi / 2 + rot) * sz)]"
  by (simp add: star_loop.simps [of _ _ 0] star_loop.simps [of _ _ 1] star_loop.simps [of _ _ 2]
      star_loop.simps [of _ _ 3] star_loop.simps [of _ _ 4] Let_def del: One_nat_def)

lemma sweep_paint_fst: "fst (sweep_paint f p i xs) = sweep f i xs"
  by (induction i arbitrary: xs) (simp_all add: case_prod_beta split: option.splits)

lemma sweep_paint_snd:
  "i \<le> length xs \<Longrightarrow>
   snd (sweep_paint f p i xs) = concat (map p (rev (List.map_filter f (take i xs))))"
proof (induction i arbitrary: xs)
  case 0
  then show ?case by (simp add: List.map_filter_simps)
next
  case (Suc i)
  then have i: "i < length xs" by simp
  then have tk: "take (Suc i) xs = take i xs @ [xs ! i]" by (simp add: take_Suc_conv_app_nth)
  show ?case
  proof (cases "f (xs ! i)")
    case None
    from i have "i \<le> length (splice1 i xs)" by simp
    from Suc.IH [OF this] None show ?thesis by (simp add: tk map_filter_def)
  next
    case (Some y)
    from i have "i \<le> length (xs[i := y])" by simp
    from Suc.IH [OF this] Some show ?thesis
      by (simp add: tk map_filter_def case_prod_beta)
  qed
qed

lemma sweep_paint_all:
  "sweep_paint f p (length xs) xs =
     (List.map_filter f xs, concat (map p (rev (List.map_filter f xs))))"
  using sweep_paint_fst [of f p "length xs" xs] sweep_paint_snd [of "length xs" xs f p]
  by (simp add: sweep_all prod_eq_iff)

section \<open>State and picture\<close>

lemma draw_full_state: "fst (draw_full cv now g) = draw cv g"
  by (simp add: draw_full_def draw_def sweep_paint_all sweep_all Let_def)

lemma draw_full_picture: "snd (draw_full cv now g) = scene cv now (draw cv g)"
  by (simp add: draw_full_def draw_def scene_def sweep_paint_all sweep_all Let_def)

lemma draw_full_eq: "draw_full cv now g = (draw cv g, scene cv now (draw cv g))"
  using draw_full_state [of cv now g] draw_full_picture [of cv now g] by (simp add: prod_eq_iff)

section \<open>Well-formed commands\<close>

lemma pulse_range: "0 \<le> 0.4 + sin x * 0.4" "(0.4 + sin x * 0.4) * 0.9 \<le> 1" for x :: real
proof -
  have s: "- 1 \<le> sin x" "sin x \<le> 1" by simp_all
  then show "0 \<le> 0.4 + sin x * 0.4" by linarith
  from s have "0.4 + sin x * 0.4 \<le> 1" by linarith
  then show "(0.4 + sin x * 0.4) * 0.9 \<le> 1" by simp
qed

lemma scale_pos: "0 < 1 + sin x * 0.4" for x :: real
  using sin_ge_minus_one [of x] by linarith

lemma sparkle_radius:
  "0 \<le> (8 + life * 8) * (1 + sin x * 0.4) \<longleftrightarrow> - 1 \<le> life" for life x :: real
proof -
  have "0 \<le> (8 + life * 8) * (1 + sin x * 0.4) \<longleftrightarrow> 0 \<le> 8 + life * 8"
    using scale_pos [of x] by (simp only: zero_le_mult_iff) linarith
  then show ?thesis by linarith
qed

lemma grid_wf: "list_all cmd_wf (grid_v cv)" "list_all cmd_wf (grid_h cv)"
  by (simp_all add: grid_v_def grid_h_def list_all_concat_map list.pred_True)

lemma paint_background_wf: "list_all cmd_wf (paint_background cv)"
  by (simp add: paint_background_def grid_wf hex_digit_def)

lemma paint_target_wf: "list_all cmd_wf (paint_target now t) \<longleftrightarrow> 0 \<le> t_radius t"
  using pulse_range [of "real_of_int now / 1000 * 3"]
  by (auto simp: paint_target_def Let_def hex_digit_def)

lemma paint_target_ok: "list_all cmd_ok (paint_target now t) \<longleftrightarrow> 0 \<le> t_radius t"
  by (auto simp: paint_target_def Let_def)

lemma star_loop_wf: "list_all cmd_wf (star_loop rot sz 0)"
  by (simp add: star_loop_closed)

lemma paint_sparkle_ok: "list_all cmd_ok (paint_sparkle now s) \<longleftrightarrow> - 1 \<le> s_life s"
  using sparkle_radius [of "s_life s" "real_of_int now / 1000 * 8 - s_angle s"]
    list_all_cmd_wf_ok [OF star_loop_wf]
  by (simp add: paint_sparkle_def sparkle_shape_def Let_def case_prod_beta split: option.splits)

lemma paint_sparkle_wf:
  "0 < s_life s \<Longrightarrow> s_life s \<le> 1 \<Longrightarrow> list_all cmd_wf (paint_sparkle now s)"
  using sparkle_radius [of "s_life s" "real_of_int now / 1000 * 8 - s_angle s"]
  by (simp add: paint_sparkle_def sparkle_shape_def Let_def case_prod_beta star_loop_wf
      hex_digit_def split: option.splits)

lemma text_style_wf: "list_all cmd_wf (text_style fb)"
  by (simp add: text_style_def hex_digit_def)

lemma paint_feedback_wf:
  "0 < f_opacity fb \<Longrightarrow> f_opacity fb \<le> 1 \<Longrightarrow> list_all cmd_wf (paint_feedback fb)"
  by (simp add: paint_feedback_def text_style_wf)

lemma paint_feedback_ok: "list_all cmd_ok (paint_feedback fb)"
  by (simp add: paint_feedback_def list_all_cmd_wf_ok [OF text_style_wf])

lemma scene_wf:
  assumes "game_inv g"
  shows "list_all cmd_wf (scene cv now g)"
proof -
  from assms have "list_all target_wf (targets g)" by (simp add: game_inv_defs)
  then have "list_all (\<lambda>t. list_all cmd_wf (paint_target now t)) (targets g)"
    by (rule list.pred_mono_strong) (simp add: paint_target_wf target_wf_radius_pos less_imp_le)
  moreover from assms have "list_all sparkle_visible (sparkles g)" by (simp add: game_inv_defs)
  then have "list_all (\<lambda>s. list_all cmd_wf (paint_sparkle now s)) (sparkles g)"
    by (rule list.pred_mono_strong) (simp add: paint_sparkle_wf sparkle_visible_def)
  moreover from assms have "list_all feedback_visible (feedback g)" by (simp add: game_inv_defs)
  then have "list_all (\<lambda>fb. list_all cmd_wf (paint_feedback fb)) (feedback g)"
    by (rule list.pred_mono_strong) (simp add: paint_feedback_wf feedback_visible_def)
  ultimately show ?thesis
    by (simp add: scene_def paint_background_wf list_all_concat_map)
qed

lemma scene_ok_iff:
  "list_all cmd_ok (scene cv now g) \<longleftrightarrow>
     list_all (\<lambda>t. 0 \<le> t_radius t) (targets g) \<and> list_all (\<lambda>s. - 1 \<le> s_life s) (sparkles g)"
  by (simp add: scene_def list_all_cmd_wf_ok [OF paint_background_wf] list_all_concat_map
      paint_target_ok paint_sparkle_ok paint_feedback_ok list.pred_True)

section \<open>A frame on the drawing context\<close>

lemma grid_plain: "list_all plain (grid_v cv)" "list_all plain (grid_h cv)"
  by (simp_all add: grid_v_def grid_h_def list_all_concat_map list.pred_True)

lemma paint_background_plain: "list_all plain (paint_background cv)"
  by (simp add: paint_background_def grid_plain)

lemma paint_target_plain: "list_all plain (paint_target now t)"
  by (simp add: paint_target_def Let_def)

lemma paint_feedback_plain: "list_all plain (paint_feedback fb)"
  by (simp add: paint_feedback_def text_style_def)

lemma sparkle_shape_unnested: "list_all unnested (sparkle_shape now sp)"
  by (simp add: sparkle_shape_def star_loop_closed Let_def case_prod_beta split: option.splits)

lemma paint_sparkle_balanced: "balanced (paint_sparkle now sp)"
  unfolding paint_sparkle_def by (auto intro!: balanced.intros simp: sparkle_shape_unnested)

lemma scene_balanced: "balanced (scene cv now g)"
  unfolding scene_def
  by (intro balanced_append balanced_concat_map all_plain_balanced paint_sparkle_balanced
      paint_background_plain paint_target_plain paint_feedback_plain) simp_all

lemma scene_frame: "frame_of (fold apply_cmd (scene cv now g) s) = frame_of s"
  by (rule balanced_frame) (rule scene_balanced)

lemma scene_alpha: "globalAlpha (now_pen (fold apply_cmd (scene cv now g) s)) = 1"
  by (simp add: scene_def set_pen_def)

lemma paint_feedback_shadow:
  "shadowColor (now_pen s) = Transparent \<Longrightarrow>
   shadowColor (now_pen (fold apply_cmd (paint_feedback fb) s)) = Transparent"
  by (simp add: paint_feedback_def text_style_def set_pen_def ink_def)

lemma scene_shadow: "shadowColor (now_pen (fold apply_cmd (scene cv now g) s)) = Transparent"
proof -
  have "shadowColor (now_pen (fold apply_cmd (concat (map paint_feedback fbs)) s')) = Transparent"
    if "shadowColor (now_pen s') = Transparent" for fbs s'
    by (rule fold_concat_map_inv [where P = "\<lambda>s. shadowColor (now_pen s) = Transparent"])
      (simp_all add: that paint_feedback_shadow)
  then show ?thesis by (simp add: scene_def set_pen_def)
qed

lemma scene_tidy: "frame_of s = ([], []) \<Longrightarrow> tidy (fold apply_cmd (scene cv now g) s)"
  by (simp add: tidy_iff scene_frame scene_alpha scene_shadow)

section \<open>The whole frame\<close>

lemma paint_frame_eq:
  "paint_frame cv d st now g =
     (advance_frame cv d st now g, scene cv now (advance_frame cv d st now g))"
  by (simp add: paint_frame_def advance_frame_def draw_full_eq Let_def)

text \<open>Every frame paints the top edge of the net, at the height the canvas of the loop gives.\<close>

lemma net_line_painted:
  "LineTo (CANVAS_WIDTH cv) (NET_Y cv) \<in> set (snd (paint_frame cv d st now g))"
  by (simp add: paint_frame_eq scene_def paint_background_def)

lemma sparkle_step_life: "sparkle_step s = Some s' \<Longrightarrow> 0 < s_life s'"
  by (auto simp: sparkle_step_def Let_def split: if_splits)

lemma scene_draw_ok_iff:
  "list_all cmd_ok (scene cv now (draw cv g)) \<longleftrightarrow> list_all (\<lambda>t. 0 \<le> t_radius t) (targets g)"
proof -
  have "list_all (\<lambda>s. - 1 \<le> s_life s) (List.map_filter sparkle_step (sparkles g))"
    by (rule list_all_map_filter) (auto dest: sparkle_step_life)
  then show ?thesis
    by (simp add: scene_ok_iff draw_targets draw_effects list.pred_map comp_def move_target_frame)
qed

lemma draw_full_runs:
  "run_cmds (snd (draw_full cv now g)) s =
     (if list_all (\<lambda>t. 0 \<le> t_radius t) (targets g)
      then Inr (fold apply_cmd (scene cv now (draw cv g)) s) else Inl IndexSizeError)"
  using run_cmds_ok [of "snd (draw_full cv now g)" s] run_cmds_error [of "snd (draw_full cv now g)" s]
  by (simp add: scene_draw_ok_iff draw_full_picture)

lemma paint_frame_runs:
  assumes "game_inv g"
  shows "run_cmds (snd (paint_frame cv d st now g)) s =
     Inr (fold apply_cmd (scene cv now (advance_frame cv d st now g)) s)"
  using assms by (simp add: paint_frame_eq run_cmds_wf scene_wf advance_frame_game_inv)

lemma paint_frame_wf: "game_inv g \<Longrightarrow> list_all cmd_wf (snd (paint_frame cv d st now g))"
  by (simp add: paint_frame_eq scene_wf advance_frame_game_inv)

lemma paint_frame_tidy:
  assumes "game_inv g" and "tidy s"
  shows "\<exists>s'. run_cmds (snd (paint_frame cv d st now g)) s = Inr s' \<and> tidy s'"
  using assms by (simp add: paint_frame_runs scene_tidy tidy_iff [of s])

lemma busy_inv: "game_inv busy"
  by (simp add: game_inv_defs fresh_gameRef_def target_wf_def feedback_visible_def
      sparkle_visible_def)

section \<open>Where and how often a frame paints\<close>

lemma sparkle_pos_distance:
  "(case sparkle_pos s of (x, y) \<Rightarrow> sqrt ((x - s_x s)\<^sup>2 + (y - s_y s)\<^sup>2)) =
     \<bar>s_speed s * (1 - s_life s)\<bar>"
proof -
  have "(cos a * d)\<^sup>2 + (sin a * d)\<^sup>2 = d\<^sup>2" for a d :: real
  proof -
    have "(cos a * d)\<^sup>2 + (sin a * d)\<^sup>2 = d\<^sup>2 * ((cos a)\<^sup>2 + (sin a)\<^sup>2)"
      by (simp only: power_mult_distrib distrib_left mult.commute)
    then show ?thesis by simp
  qed
  then show ?thesis by (simp add: sparkle_pos_def Let_def)
qed

lemma sparkle_travel:
  assumes "0 < s_life s" "s_life s \<le> 1" "0 \<le> s_speed s" "s_speed s < v"
  shows "\<bar>s_speed s * (1 - s_life s)\<bar> < v"
proof -
  from assms have "s_speed s * (1 - s_life s) \<le> s_speed s * 1"
    by (intro mult_left_mono) simp_all
  moreover from assms have "0 \<le> s_speed s * (1 - s_life s)" by simp
  ultimately show ?thesis using assms by simp
qed

lemma font_of_inject [simp]: "font_of a = font_of b \<longleftrightarrow> a = b"
  by (simp add: font_of_def)

lemma paint_feedback_fonts:
  "Font f \<in> set (paint_feedback fb) \<Longrightarrow> f = font_of ''48'' \<or> f = font_of ''32''"
  by (auto simp: paint_feedback_def text_style_def split: if_splits)

lemma scene_fonts:
  assumes "Font f \<in> set (scene cv now g)"
  shows "f = font_of ''48'' \<or> f = font_of ''32''"
proof -
  have "Font f \<notin> set (paint_background cv)"
    by (auto simp: paint_background_def grid_v_def grid_h_def)
  moreover have "Font f \<notin> set (paint_target now t)" for t
    by (simp add: paint_target_def Let_def)
  moreover have "Font f \<notin> set (paint_sparkle now sp)" for sp
    by (simp add: paint_sparkle_def sparkle_shape_def star_loop_closed Let_def case_prod_beta
        split: option.splits)
  ultimately obtain fb where "Font f \<in> set (paint_feedback fb)"
    using assms by (auto simp: scene_def)
  then show ?thesis by (rule paint_feedback_fonts)
qed

lemma inks_grid:
  "inks (grid_v cv) = nat \<lceil>CANVAS_WIDTH cv / 12\<rceil>"
  "inks (grid_h cv) = nat \<lceil>(CANVAS_HEIGHT cv - NET_Y cv) / 12\<rceil>"
  by (simp_all add: grid_v_def grid_h_def inks_concat comp_def sum_list_triv length_steps12)

lemma inks_painters:
  "inks (paint_target now t) = 6"
  "inks (paint_sparkle now sp) = 2"
  "inks (paint_feedback fb) = (if shown fb then 1 else 0)"
  by (simp_all add: paint_target_def paint_sparkle_def sparkle_shape_def star_loop_closed
      paint_feedback_def text_style_def shown_def Let_def case_prod_beta split: option.splits)

lemma sum_list_indicator: "(\<Sum>x\<leftarrow>xs. if P x then 1 else 0) = length (filter P xs)"
  by (induction xs) simp_all

lemma inks_scene:
  "inks (scene cv now g) =
     5 + nat \<lceil>CANVAS_WIDTH cv / 12\<rceil> + nat \<lceil>(CANVAS_HEIGHT cv - NET_Y cv) / 12\<rceil> +
     6 * length (targets g) + 2 * length (sparkles g) + length (filter shown (feedback g))"
  by (simp add: scene_def paint_background_def inks_grid inks_painters inks_concat comp_def
      sum_list_triv sum_list_indicator rev_filter [symmetric])

section \<open>Properties of the painting\<close>

text \<open>
  C17. The function \<^verbatim>\<open>draw\<close> with its painting changes the game variables exactly as its
  model without painting does, and what it paints is the picture of the state it
  leaves: the background, the targets in the order of their array, the sparkles that
  are still alive and then the feedback texts that are still visible, both from the
  last element of their array to the first.
\<close>

theorem draw_paints_the_state_it_leaves:
  "draw_full cv now g = (draw cv g, scene cv now (draw cv g))"
  by (rule draw_full_eq)

text \<open>
  C15. In a state that satisfies the invariant of the game variables, every command of a
  frame is well formed: no radius is negative, every alpha value and every colour stop
  lies between 0 and 1, every line width is positive and every colour, alignment and
  baseline is one the context knows. So the context neither ignores nor clamps a value.
\<close>

theorem frame_commands_well_formed:
  assumes "game_inv g"
  shows "list_all cmd_wf (snd (paint_frame cv d st now g))"
  using assms by (rule paint_frame_wf)

theorem frame_commands_well_formed_witness:
  "game_inv busy \<and> list_all cmd_wf (snd (paint_frame full_hd Hard 0 1000 busy))"
  using busy_inv frame_commands_well_formed [OF busy_inv, of full_hd Hard 0 1000]
  by (rule conjI)

text \<open>
  C16. The painting of \<^verbatim>\<open>draw\<close> raises \<^verbatim>\<open>IndexSizeError\<close> exactly when a listed target has a
  negative radius; otherwise it runs to its end. The sparkles and the feedback texts
  can never make it raise, whatever their fields hold.
\<close>

theorem draw_raises_iff_negative_radius:
  "run_cmds (snd (draw_full cv now g)) s =
     (if list_all (\<lambda>t. 0 \<le> t_radius t) (targets g)
      then Inr (fold apply_cmd (scene cv now (draw cv g)) s) else Inl IndexSizeError)"
  by (rule draw_full_runs)

theorem draw_raises_iff_negative_radius_witness:
  "run_cmds (snd (draw_full full_hd 0 shrunk)) fresh_ctx = Inl IndexSizeError"
  using draw_raises_iff_negative_radius [of full_hd 0 shrunk fresh_ctx] by simp

text \<open>
  A frame in a state that satisfies the invariant of the game variables, run on a
  drawing context that is tidy (nothing saved, no transformation, opaque, no shadow),
  does not raise and leaves the context tidy: every \<^verbatim>\<open>save\<close> is matched by its
  \<^verbatim>\<open>restore\<close>, and the alpha value and the shadow are reset at the end.
\<close>

theorem frame_leaves_context_tidy:
  assumes "game_inv g" and "tidy s"
  shows "\<exists>s'. run_cmds (snd (paint_frame cv d st now g)) s = Inr s' \<and> tidy s'"
  using assms by (rule paint_frame_tidy)

theorem frame_leaves_context_tidy_witness:
  "game_inv busy \<and> tidy fresh_ctx \<and>
   (\<exists>s'. run_cmds (snd (paint_frame full_hd Easy 0 1000 busy)) fresh_ctx = Inr s' \<and> tidy s')"
  using busy_inv tidy_fresh
    frame_leaves_context_tidy [OF busy_inv tidy_fresh, of full_hd Easy 0 1000]
  by (intro conjI)

text \<open>
  The number of shapes and texts a frame paints: five for the background and the edge
  of the net, one for every grid line (one line every 12 pixels across the width and
  across the height of the net), six for every target, two for every sparkle that is
  still alive and one for every feedback text that is still visible and is not the
  mark of a missed click.
\<close>

theorem shapes_painted_per_frame:
  "inks (snd (paint_frame cv d st now g)) =
     5 + nat \<lceil>CANVAS_WIDTH cv / 12\<rceil> + nat \<lceil>(CANVAS_HEIGHT cv - NET_Y cv) / 12\<rceil> +
     6 * length (targets g) + 2 * length (List.map_filter sparkle_step (sparkles g)) +
     length (filter shown (List.map_filter feedback_step (feedback g)))"
  by (simp add: paint_frame_eq inks_scene advance_frame_fields(2,3) advance_frame_target_count)

text \<open>
  Both loops that draw the grid of the net terminate, and they draw the lines at the
  multiples of 12: the vertical lines at \<open>x = 12 k\<close> for \<open>k\<close> below the width divided by
  12 and rounded up, the horizontal lines at \<open>y = NET_Y + 12 k\<close> for \<open>k\<close> below the
  height of the net divided by 12 and rounded up.
\<close>

theorem grid_loops_closed_form:
  "grid_v cv =
     concat (map (\<lambda>k. [BeginPath, MoveTo (12 * real k) (NET_Y cv),
                        LineTo (12 * real k) (CANVAS_HEIGHT cv), Stroke])
       [0..<nat \<lceil>CANVAS_WIDTH cv / 12\<rceil>]) \<and>
   grid_h cv =
     concat (map (\<lambda>k. [BeginPath, MoveTo 0 (NET_Y cv + 12 * real k),
                        LineTo (CANVAS_WIDTH cv) (NET_Y cv + 12 * real k), Stroke])
       [0..<nat \<lceil>(CANVAS_HEIGHT cv - NET_Y cv) / 12\<rceil>])"
  by (simp add: grid_v_def grid_h_def steps12_closed comp_def)

text \<open>
  A sparkle is painted at the distance \<open>speed * (1 - life)\<close> from the click that made
  it. With the speed between 2 and 4 that a burst gives its sparkles, a sparkle that is
  still alive is painted less than 4 pixels away from the click.
\<close>

theorem sparkle_stays_near_click:
  assumes "sparkle_visible s" and "2 \<le> s_speed s" and "s_speed s < 4"
  shows "(case sparkle_pos s of (x, y) \<Rightarrow> sqrt ((x - s_x s)\<^sup>2 + (y - s_y s)\<^sup>2)) < 4"
  using assms sparkle_travel [of s 4] by (simp add: sparkle_pos_distance sparkle_visible_def)

theorem sparkle_stays_near_click_witness:
  "sparkle_visible spark \<and> 2 \<le> s_speed spark \<and> s_speed spark < 4 \<and>
   (case sparkle_pos spark of (x, y) \<Rightarrow> sqrt ((x - s_x spark)\<^sup>2 + (y - s_y spark)\<^sup>2)) < 4"
  using sparkle_stays_near_click [of spark] by (simp add: sparkle_visible_def)

text \<open>
  C36. No frame ever selects the 36 pixel font: the yellow style for the text of a missed
  click (lines 496-500) is dead code, because the loop skips that text before it
  chooses a style (lines 478-480).
\<close>

theorem yellow_miss_style_is_never_used:
  "Font (font_of ''36'') \<notin> set (snd (draw_full cv now g))"
  using scene_fonts [of "font_of ''36''" cv now "draw cv g"] by (auto simp: draw_full_picture)

end
