(* ===== verification/Lifecycle.thy ===== *)
theory Lifecycle
  imports Screens Render
begin

text \<open>
  The component \<^verbatim>\<open>PaddleGame\<close> inside the browser: beside the state of theory \<open>Session\<close>
  it has the two references \<^verbatim>\<open>canvasRef\<close> and \<^verbatim>\<open>animationRef\<close> (lines 47-48 of
  \<^verbatim>\<open>src/app/page.tsx\<close>), the counter \<^verbatim>\<open>setRender\<close> increments (line 515), its two effects
  (lines 80-98 and 517-576) and what it asks of the browser: listeners for changes of
  the screen, animation frames, fullscreen display and the cursor of the canvas.

  The behaviour of the library and of the browser is taken from their documentation:
  an effect runs after the first render and after every render in which one of its
  dependencies has changed, its cleanup first; a request for an animation frame gets a
  fresh positive number and is served at most once; a cancelled request is never
  served. The reference \<^verbatim>\<open>canvasRef\<close> holds the canvas exactly while the rendered tree
  contains one, so it is \<open>has_canvas (view a)\<close>. Whether the canvas yields a drawing
  context is the field \<open>has_context\<close>, which no step changes.

  A \<open>signal\<close> is something the browser does to the component; \<open>lstep now l s\<close> runs the
  callback for it at clock reading \<open>now\<close>, then the render if the callback has called a
  setter of the state, then the effects that are due. The field \<open>rendered\<close> holds the
  tree of the last render: the heads-up display reads the score and the time from a
  reference, so between two renders the page can show older values than the state has.

  The stages of a component are ordered (\<open>Unborn\<close>, \<open>Alive\<close>, \<open>Gone\<close>), and no step goes
  back. The lemmas give the invariant \<open>life_inv\<close>, the refinement of the session, and
  the behaviour without a drawing context and after the teardown. What the page shows
  is the subject of theory \<open>Shown_Page\<close>, the run of the game loop of \<open>Game_Loop\<close>.
\<close>

section \<open>State and signals\<close>

datatype presence = Unborn | Alive | Gone

text \<open>A component is mounted once and torn down once: the three stages are ordered.\<close>

fun stage :: "presence \<Rightarrow> nat" where
  "stage Unborn = 0"
| "stage Alive = 1"
| "stage Gone = 2"

instantiation presence :: linorder
begin

definition less_eq_presence :: "presence \<Rightarrow> presence \<Rightarrow> bool" where
  "p \<le> q \<longleftrightarrow> stage p \<le> stage q"

definition less_presence :: "presence \<Rightarrow> presence \<Rightarrow> bool" where
  "p < q \<longleftrightarrow> stage p < stage q"

instance
proof
  fix x y z :: presence
  show "x < y \<longleftrightarrow> x \<le> y \<and> \<not> y \<le> x"
    by (auto simp: less_eq_presence_def less_presence_def)
  show "x \<le> x" by (simp add: less_eq_presence_def)
  show "x \<le> y \<Longrightarrow> y \<le> z \<Longrightarrow> x \<le> z" by (simp add: less_eq_presence_def)
  show "x \<le> y \<Longrightarrow> y \<le> x \<Longrightarrow> x = y"
    by (cases x; cases y) (simp_all add: less_eq_presence_def)
  show "x \<le> y \<or> y \<le> x" by (auto simp: less_eq_presence_def)
qed

end

record life =
  app_of :: app
  presence :: presence
  listening :: bool
  has_context :: bool
  animationRef :: "nat option"
  pending :: "nat list"
  next_request :: nat
  looping :: bool
  renders :: nat
  fullscreen_asked :: nat
  cursor :: string
  picture :: "cmd list"
  rendered :: node

datatype signal =
    Mount real real
  | Unmount
  | ScreenChange real real
  | User event
  | AnimationFrame nat
  | FullscreenRefused

definition initial_life :: "rng \<Rightarrow> int \<Rightarrow> bool \<Rightarrow> life" where
  "initial_life r t0 c =
     \<lparr> app_of = initial_app r t0, presence = Unborn, listening = False, has_context = c,
       animationRef = None, pending = [], next_request = 1, looping = False, renders = 0,
       fullscreen_asked = 0, cursor = [], picture = [], rendered = Text [] \<rparr>"

section \<open>Requests to the browser\<close>

definition requestAnimationFrame :: "life \<Rightarrow> life" where
  "requestAnimationFrame l =
     l\<lparr> animationRef := Some (next_request l), pending := pending l @ [next_request l],
        next_request := Suc (next_request l) \<rparr>"

definition cancelAnimationFrame :: "nat \<Rightarrow> life \<Rightarrow> life" where
  "cancelAnimationFrame n l = l\<lparr> pending := removeAll n (pending l) \<rparr>"

section \<open>The effects\<close>

text \<open>
  The first effect (lines 80-98) runs once, after the first render: it reads the size
  of the screen and registers the two listeners. Its cleanup removes them.
\<close>

definition mount :: "real \<Rightarrow> real \<Rightarrow> life \<Rightarrow> life" where
  "mount w h l =
     l\<lparr> presence := Alive, app_of := updateCanvasSize w h (app_of l), listening := True \<rparr>"

text \<open>
  The game-loop effect (lines 517-576) and its cleanup (lines 570-574). The body of
  \<^verbatim>\<open>gameLoop\<close> is \<open>frame\<close> below.
\<close>

definition loop_cleanup :: "life \<Rightarrow> life" where
  "loop_cleanup l =
     (if looping l then
        (case animationRef l of
           None \<Rightarrow> l
         | Some n \<Rightarrow> if n \<noteq> 0 then cancelAnimationFrame n l else l)\<lparr> looping := False \<rparr>
      else l)"

definition loop_effect :: "int \<Rightarrow> life \<Rightarrow> life" where
  "loop_effect now l =
     (if gameState (app_of l) \<noteq> Game then l
      else if \<not> has_canvas (view (app_of l)) then l
      else if \<not> has_context l then l
      else requestAnimationFrame (l\<lparr> app_of := start_loop now (app_of l), looping := True \<rparr>))"

text \<open>
  After a render: the game-loop effect is due when \<^verbatim>\<open>gameState\<close> or \<^verbatim>\<open>difficulty\<close> differ
  from their values \<open>old\<close> at the render before (line 576).
\<close>

definition commit :: "int \<Rightarrow> app \<Rightarrow> life \<Rightarrow> life" where
  "commit now old l =
     (if gameState (app_of l) \<noteq> gameState old \<or> difficulty (app_of l) \<noteq> difficulty old
      then loop_effect now (loop_cleanup l) else l)"

definition unmount :: "life \<Rightarrow> life" where
  "unmount l = (loop_cleanup l)\<lparr> presence := Gone, listening := False \<rparr>"

section \<open>The callbacks\<close>

text \<open>
  The callback of an element of the screen, without the effects that follow it. The
  callbacks of the canvas return at once when \<^verbatim>\<open>canvasRef\<close> is empty (lines 187-188 and
  268-269).
\<close>

fun callback :: "int \<Rightarrow> life \<Rightarrow> event \<Rightarrow> life option" where
  "callback now l (SelectDifficulty d) =
     map_option (\<lambda>a. l\<lparr> app_of := a, fullscreen_asked := Suc (fullscreen_asked l) \<rparr>)
       (initializeGame d now (app_of l))"
| "callback now l PlayAgain =
     (case gameStats (app_of l) of
        None \<Rightarrow> Some l
      | Some st \<Rightarrow>
          map_option (\<lambda>a. l\<lparr> app_of := a, fullscreen_asked := Suc (fullscreen_asked l) \<rparr>)
            (initializeGame (mode st) now (app_of l)))"
| "callback now l BackToMenu = Some (l\<lparr> app_of := (app_of l)\<lparr> gameState := Menu \<rparr> \<rparr>)"
| "callback now l (Click x y) =
     (if \<not> has_canvas (view (app_of l)) then Some l
      else map_option (\<lambda>a. l\<lparr> app_of := a \<rparr>) (click now x y (app_of l)))"
| "callback now l (MouseMove x y) =
     (if \<not> has_canvas (view (app_of l)) then Some l
      else Some (l\<lparr> app_of := (app_of l)\<lparr> current := handleMouseMove x y (current (app_of l)) \<rparr>,
                     cursor := ''crosshair'' \<rparr>))"
| "callback now l e = Some l"

text \<open>
  One run of \<^verbatim>\<open>gameLoop\<close> (lines 530-566), serving the request \<open>n\<close>: the frame is
  computed and painted, the counter of line 546 is incremented, and either the next
  frame is requested or the session ends.
\<close>

definition frame :: "int \<Rightarrow> nat \<Rightarrow> life \<Rightarrow> life" where
  "frame now n l =
     (let a = app_of l;
          cmds = snd (paint_frame (loopCanvas a) (difficulty a) (startTime a) now (current a));
          a' = gameLoop now a;
          l' = l\<lparr> pending := removeAll n (pending l), app_of := a', picture := cmds,
                  renders := Suc (renders l) \<rparr>
      in if timeLeft (current a') > 0 then requestAnimationFrame l' else l')"

section \<open>Steps\<close>

fun react :: "int \<Rightarrow> life \<Rightarrow> signal \<Rightarrow> life option" where
  "react now l (Mount w h) = Some (if presence l = Unborn then mount w h l else l)"
| "react now l Unmount = Some (if presence l = Alive then unmount l else l)"
| "react now l (ScreenChange w h) =
     Some (if listening l then l\<lparr> app_of := updateCanvasSize w h (app_of l) \<rparr> else l)"
| "react now l (User e) =
     (if presence l = Alive \<and> offers (view (app_of l)) e then callback now l e else Some l)"
| "react now l (AnimationFrame n) = Some (if n \<in> set (pending l) then frame now n l else l)"
| "react now l FullscreenRefused = Some l"

text \<open>
  The component is rendered again when a callback has called one of the setters of its
  state: \<^verbatim>\<open>setCanvasSize\<close> (line 83), \<^verbatim>\<open>setDifficulty\<close> and \<^verbatim>\<open>setGameState\<close> (lines 110-112,
  716 and 721), \<^verbatim>\<open>setGameStats\<close> (line 552) and \<^verbatim>\<open>setRender\<close> (line 546). The callbacks of
  the canvas change \<^verbatim>\<open>gameRef\<close> only, which is a reference: no render follows them.
\<close>

fun sets_state :: "event \<Rightarrow> bool" where
  "sets_state (SelectDifficulty d) = True"
| "sets_state PlayAgain = True"
| "sets_state BackToMenu = True"
| "sets_state e = False"

fun rerenders :: "life \<Rightarrow> signal \<Rightarrow> bool" where
  "rerenders l (Mount w h) = (presence l = Unborn)"
| "rerenders l (ScreenChange w h) = listening l"
| "rerenders l (User e) = (presence l = Alive \<and> offers (view (app_of l)) e \<and> sets_state e)"
| "rerenders l (AnimationFrame n) = (n \<in> set (pending l))"
| "rerenders l s = False"

text \<open>
  One step: the callback, then the render if one is due, which shows the state as the
  callback left it, then the effects, compared with the state of the render before.
\<close>

definition settle :: "int \<Rightarrow> life \<Rightarrow> signal \<Rightarrow> life \<Rightarrow> life" where
  "settle now l s l' =
     (commit now (app_of l) l')
       \<lparr> app_of := (app_of (commit now (app_of l) l'))\<lparr> clock := now \<rparr>,
         rendered := (if rerenders l s then view (app_of l') else rendered l) \<rparr>"

definition lstep :: "int \<Rightarrow> life \<Rightarrow> signal \<Rightarrow> life option" where
  "lstep now l s = map_option (settle now l s) (react now l s)"

inductive lreachable :: "life \<Rightarrow> bool" where
  lreach_start: "rng_ok r \<Longrightarrow> lreachable (initial_life r t0 c)"
| lreach_step: "lreachable l \<Longrightarrow> clock (app_of l) \<le> now \<Longrightarrow> lstep now l s = Some l' \<Longrightarrow> lreachable l'"

fun lrun :: "life \<Rightarrow> (int \<times> signal) list \<Rightarrow> life option" where
  "lrun l [] = Some l"
| "lrun l ((now, s) # ss) = (case lstep now l s of None \<Rightarrow> None | Some l' \<Rightarrow> lrun l' ss)"

section \<open>The session a life shows\<close>

text \<open>
  The event of theory \<open>Session\<close> that a signal is. A signal without effect on the
  session is a change of the screen to the size it has.
\<close>

definition idle :: "app \<Rightarrow> event" where
  "idle a = Resize (width (canvasSize a)) (height (canvasSize a))"

fun event_of :: "life \<Rightarrow> signal \<Rightarrow> event" where
  "event_of l (Mount w h) = (if presence l = Unborn then Resize w h else idle (app_of l))"
| "event_of l Unmount = idle (app_of l)"
| "event_of l (ScreenChange w h) = (if listening l then Resize w h else idle (app_of l))"
| "event_of l (User e) =
     (if presence l = Alive \<and> offers (view (app_of l)) e then e else idle (app_of l))"
| "event_of l (AnimationFrame n) = (if n \<in> set (pending l) then Frame else idle (app_of l))"
| "event_of l FullscreenRefused = idle (app_of l)"

section \<open>The invariant of a life\<close>

text \<open>
  \<open>refs_ok\<close>: the only request that can be waiting is the one \<^verbatim>\<open>animationRef\<close> holds.
  \<open>life_inv\<close> adds that a request is waiting exactly while the game-loop effect is set
  up, which is exactly while the component is mounted, has a drawing context and shows
  the game; and that the listeners are registered exactly while it is mounted.
\<close>

definition refs_ok :: "life \<Rightarrow> bool" where
  "refs_ok l \<longleftrightarrow>
     0 < next_request l \<and>
     (case animationRef l of
        None \<Rightarrow> pending l = []
      | Some n \<Rightarrow> 0 < n \<and> n < next_request l \<and> (pending l = [] \<or> pending l = [n]))"

definition life_inv :: "life \<Rightarrow> bool" where
  "life_inv l \<longleftrightarrow>
     refs_ok l \<and>
     (looping l \<longleftrightarrow> presence l = Alive \<and> has_context l \<and> gameState (app_of l) = Game) \<and>
     (looping l \<longleftrightarrow> pending l \<noteq> []) \<and>
     (listening l \<longleftrightarrow> presence l = Alive) \<and>
     (presence l = Unborn \<longrightarrow> gameState (app_of l) = Menu)"

text \<open>\<open>same_refs l l'\<close>: the two states differ at most in what a callback of the screen changes.\<close>

definition same_refs :: "life \<Rightarrow> life \<Rightarrow> bool" where
  "same_refs l l' \<longleftrightarrow>
     animationRef l' = animationRef l \<and> pending l' = pending l \<and>
     next_request l' = next_request l \<and> looping l' = looping l \<and>
     presence l' = presence l \<and> listening l' = listening l \<and>
     has_context l' = has_context l \<and> picture l' = picture l \<and> renders l' = renders l \<and>
     rendered l' = rendered l"

text \<open>
  \<open>stalled l\<close>: no frame was ever requested or painted, the clock of the game shows its
  60 seconds and the end screen has not been reached.
\<close>

definition stalled :: "life \<Rightarrow> bool" where
  "stalled l \<longleftrightarrow>
     pending l = [] \<and> picture l = [] \<and> renders l = 0 \<and> gameState (app_of l) \<noteq> End \<and>
     timeLeft (current (app_of l)) = 60"

text \<open>
  Sample states: the component after it was mounted on a screen of 1920 by 1080 and an
  easy game was started at clock reading 1000, with and without a drawing context, and
  the former after it was unmounted.
\<close>

abbreviation playing :: life where
  "playing \<equiv>
     \<lparr> app_of = started, presence = Alive, listening = True, has_context = True,
       animationRef = Some 1, pending = [1], next_request = 2, looping = True, renders = 0,
       fullscreen_asked = 1, cursor = [], picture = [],
       rendered = view started \<rparr>"

abbreviation blind :: life where
  "blind \<equiv>
     \<lparr> app_of = started\<lparr> startTime := 0, loopCanvas := initial_canvas \<rparr>, presence = Alive,
       listening = True, has_context = False, animationRef = None, pending = [],
       next_request = 1, looping = False, renders = 0, fullscreen_asked = 1, cursor = [],
       picture = [], rendered = view started \<rparr>"

abbreviation torn_down :: life where
  "torn_down \<equiv>
     \<lparr> app_of = started\<lparr> clock := 2000 \<rparr>, presence = Gone, listening = False,
       has_context = True, animationRef = Some 1, pending = [], next_request = 2,
       looping = False, renders = 0, fullscreen_asked = 1, cursor = [], picture = [],
       rendered = view started \<rparr>"

section \<open>Requests and effects\<close>

lemma request_fields [simp]:
  "app_of (requestAnimationFrame l) = app_of l"
  "presence (requestAnimationFrame l) = presence l"
  "listening (requestAnimationFrame l) = listening l"
  "has_context (requestAnimationFrame l) = has_context l"
  "looping (requestAnimationFrame l) = looping l"
  "picture (requestAnimationFrame l) = picture l"
  "rendered (requestAnimationFrame l) = rendered l"
  "pending (requestAnimationFrame l) = pending l @ [next_request l]"
  "animationRef (requestAnimationFrame l) = Some (next_request l)"
  "next_request (requestAnimationFrame l) = Suc (next_request l)"
  by (simp_all add: requestAnimationFrame_def)

lemma loop_cleanup_fields [simp]:
  "app_of (loop_cleanup l) = app_of l"
  "presence (loop_cleanup l) = presence l"
  "listening (loop_cleanup l) = listening l"
  "has_context (loop_cleanup l) = has_context l"
  "picture (loop_cleanup l) = picture l"
  "rendered (loop_cleanup l) = rendered l"
  "looping (loop_cleanup l) = False"
  "animationRef (loop_cleanup l) = animationRef l"
  "next_request (loop_cleanup l) = next_request l"
  by (simp_all add: loop_cleanup_def cancelAnimationFrame_def split: option.splits)

lemma loop_cleanup_pending:
  "refs_ok l \<Longrightarrow> pending (loop_cleanup l) = (if looping l then [] else pending l)"
  by (auto simp: loop_cleanup_def cancelAnimationFrame_def refs_ok_def split: option.splits)

lemma loop_effect_fields [simp]:
  "presence (loop_effect now l) = presence l"
  "listening (loop_effect now l) = listening l"
  "has_context (loop_effect now l) = has_context l"
  "picture (loop_effect now l) = picture l"
  "rendered (loop_effect now l) = rendered l"
  "gameState (app_of (loop_effect now l)) = gameState (app_of l)"
  by (simp_all add: loop_effect_def start_loop_def)

lemma loop_effect_app:
  "app_of (loop_effect now l) =
     (if gameState (app_of l) = Game \<and> has_context l then start_loop now (app_of l)
      else app_of l)"
  by (simp add: loop_effect_def has_canvas_view)

lemma commit_fields [simp]:
  "presence (commit now old l) = presence l"
  "listening (commit now old l) = listening l"
  "has_context (commit now old l) = has_context l"
  "picture (commit now old l) = picture l"
  "rendered (commit now old l) = rendered l"
  "gameState (app_of (commit now old l)) = gameState (app_of l)"
  by (simp_all add: commit_def)

lemma commit_same:
  "gameState (app_of l) = gameState old \<Longrightarrow> difficulty (app_of l) = difficulty old \<Longrightarrow>
   commit now old l = l"
  by (simp add: commit_def)

lemma commit_app:
  "app_of (commit now old l) =
     (if (gameState (app_of l) \<noteq> gameState old \<or> difficulty (app_of l) \<noteq> difficulty old) \<and>
         gameState (app_of l) = Game \<and> has_context l
      then start_loop now (app_of l) else app_of l)"
  by (auto simp: commit_def loop_effect_app)

text \<open>Whatever the callback left behind, the effects set up the loop as the screen needs it.\<close>

lemma commit_changed:
  assumes "refs_ok l" and "presence l = Alive" and "listening l"
    and "looping l \<or> pending l = []"
    and "gameState (app_of l) \<noteq> gameState old \<or> difficulty (app_of l) \<noteq> difficulty old"
  shows "life_inv (commit now old l)"
proof -
  let ?c = "loop_cleanup l"
  from assms have c: "refs_ok ?c" "pending ?c = []"
    by (auto simp: refs_ok_def loop_cleanup_pending [OF assms(1)] split: option.splits)
  show ?thesis
  proof (cases "gameState (app_of l) = Game \<and> has_context l")
    case True
    with assms c have "commit now old l =
        requestAnimationFrame (?c\<lparr> app_of := start_loop now (app_of l), looping := True \<rparr>)"
      by (simp add: commit_def loop_effect_def has_canvas_view)
    with assms c True show ?thesis
      by (simp add: life_inv_def refs_ok_def start_loop_def split: option.splits)
  next
    case False
    with assms have "commit now old l = ?c" by (auto simp: commit_def loop_effect_def)
    with assms c False show ?thesis by (auto simp: life_inv_def)
  qed
qed

lemma life_inv_clock [simp]:
  "life_inv (l\<lparr> app_of := (app_of l)\<lparr> clock := now \<rparr> \<rparr>) = life_inv l"
  by (simp add: life_inv_def refs_ok_def split: option.splits)

lemma life_inv_rendered [simp]: "life_inv (l\<lparr> rendered := n \<rparr>) = life_inv l"
  by (simp add: life_inv_def refs_ok_def split: option.splits)

lemma settle_fields [simp]:
  "app_of (settle now l s l1) = (app_of (commit now (app_of l) l1))\<lparr> clock := now \<rparr>"
  "rendered (settle now l s l1) = (if rerenders l s then view (app_of l1) else rendered l)"
  "presence (settle now l s l1) = presence l1"
  "listening (settle now l s l1) = listening l1"
  "has_context (settle now l s l1) = has_context l1"
  "picture (settle now l s l1) = picture l1"
  "pending (settle now l s l1) = pending (commit now (app_of l) l1)"
  "animationRef (settle now l s l1) = animationRef (commit now (app_of l) l1)"
  "next_request (settle now l s l1) = next_request (commit now (app_of l) l1)"
  "looping (settle now l s l1) = looping (commit now (app_of l) l1)"
  "life_inv (settle now l s l1) = life_inv (commit now (app_of l) l1)"
  by (simp_all add: settle_def)

lemma settle_counters [simp]:
  "renders (settle now l s l1) = renders l1"
  "fullscreen_asked (settle now l s l1) = fullscreen_asked l1"
  "cursor (settle now l s l1) = cursor l1"
  by (simp_all add: settle_def commit_def loop_effect_def loop_cleanup_def
      requestAnimationFrame_def cancelAnimationFrame_def split: option.splits)

lemma initial_life_inv: "life_inv (initial_life r t0 c)"
  by (simp add: life_inv_def refs_ok_def initial_life_def initial_app_def)

section \<open>Every step keeps the invariant\<close>

lemma commit_self [simp]: "commit now (app_of l) l = l"
  by (simp add: commit_def)

lemma life_inv_same:
  assumes "same_refs l l1" and "gameState (app_of l1) = gameState (app_of l)"
  shows "life_inv l1 \<longleftrightarrow> life_inv l"
  using assms by (simp add: life_inv_def refs_ok_def same_refs_def split: option.splits)

lemma commit_inv:
  assumes "life_inv l" and "same_refs l l1"
    and "presence l = Alive \<or>
         gameState (app_of l1) = gameState (app_of l) \<and> difficulty (app_of l1) = difficulty (app_of l)"
  shows "life_inv (commit now (app_of l) l1)"
proof (cases "gameState (app_of l1) = gameState (app_of l) \<and>
    difficulty (app_of l1) = difficulty (app_of l)")
  case True
  with assms(1,2) show ?thesis by (simp add: commit_same life_inv_same)
next
  case False
  with assms(3) have "presence l = Alive" by simp
  with assms(1,2) False show ?thesis
    by (intro commit_changed) (auto simp: life_inv_def refs_ok_def same_refs_def split: option.splits)
qed

lemma callback_same_refs: "callback now l e = Some l1 \<Longrightarrow> same_refs l l1"
  by (cases e) (auto simp: same_refs_def split: option.splits if_splits)

lemma frame_inv:
  assumes "life_inv l" and "n \<in> set (pending l)"
  shows "life_inv (commit now (app_of l) (frame now n l))"
proof -
  from assms have l: "pending l = [n]" "animationRef l = Some n" "looping l" "presence l = Alive"
      "has_context l" "gameState (app_of l) = Game" "listening l" "0 < n" "n < next_request l"
    by (auto simp: life_inv_def refs_ok_def split: option.splits)
  let ?a = "gameLoop now (app_of l)"
  show ?thesis
  proof (cases "timeLeft (current ?a) > 0")
    case True
    with l have "gameState ?a = Game" by (simp add: gameLoop_deps)
    with True l have "commit now (app_of l) (frame now n l) = frame now n l"
      by (simp add: frame_def Let_def commit_same gameLoop_deps(1))
    moreover from True l \<open>gameState ?a = Game\<close> have "life_inv (frame now n l)"
      by (simp add: frame_def Let_def life_inv_def refs_ok_def split: option.splits)
    ultimately show ?thesis by simp
  next
    case False
    with l have "gameState ?a = End" by (simp add: gameLoop_deps)
    with False l show ?thesis
      by (intro commit_changed) (simp_all add: frame_def Let_def refs_ok_def split: option.splits)
  qed
qed

lemma mount_inv: "life_inv l \<Longrightarrow> presence l = Unborn \<Longrightarrow> life_inv (mount w h l)"
  by (auto simp: life_inv_def refs_ok_def mount_def updateCanvasSize_def split: option.splits)

lemma unmount_inv: "life_inv l \<Longrightarrow> life_inv (unmount l)"
  by (auto simp: life_inv_def unmount_def loop_cleanup_pending refs_ok_def split: option.splits)

lemma resize_inv: "life_inv (l\<lparr> app_of := updateCanvasSize w h (app_of l) \<rparr>) = life_inv l"
  by (rule life_inv_same) (simp_all add: same_refs_def updateCanvasSize_def)

lemma react_inv:
  assumes "life_inv l" and "react now l s = Some l1"
  shows "life_inv (commit now (app_of l) l1)"
proof (cases s)
  case (Mount w h)
  have "commit now (app_of l) (mount w h l) = mount w h l"
    by (rule commit_same) (simp_all add: mount_def updateCanvasSize_def)
  with assms Mount show ?thesis by (auto simp: mount_inv)
next
  case Unmount
  have "commit now (app_of l) (unmount l) = unmount l"
    by (rule commit_same) (simp_all add: unmount_def)
  with assms Unmount show ?thesis by (auto simp: unmount_inv)
next
  case (ScreenChange w h)
  let ?l = "l\<lparr> app_of := updateCanvasSize w h (app_of l) \<rparr>"
  have "commit now (app_of l) ?l = ?l"
    by (rule commit_same) (simp_all add: updateCanvasSize_def)
  with assms ScreenChange show ?thesis by (auto simp: resize_inv)
next
  case (User e)
  show ?thesis
  proof (cases "presence l = Alive \<and> offers (view (app_of l)) e")
    case True
    with assms User have "callback now l e = Some l1" by simp
    from commit_inv [OF assms(1) callback_same_refs [OF this]] True show ?thesis by simp
  next
    case False
    with assms User show ?thesis by auto
  qed
next
  case (AnimationFrame n)
  with assms show ?thesis by (auto simp: frame_inv)
next
  case FullscreenRefused
  with assms show ?thesis by auto
qed

lemma lstep_inv: "life_inv l \<Longrightarrow> lstep now l s = Some l' \<Longrightarrow> life_inv l'"
  by (auto simp: lstep_def dest: react_inv)

lemma lreachable_inv: "lreachable l \<Longrightarrow> life_inv l"
  by (induction rule: lreachable.induct) (auto intro: initial_life_inv lstep_inv)

section \<open>Every step is a step of the session\<close>

lemma handle_idle [simp]: "handle now a (idle a) = Some a"
  by (simp add: idle_def updateCanvasSize_def)

lemma frame_app [simp]: "app_of (frame now n l) = gameLoop now (app_of l)"
  by (simp add: frame_def Let_def)

lemma frame_has_context [simp]: "has_context (frame now n l) = has_context l"
  by (simp add: frame_def Let_def)

lemma callback_refines:
  assumes "has_context l" and "offers (view (app_of l)) e"
  shows "map_option (\<lambda>l1. app_of (commit now (app_of l) l1)) (callback now l e) =
     handle now (app_of l) e"
proof (cases e)
  case (SelectDifficulty d)
  with assms show ?thesis
    by (cases "initializeGame d now (app_of l)")
      (auto simp: offers_view commit_app dest: initializeGame_deps)
next
  case PlayAgain
  with assms obtain st where st: "gameStats (app_of l) = Some st" "gameState (app_of l) = End"
    by (auto simp: offers_view)
  with assms PlayAgain show ?thesis
    by (cases "initializeGame (mode st) now (app_of l)")
      (auto simp: commit_app dest: initializeGame_deps)
next
  case BackToMenu
  with assms show ?thesis by (auto simp: offers_view commit_app)
next
  case (Click x y)
  with assms show ?thesis
    by (cases "click now x y (app_of l)")
      (auto simp: offers_view has_canvas_view commit_app dest: click_deps)
next
  case (MouseMove x y)
  with assms show ?thesis by (auto simp: offers_view has_canvas_view commit_app)
next
  case (Resize w h)
  with assms show ?thesis by (simp add: offers_view)
next
  case Frame
  with assms show ?thesis by (simp add: offers_view)
qed

lemma react_refines:
  assumes "life_inv l" and "has_context l"
  shows "map_option (\<lambda>l1. app_of (commit now (app_of l) l1)) (react now l s) =
     handle now (app_of l) (event_of l s)"
proof (cases s)
  case (User e)
  with assms callback_refines [of l e now] show ?thesis by simp
next
  case (AnimationFrame n)
  show ?thesis
  proof (cases "n \<in> set (pending l)")
    case True
    with assms have "gameState (app_of l) = Game" by (auto simp: life_inv_def)
    with True AnimationFrame show ?thesis by (simp add: commit_app gameLoop_deps)
  next
    case False
    with AnimationFrame show ?thesis by simp
  qed
qed (simp_all add: commit_app mount_def unmount_def updateCanvasSize_def)

lemma lstep_refines:
  assumes "life_inv l" and "has_context l"
  shows "map_option app_of (lstep now l s) = step now (app_of l) (event_of l s)"
  using react_refines [OF assms, of now s]
  by (simp add: lstep_def step_def option.map_comp comp_def)
    (metis (no_types, lifting) option.map_comp option.map_cong comp_apply)

lemma lstep_has_context: "lstep now l s = Some l' \<Longrightarrow> has_context l' = has_context l"
  by (cases s) (auto simp: lstep_def mount_def unmount_def dest: callback_same_refs
      simp: same_refs_def split: if_splits)

lemma lreachable_reachable:
  assumes "lreachable l" and "has_context l"
  shows "reachable (app_of l)"
  using assms
proof (induction rule: lreachable.induct)
  case (lreach_start r t0 c)
  then show ?case by (simp add: initial_life_def reach_start)
next
  case (lreach_step l now s l')
  from lreach_step.prems lstep_has_context [OF lreach_step.hyps(3)] have c: "has_context l"
    by simp
  from lstep_refines [OF lreachable_inv [OF lreach_step.hyps(1)] c, of now s] lreach_step.hyps(3)
  have "step now (app_of l) (event_of l s) = Some (app_of l')" by simp
  with lreach_step.IH [OF c] lreach_step.hyps(2) show ?case by (rule reach_step)
qed

section \<open>Runs\<close>

lemma lrun_reachable:
  "lreachable l \<Longrightarrow> sorted (clock (app_of l) # map fst ss) \<Longrightarrow> lrun l ss = Some l' \<Longrightarrow>
   lreachable l'"
proof (induction ss arbitrary: l)
  case Nil
  then show ?case by simp
next
  case (Cons p ss)
  obtain now s where p: "p = (now, s)" by (cases p)
  with Cons.prems obtain l1 where l1: "lstep now l s = Some l1" "lrun l1 ss = Some l'"
    by (auto split: option.splits)
  from l1(1) have c: "clock (app_of l1) = now" by (auto simp: lstep_def)
  from Cons.prems p l1(1) have "lreachable l1" by (auto intro: lreach_step)
  moreover from Cons.prems p c have "sorted (clock (app_of l1) # map fst ss)" by simp
  ultimately show ?case using l1(2) by (rule Cons.IH)
qed

lemma lrun_append:
  "lrun l (ss @ ts) = (case lrun l ss of None \<Rightarrow> None | Some l' \<Rightarrow> lrun l' ts)"
  by (induction ss arbitrary: l) (auto split: option.splits)

lemmas life_eval = lstep_def settle_def mount_def unmount_def commit_def loop_effect_def loop_cleanup_def
  requestAnimationFrame_def cancelAnimationFrame_def initial_life_def initial_app_def
  updateCanvasSize_def start_loop_def initializeGame_def offers_view has_canvas_view

lemma demo_life:
  "lrun (initial_life demo_rng 0 True) [(0, Mount 1920 1080), (1000, User (SelectDifficulty Easy))] =
     Some playing"
  by (simp add: life_eval demo_spawn1 demo_spawn2 del: One_nat_def) (rule view_cong; simp)

lemma demo_blind:
  "lrun (initial_life demo_rng 0 False) [(0, Mount 1920 1080), (1000, User (SelectDifficulty Easy))] =
     Some blind"
  by (simp add: life_eval demo_spawn1 demo_spawn2 del: One_nat_def) (rule view_cong; simp)

lemma demo_unmount: "lstep 2000 playing Unmount = Some torn_down"
  by (simp add: life_eval del: One_nat_def)

lemma playing_reachable: "lreachable playing"
  by (rule lrun_reachable [OF lreach_start _ demo_life]) (simp_all add: initial_life_def)

lemma blind_reachable: "lreachable blind"
  by (rule lrun_reachable [OF lreach_start _ demo_blind]) (simp_all add: initial_life_def)

lemma torn_down_reachable: "lreachable torn_down"
  using playing_reachable _ demo_unmount by (rule lreach_step) simp

section \<open>Without a drawing context, after the teardown, and the pictures\<close>

lemma commit_blind: "\<not> has_context l \<Longrightarrow> \<not> looping l \<Longrightarrow> commit now old l = l"
  by (simp add: commit_def loop_effect_def loop_cleanup_def)

lemma click_timeLeft:
  assumes "click now x y a = Some a'"
  shows "timeLeft (current a') = timeLeft (current a)"
proof -
  from assms obtain g r where c:
      "handleCanvasClick (canvasSize a) (gameState a) (difficulty a) now x y (current a, rnd a) =
         Some (g, r)" "a' = a\<lparr> current := g, rnd := r \<rparr>"
    by (rule click_SomeE)
  from c(1) have "timeLeft g = timeLeft (current a)"
  proof (cases rule: click_cases)
    case (hit i)
    from addNewTarget_counters(7) [OF hit(4)] show ?thesis by simp
  qed simp_all
  with c(2) show ?thesis by simp
qed

lemma initializeGame_timeLeft:
  assumes "initializeGame d now a = Some a'"
  shows "timeLeft (current a') = 60"
  using assms
proof (rule initializeGame_SomeE)
  fix g1 r1 g2 r2
  assume "addNewTarget (canvasSize a) (difficulty a) now (Some d) (fresh_gameRef, rnd a) = Some (g1, r1)"
    and "addNewTarget (canvasSize a) (difficulty a) now (Some d) (g1, r1) = Some (g2, r2)"
    and "a' = a\<lparr> difficulty := d, current := g2, rnd := r2, gameState := Game \<rparr>"
  then show ?thesis
    using addNewTarget_counters(7) [of _ _ _ _ fresh_gameRef "rnd a" g1 r1]
      addNewTarget_counters(7) [of _ _ _ _ g1 r1 g2 r2]
    by (simp add: fresh_gameRef_def)
qed

lemma callback_stalled:
  assumes "callback now l e = Some l1" and "offers (view (app_of l)) e" and "stalled l"
  shows "stalled l1"
proof -
  from callback_same_refs [OF assms(1)] assms(3)
  have refs: "pending l1 = []" "picture l1 = []" "renders l1 = 0"
    by (simp_all add: same_refs_def stalled_def)
  from assms have "gameState (app_of l1) \<noteq> End \<and> timeLeft (current (app_of l1)) = 60"
    by (cases e)
      (auto simp: stalled_def offers_view handleMouseMove_def
        dest: initializeGame_deps initializeGame_timeLeft click_deps click_timeLeft
        split: option.splits if_splits)
  with refs show ?thesis by (simp add: stalled_def)
qed

lemma lstep_stalled:
  assumes "life_inv l" and "\<not> has_context l" and "stalled l" and "lstep now l s = Some l'"
  shows "stalled l'"
proof -
  from assms(4) obtain l1 where l1: "react now l s = Some l1"
      "l' = settle now l s l1"
    by (auto simp: lstep_def)
  from assms(1,2) have nl: "\<not> looping l" by (simp add: life_inv_def)
  have "stalled l1 \<and> \<not> has_context l1 \<and> \<not> looping l1"
  proof (cases s)
    case (User e)
    show ?thesis
    proof (cases "presence l = Alive \<and> offers (view (app_of l)) e")
      case True
      with l1(1) User have c: "callback now l e = Some l1" by simp
      from callback_stalled [OF c _ assms(3)] callback_same_refs [OF c] True assms(2) nl
      show ?thesis by (simp add: same_refs_def)
    next
      case False
      with l1(1) User assms(2,3) nl show ?thesis by auto
    qed
  qed (use l1(1) assms(2,3) nl in
      \<open>auto simp: stalled_def mount_def unmount_def updateCanvasSize_def loop_cleanup_def
        split: if_splits\<close>)
  then show ?thesis by (simp add: l1(2) commit_blind stalled_def)
qed

lemma lreachable_stalled: "lreachable l \<Longrightarrow> \<not> has_context l \<Longrightarrow> stalled l"
proof (induction rule: lreachable.induct)
  case (lreach_start r t0 c)
  then show ?case by (simp add: stalled_def initial_life_def initial_app_def fresh_gameRef_def)
next
  case (lreach_step l now s l')
  from lreach_step.prems lstep_has_context [OF lreach_step.hyps(3)] have c: "\<not> has_context l"
    by simp
  from lreachable_inv [OF lreach_step.hyps(1)] c lreach_step.IH [OF c] lreach_step.hyps(3)
  show ?case by (rule lstep_stalled)
qed

lemma lstep_picture:
  assumes "lstep now l s = Some l'"
  shows "picture l' =
     (case s of
        AnimationFrame n \<Rightarrow>
          if n \<in> set (pending l)
          then snd (paint_frame (loopCanvas (app_of l)) (difficulty (app_of l))
                 (startTime (app_of l)) now (current (app_of l)))
          else picture l
      | _ \<Rightarrow> picture l)"
  using assms
  by (cases s)
    (auto simp: lstep_def mount_def unmount_def frame_def Let_def same_refs_def
      dest: callback_same_refs split: if_splits)

lemma lreachable_picture:
  assumes "lreachable l"
  shows "list_all cmd_wf (picture l) \<and>
     (tidy c \<longrightarrow> (\<exists>c'. run_cmds (picture l) c = Inr c' \<and> tidy c'))"
  using assms
proof (induction rule: lreachable.induct)
  case (lreach_start r t0 c)
  show ?case by (simp add: initial_life_def)
next
  case (lreach_step l now s l')
  show ?case
  proof (cases "\<exists>n. s = AnimationFrame n \<and> n \<in> set (pending l)")
    case True
    then obtain n where n: "s = AnimationFrame n" "n \<in> set (pending l)" by blast
    from lreachable_inv [OF lreach_step.hyps(1)] n(2) have "has_context l"
      by (auto simp: life_inv_def)
    from reachable_inv [OF lreachable_reachable [OF lreach_step.hyps(1) this]]
    have "game_inv (current (app_of l))" by (rule session_invD)
    with lstep_picture [OF lreach_step.hyps(3)] n show ?thesis
      by (auto simp: paint_frame_wf paint_frame_tidy)
  next
    case False
    with lstep_picture [OF lreach_step.hyps(3)] have "picture l' = picture l"
      by (cases s) auto
    with lreach_step.IH show ?thesis by simp
  qed
qed

lemma pending_exact:
  assumes "life_inv l"
  shows "case animationRef l of
           None \<Rightarrow> pending l = []
         | Some n \<Rightarrow>
             pending l =
               (if presence l = Alive \<and> has_context l \<and> gameState (app_of l) = Game then [n]
                else [])"
  using assms by (auto simp: life_inv_def refs_ok_def split: option.splits)

lemma served_frame_reachable:
  "\<exists>l'. lstep 1016 playing (AnimationFrame 1) = Some l' \<and> lreachable l' \<and> picture l' \<noteq> []"
proof -
  obtain l' where l': "lstep 1016 playing (AnimationFrame 1) = Some l'"
    by (simp add: lstep_def)
  from playing_reachable _ l' have "lreachable l'" by (rule lreach_step) simp
  moreover from lstep_picture [OF l'] have "picture l' \<noteq> []"
    by (simp add: paint_frame_eq scene_def)
  ultimately show ?thesis using l' by blast
qed

lemma lstep_presence: "lstep now l s = Some l' \<Longrightarrow> presence l \<le> presence l'"
  by (cases s)
    (auto simp: lstep_def mount_def unmount_def frame_def Let_def less_eq_presence_def
      same_refs_def dest: callback_same_refs split: if_splits)

lemma lrun_presence: "lrun l ss = Some l' \<Longrightarrow> presence l \<le> presence l'"
proof (induction ss arbitrary: l)
  case Nil
  then show ?case by simp
next
  case (Cons p ss)
  obtain now s where "p = (now, s)" by (cases p)
  with Cons.prems obtain l1 where "lstep now l s = Some l1" "lrun l1 ss = Some l'"
    by (auto split: option.splits)
  with Cons.IH [of l1] lstep_presence [of now l s l1] show ?case by simp
qed

lemma played_out:
  assumes "lreachable l" and "presence l = Alive" and "has_context l"
    and "gameState (app_of l) = Game" and "clock (app_of l) \<le> now"
  shows "\<exists>n l'. pending l = [n] \<and> lstep now l (AnimationFrame n) = Some l' \<and> lreachable l' \<and>
     (if 60000 \<le> now - startTime (app_of l)
      then gameState (app_of l') = End \<and> pending l' = [] \<and> timeLeft (current (app_of l')) = 0
      else gameState (app_of l') = Game \<and> pending l' = [next_request l])"
proof -
  let ?a = "gameLoop now (app_of l)"
  from pending_exact [OF lreachable_inv [OF assms(1)]] assms(2-4) lreachable_inv [OF assms(1)]
  obtain n where n: "pending l = [n]"
    by (cases "animationRef l") (auto simp: life_inv_def)
  obtain l' where l': "lstep now l (AnimationFrame n) = Some l'" by (simp add: lstep_def)
  from assms(1,5) l' have r: "lreachable l'" by (rule lreach_step)
  from l' n have a: "app_of l' = (app_of (commit now (app_of l) (frame now n l)))\<lparr> clock := now \<rparr>"
    and p: "pending l' = pending (commit now (app_of l) (frame now n l))"
    by (auto simp: lstep_def)
  have "if 60000 \<le> now - startTime (app_of l)
      then gameState (app_of l') = End \<and> pending l' = [] \<and> timeLeft (current (app_of l')) = 0
      else gameState (app_of l') = Game \<and> pending l' = [next_request l]"
  proof (cases "60000 \<le> now - startTime (app_of l)")
    case True
    then have e: "gameState ?a = End" by (simp add: gameLoop_phase)
    with a have "gameState (app_of l') = End" by simp
    moreover from this pending_exact [OF lreachable_inv [OF r]] have "pending l' = []"
      by (cases "animationRef l'") auto
    moreover from a e gameLoop_stats [OF True] have "timeLeft (current (app_of l')) = 0"
      by (simp add: commit_app)
    ultimately show ?thesis using True by simp
  next
    case False
    with assms(4) have g: "gameState ?a = Game" by (simp add: gameLoop_phase)
    with assms(4) have t: "timeLeft (current ?a) > 0" by (auto simp: gameLoop_deps(2) split: if_splits)
    from g assms(4) have "commit now (app_of l) (frame now n l) = frame now n l"
      by (simp add: commit_same gameLoop_deps(1))
    with a p g t n False show ?thesis by (simp add: frame_def Let_def)
  qed
  with n l' r show ?thesis by blast
qed

section \<open>Properties of the component in the browser\<close>

text \<open>
  C11. As long as the canvas yields a drawing context, the component in the browser does
  what the session of theory \<open>Session\<close> does: every state it reaches shows a reachable
  state of the session, and every signal is one event of the session, or none. So the
  guards of the session are those that the effects and the browser enforce, and every
  property of the session holds of the component.
\<close>

theorem life_refines_session:
  assumes "lreachable l" and "has_context l"
  shows "reachable (app_of l) \<and>
         map_option app_of (lstep now l s) = step now (app_of l) (event_of l s)"
  using assms by (simp add: lreachable_reachable lstep_refines lreachable_inv)

theorem life_refines_session_witness:
  "lreachable playing \<and> has_context playing \<and> reachable (app_of playing) \<and>
   map_option app_of (lstep 2000 playing Unmount) = step 2000 (app_of playing) (event_of playing Unmount)"
  using life_refines_session [OF playing_reachable, of 2000 Unmount] playing_reachable by simp

text \<open>
  C14. The requests for an animation frame: at every moment at most one is waiting, it is
  the one whose number \<^verbatim>\<open>animationRef\<close> holds, and one is waiting exactly while the
  component is mounted, has a drawing context and shows the game. So two game loops
  never run side by side, a running game never loses its loop, and no frame is served
  on the menu, on the end screen or after the teardown.
\<close>

theorem one_frame_waits_exactly_while_playing:
  assumes "lreachable l"
  shows "case animationRef l of
           None \<Rightarrow> pending l = []
         | Some n \<Rightarrow>
             pending l =
               (if presence l = Alive \<and> has_context l \<and> gameState (app_of l) = Game then [n]
                else [])"
  using assms by (intro pending_exact lreachable_inv)

theorem one_frame_waits_exactly_while_playing_witness:
  "lreachable playing \<and> animationRef playing = Some 1 \<and> pending playing = [1]"
  using one_frame_waits_exactly_while_playing [OF playing_reachable] playing_reachable by simp

text \<open>
  C23. When the canvas yields no drawing context, the game-loop effect returns at line 525
  without a word: no frame is ever requested or painted, the clock of a started game
  stays at its 60 seconds, and the end screen is never reached.
\<close>

theorem without_context_the_game_never_ends:
  assumes "lreachable l" and "\<not> has_context l"
  shows "pending l = [] \<and> picture l = [] \<and> renders l = 0 \<and> gameState (app_of l) \<noteq> End \<and>
         timeLeft (current (app_of l)) = 60"
  using lreachable_stalled [OF assms] by (simp add: stalled_def)

theorem without_context_the_game_never_ends_witness:
  "lreachable blind \<and> \<not> has_context blind \<and> gameState (app_of blind) = Game \<and>
   pending blind = [] \<and> timeLeft (current (app_of blind)) = 60"
  using without_context_the_game_never_ends [OF blind_reachable] blind_reachable by simp

text \<open>
  C35. After the teardown of the component nothing the browser does changes it: the
  listeners are removed, the waiting frame is cancelled and no element is left to take
  an event. Only the clock goes on.
\<close>

theorem torn_down_component_is_inert:
  assumes "lreachable l" and "presence l = Gone"
  shows "lstep now l s = Some (l\<lparr> app_of := (app_of l)\<lparr> clock := now \<rparr> \<rparr>)"
proof -
  from assms have "\<not> listening l" "pending l = []"
    by (auto dest!: lreachable_inv simp: life_inv_def)
  with assms(2) have "react now l s = Some l" "\<not> rerenders l s" by (cases s; simp)+
  then show ?thesis by (simp add: lstep_def settle_def)
qed

theorem torn_down_component_is_inert_witness:
  "lreachable torn_down \<and> presence torn_down = Gone \<and>
   lstep 3000 torn_down (AnimationFrame 1) =
     Some (torn_down\<lparr> app_of := (app_of torn_down)\<lparr> clock := 3000 \<rparr> \<rparr>)"
  using torn_down_component_is_inert [OF torn_down_reachable, of 3000 "AnimationFrame 1"]
    torn_down_reachable
  by simp

text \<open>
  C26. Whatever the component has painted last is a list of well-formed commands, and run
  on a tidy drawing context it does not raise and leaves the context tidy. So every
  frame finds the context as the frame before left it.
\<close>

theorem every_picture_is_well_formed:
  assumes "lreachable l"
  shows "list_all cmd_wf (picture l) \<and>
         (tidy c \<longrightarrow> (\<exists>c'. run_cmds (picture l) c = Inr c' \<and> tidy c'))"
  using assms by (rule lreachable_picture)

theorem every_picture_is_well_formed_witness:
  "\<exists>l. lreachable l \<and> picture l \<noteq> [] \<and> list_all cmd_wf (picture l) \<and> tidy fresh_ctx \<and>
       (\<exists>c'. run_cmds (picture l) fresh_ctx = Inr c' \<and> tidy c')"
proof -
  from served_frame_reachable obtain l where l: "lreachable l" "picture l \<noteq> []" by blast
  from every_picture_is_well_formed [OF l(1), of fresh_ctx] l tidy_fresh show ?thesis by blast
qed

text \<open>
  While the game is shown on a mounted component with a drawing context, the browser
  has exactly one frame to serve. Serving it before 60 seconds have passed since the
  loop started keeps the game going, with the next frame requested; serving it at or
  after 60 seconds ends the game, with no frame left and the time at 0. So a game that
  is played out ends, and its loop stops with it.
\<close>

theorem played_out_game_ends:
  assumes "lreachable l" and "presence l = Alive" and "has_context l"
    and "gameState (app_of l) = Game" and "clock (app_of l) \<le> now"
  shows "\<exists>n l'. pending l = [n] \<and> lstep now l (AnimationFrame n) = Some l' \<and> lreachable l' \<and>
     (if 60000 \<le> now - startTime (app_of l)
      then gameState (app_of l') = End \<and> pending l' = [] \<and> timeLeft (current (app_of l')) = 0
      else gameState (app_of l') = Game \<and> pending l' = [next_request l])"
  using assms by (rule played_out)

theorem played_out_game_ends_witness:
  "lreachable playing \<and> presence playing = Alive \<and> has_context playing \<and>
   gameState (app_of playing) = Game \<and> clock (app_of playing) \<le> 61000 \<and>
   (\<exists>l'. lstep 61000 playing (AnimationFrame 1) = Some l' \<and> gameState (app_of l') = End \<and>
         pending l' = [])"
  using played_out_game_ends [OF playing_reachable, of 61000] playing_reachable by auto

end
