(* ===== verification/Shown_Page.thy ===== *)
theory Shown_Page
  imports Lifecycle
begin

text \<open>
  What the browser shows of the component of theory \<open>Lifecycle\<close>: the field \<open>rendered\<close>,
  the tree of the last render. The trees are those of theory \<open>Screens\<close> (lines 579-737
  of \<^verbatim>\<open>src/app/page.tsx\<close>). The heads-up display reads the score and the time from
  \<^verbatim>\<open>gameRef\<close>, a reference whose changes cause no render, so the page can be behind
  the state; the counter of line 546 makes every frame render the component again.
  The lemmas show that the page is the screen of the state up to the game variables,
  and give single steps of the component in closed form: a click during a game, a
  change of the screen, a served frame.
\<close>

section \<open>The page and the state\<close>

text \<open>
  \<open>shown_inv l\<close>: what the browser shows of a mounted component is the screen of its
  state, up to the game variables, which may have changed since the last render.
\<close>

definition shown_inv :: "life \<Rightarrow> bool" where
  "shown_inv l \<longleftrightarrow>
     (presence l \<noteq> Unborn \<longrightarrow> (\<exists>g. rendered l = view ((app_of l)\<lparr> current := g \<rparr>)))"

section \<open>Renders and steps\<close>

lemma view_commit [simp]: "view (app_of (commit now old l)) = view (app_of l)"
  by (rule view_cong) (simp_all add: commit_app start_loop_def)

lemma lstep_rendered:
  assumes "lstep now l s = Some l'"
  shows "rendered l' = (if rerenders l s then view (app_of l') else rendered l)"
  using assms by (auto simp: lstep_def)

text \<open>A step after which the component is not rendered again changes the game variables at most.\<close>

lemma callback_quiet:
  assumes "callback now l e = Some l1" and "\<not> sets_state e"
  shows "gameState (app_of l1) = gameState (app_of l) \<and> difficulty (app_of l1) = difficulty (app_of l) \<and>
     gameStats (app_of l1) = gameStats (app_of l) \<and> canvasSize (app_of l1) = canvasSize (app_of l)"
  using assms by (cases e) (auto simp: click_def split: option.splits if_splits)

lemma lstep_quiet:
  assumes "lstep now l s = Some l'" and "\<not> rerenders l s"
  shows "gameState (app_of l') = gameState (app_of l) \<and> difficulty (app_of l') = difficulty (app_of l) \<and>
     gameStats (app_of l') = gameStats (app_of l) \<and> canvasSize (app_of l') = canvasSize (app_of l) \<and>
     (presence l' \<noteq> Unborn \<longrightarrow> presence l \<noteq> Unborn)"
proof -
  from assms(1) obtain l1 where l1: "react now l s = Some l1" "l' = settle now l s l1"
    by (auto simp: lstep_def)
  have q: "gameState (app_of l1) = gameState (app_of l) \<and> difficulty (app_of l1) = difficulty (app_of l) \<and>
     gameStats (app_of l1) = gameStats (app_of l) \<and> canvasSize (app_of l1) = canvasSize (app_of l) \<and>
     (presence l1 \<noteq> Unborn \<longrightarrow> presence l \<noteq> Unborn)"
  proof (cases s)
    case (User e)
    show ?thesis
    proof (cases "presence l = Alive \<and> offers (view (app_of l)) e")
      case True
      with l1(1) User assms(2) have c: "callback now l e = Some l1" "\<not> sets_state e" by simp_all
      from callback_quiet [OF c] callback_same_refs [OF c(1)] show ?thesis
        by (simp add: same_refs_def)
    next
      case False
      with l1(1) User show ?thesis by auto
    qed
  qed (use l1(1) assms(2) in \<open>auto simp: unmount_def\<close>)
  then have "commit now (app_of l) l1 = l1" by (simp add: commit_same)
  with q l1(2) show ?thesis by (simp add: settle_def)
qed

lemma lstep_shown_inv:
  assumes "shown_inv l" and "lstep now l s = Some l'"
  shows "shown_inv l'"
proof (cases "rerenders l s")
  case True
  with lstep_rendered [OF assms(2)] have "rendered l' = view ((app_of l')\<lparr> current := current (app_of l') \<rparr>)"
    by simp
  then show ?thesis unfolding shown_inv_def by blast
next
  case False
  note q = lstep_quiet [OF assms(2) False]
  show ?thesis unfolding shown_inv_def
  proof
    assume "presence l' \<noteq> Unborn"
    with q assms(1) obtain g where "rendered l = view ((app_of l)\<lparr> current := g \<rparr>)"
      by (auto simp: shown_inv_def)
    moreover have "view ((app_of l)\<lparr> current := g \<rparr>) = view ((app_of l')\<lparr> current := g \<rparr>)"
      using q by (intro view_cong) simp_all
    ultimately show "\<exists>g. rendered l' = view ((app_of l')\<lparr> current := g \<rparr>)"
      using lstep_rendered [OF assms(2)] False by auto
  qed
qed

lemma lreachable_shown_inv: "lreachable l \<Longrightarrow> shown_inv l"
proof (induction rule: lreachable.induct)
  case (lreach_start r t0 c)
  show ?case by (simp add: shown_inv_def initial_life_def)
next
  case (lreach_step l now s l')
  from lreach_step.IH lreach_step.hyps(3) show ?case by (rule lstep_shown_inv)
qed

lemma rendered_offers:
  assumes "lreachable l" and "presence l \<noteq> Unborn"
  shows "offers (rendered l) e \<longleftrightarrow> offers (view (app_of l)) e"
  using lreachable_shown_inv [OF assms(1)] assms(2) by (auto simp: shown_inv_def)

lemma rendered_static:
  assumes "lreachable l" and "presence l \<noteq> Unborn" and "gameState (app_of l) \<noteq> Game"
  shows "rendered l = view (app_of l)"
  using lreachable_shown_inv [OF assms(1)] assms(2,3) by (auto simp: shown_inv_def view_current)


lemma click_then_frame:
  assumes "life_inv l" and "lstep now l (User (Click x y)) = Some l1"
    and "n \<in> set (pending l1)" and "lstep now' l1 (AnimationFrame n) = Some l2"
    and "gameState (app_of l2) = Game"
  shows "rendered l1 = rendered l \<and>
     textContent (rendered l2) =
       ''MODE'' @ hud_mode (difficulty (app_of l1)) @
       ''TIME'' @ hud_time (timeLeft (current (app_of l2))) @
       ''SCORE'' @ hud_score (score (current (app_of l1)))"
proof -
  from lstep_rendered [OF assms(2)] have r1: "rendered l1 = rendered l" by simp
  from lstep_inv [OF assms(1,2)] assms(3) have g1: "gameState (app_of l1) = Game"
    by (auto simp: life_inv_def)
  from lstep_rendered [OF assms(4)] assms(3) have r2: "rendered l2 = view (app_of l2)" by simp
  from assms(3,4) have a2: "app_of l2 =
      (app_of (commit now' (app_of l1) (frame now' n l1)))\<lparr> clock := now' \<rparr>"
    by (auto simp: lstep_def)
  with assms(5) have "gameState (gameLoop now' (app_of l1)) = Game" by simp
  with g1 have "commit now' (app_of l1) (frame now' n l1) = frame now' n l1"
    by (simp add: commit_same gameLoop_deps(1))
  with a2 have "score (current (app_of l2)) = score (current (app_of l1))"
    "difficulty (app_of l2) = difficulty (app_of l1)"
    by (simp_all add: gameLoop_deps(1))
  with r1 r2 assms(5) show ?thesis by (simp add: textContent_view_Game)
qed

lemma lstep_click:
  assumes "presence l = Alive" and "gameState (app_of l) = Game"
    and "step now (app_of l) (Click x y) = Some a'"
  shows "lstep now l (User (Click x y)) = Some (l\<lparr> app_of := a' \<rparr>)"
proof -
  from assms(2,3) obtain a1 where a1: "click now x y (app_of l) = Some a1" "a' = a1\<lparr> clock := now \<rparr>"
    by (auto simp: step_def)
  from click_deps [OF a1(1)] have "commit now (app_of l) (l\<lparr> app_of := a1 \<rparr>) = l\<lparr> app_of := a1 \<rparr>"
    by (simp add: commit_same)
  with assms(1,2) a1 show ?thesis
    by (simp add: lstep_def settle_def offers_view has_canvas_view)
qed

lemma demo_life_click:
  "lstep 2500 playing (User (Click 1345 432)) = Some (playing\<lparr> app_of := after_perfect_hit \<rparr>)"
  using scenario_hit by (intro lstep_click) simp_all

lemma demo_clicks:
  "lrun playing [(2500, User (Click 1345 432)), (3000, User (Click 100 900))] =
     Some (playing\<lparr> app_of := after_penalty \<rparr>)"
proof -
  have "lstep 2500 playing (User (Click 1345 432)) = Some (playing\<lparr> app_of := after_perfect_hit \<rparr>)"
    using scenario_hit by (intro lstep_click) simp_all
  moreover have "lstep 3000 (playing\<lparr> app_of := after_perfect_hit \<rparr>) (User (Click 100 900)) =
      Some (playing\<lparr> app_of := after_perfect_hit \<rparr>\<lparr> app_of := after_penalty \<rparr>)"
    using scenario_penalty by (intro lstep_click) simp_all
  ultimately show ?thesis by simp
qed


text \<open>
  A change of the screen during a game: the size is stored, the request stays, and the
  game loop is not set up again, so it keeps the size it was started with.
\<close>

lemma lstep_ScreenChange:
  assumes "life_inv l" and "n \<in> set (pending l)" and "lstep now l (ScreenChange w h) = Some l1"
  shows "app_of l1 = (app_of l)\<lparr> canvasSize := \<lparr> width = w, height = h \<rparr>, clock := now \<rparr>"
    and "pending l1 = pending l" and "presence l1 = Alive"
proof -
  from assms(1,2) have l: "listening l" "presence l = Alive"
    by (auto simp: life_inv_def)
  let ?l = "l\<lparr> app_of := updateCanvasSize w h (app_of l) \<rparr>"
  have "commit now (app_of l) ?l = ?l"
    by (rule commit_same) (simp_all add: updateCanvasSize_def)
  with assms(3) l show "app_of l1 = (app_of l)\<lparr> canvasSize := \<lparr> width = w, height = h \<rparr>, clock := now \<rparr>"
    and "pending l1 = pending l" and "presence l1 = Alive"
    by (auto simp: lstep_def updateCanvasSize_def)
qed

text \<open>A served frame: the session makes its frame step, and the page shows the result.\<close>

lemma lstep_frame:
  assumes "life_inv l" and "n \<in> set (pending l)" and "lstep now l (AnimationFrame n) = Some l'"
  shows "app_of l' = (gameLoop now (app_of l))\<lparr> clock := now \<rparr>" and "rendered l' = view (app_of l')"
proof -
  from assms(1,2) have c: "has_context l" "gameState (app_of l) = Game"
    by (auto simp: life_inv_def)
  from lstep_refines [OF assms(1) c(1), of now "AnimationFrame n"] assms(2,3) c(2)
  show "app_of l' = (gameLoop now (app_of l))\<lparr> clock := now \<rparr>" by (simp add: step_def)
  from lstep_rendered [OF assms(3)] assms(2) show "rendered l' = view (app_of l')" by simp
qed

section \<open>Properties of the page\<close>

text \<open>
  C33. What the browser shows of a mounted component offers exactly the events that the
  screen of its present state offers, although the game variables may have changed
  since the last render; and outside the game the browser shows exactly the screen of
  the present state. So the guards of the callbacks, which test the present state,
  agree with the elements the user finds on the page.
\<close>

theorem shown_screen_offers_what_the_state_allows:
  assumes "lreachable l" and "presence l \<noteq> Unborn"
  shows "(offers (rendered l) e \<longleftrightarrow> offers (view (app_of l)) e) \<and>
         (gameState (app_of l) \<noteq> Game \<longrightarrow> rendered l = view (app_of l))"
  using assms by (simp add: rendered_offers rendered_static)

theorem shown_screen_offers_what_the_state_allows_witness:
  "lreachable playing \<and> presence playing \<noteq> Unborn \<and>
   offers (rendered playing) (Click 1 2) \<and> \<not> offers (rendered playing) PlayAgain"
  using shown_screen_offers_what_the_state_allows [OF playing_reachable, of "Click 1 2"]
    shown_screen_offers_what_the_state_allows [OF playing_reachable, of PlayAgain]
    playing_reachable
  by (simp add: offers_view)

text \<open>
  C38. The heads-up display reads the score from \<^verbatim>\<open>gameRef\<close>, which is a reference: a click
  changes the score but causes no render, so the page goes on showing what it showed
  before. The next frame that is served while the game runs renders the component
  again, and then the page shows the score the click has left, the mode and the time
  of that frame.
\<close>

theorem shown_score_waits_for_the_next_frame:
  assumes "lreachable l" and "lstep now l (User (Click x y)) = Some l1"
    and "n \<in> set (pending l1)" and "lstep now' l1 (AnimationFrame n) = Some l2"
    and "gameState (app_of l2) = Game"
  shows "rendered l1 = rendered l \<and>
     textContent (rendered l2) =
       ''MODE'' @ hud_mode (difficulty (app_of l1)) @
       ''TIME'' @ hud_time (timeLeft (current (app_of l2))) @
       ''SCORE'' @ hud_score (score (current (app_of l1)))"
  using lreachable_inv [OF assms(1)] assms(2-5) by (rule click_then_frame)

theorem shown_score_waits_for_the_next_frame_witness:
  "\<exists>l1 l2. lreachable playing \<and> lstep 2500 playing (User (Click 1345 432)) = Some l1 \<and>
     1 \<in> set (pending l1) \<and> lstep 2516 l1 (AnimationFrame 1) = Some l2 \<and>
     gameState (app_of l2) = Game \<and> score (current (app_of playing)) = 0 \<and>
     score (current (app_of l1)) = 100 \<and> rendered l1 = rendered playing \<and>
     textContent (rendered l2) =
       ''MODE'' @ hud_mode (difficulty (app_of l1)) @
       ''TIME'' @ hud_time (timeLeft (current (app_of l2))) @
       ''SCORE'' @ hud_score (score (current (app_of l1)))"
proof -
  let ?l1 = "playing\<lparr> app_of := after_perfect_hit \<rparr>"
  obtain l2 where l2: "lstep 2516 ?l1 (AnimationFrame 1) = Some l2" by (simp add: lstep_def)
  then have g: "gameState (app_of l2) = Game"
    by (auto simp: lstep_def gameLoop_phase)
  have p: "1 \<in> set (pending ?l1)" by simp
  from shown_score_waits_for_the_next_frame [OF playing_reachable demo_life_click p l2 g]
    playing_reachable demo_life_click l2 g
  show ?thesis by (simp add: fresh_gameRef_def del: One_nat_def)
qed

end
