(* ===== verification/Game_Loop.thy ===== *)
theory Game_Loop
  imports Shown_Page
begin

text \<open>
  The run of the game loop of \<^verbatim>\<open>src/app/page.tsx\<close> (lines 529-568): \<^verbatim>\<open>gameLoop\<close> requests
  the next frame as long as time is left (line 549), and the browser serves the
  request that is waiting. \<open>serve l ts\<close> lets the browser serve the waiting request at
  each of the clock readings \<open>ts\<close> in turn, by the step \<open>lstep\<close> of theory \<open>Lifecycle\<close>;
  it stops when no request is waiting. \<open>frames_until_end st ts\<close> is the number of
  frames of \<open>ts\<close> that a loop started at \<open>st\<close> runs: all up to and including the first
  at or after 60 seconds. No fuel is involved: the recursion is on the list of clock
  readings, and the theorem says that the loop has stopped by itself when one of them
  is late enough. Before that, the game variables after the served frames are the fold
  \<open>frames\<close> of theory \<open>Frame_Update\<close> (\<open>serve_frames\<close>).
\<close>

section \<open>Serving frames\<close>

fun serve :: "life \<Rightarrow> int list \<Rightarrow> life option" where
  "serve l [] = Some l"
| "serve l (t # ts) =
     (case pending l of
        [] \<Rightarrow> Some l
      | n # ns \<Rightarrow> (case lstep t l (AnimationFrame n) of None \<Rightarrow> None | Some l' \<Rightarrow> serve l' ts))"

definition frames_until_end :: "int \<Rightarrow> int list \<Rightarrow> nat" where
  "frames_until_end st ts =
     (if \<exists>t \<in> set ts. 60000 \<le> t - st then Suc (length (takeWhile (\<lambda>t. t - st < 60000) ts))
      else length ts)"

section \<open>The loop stops when the time is up\<close>

lemma frames_until_end_Cons:
  "frames_until_end st (t # ts) =
     (if 60000 \<le> t - st then 1 else Suc (frames_until_end st ts))"
  by (auto simp: frames_until_end_def)

lemma lstep_renders:
  assumes "n \<in> set (pending l)" and "lstep now l (AnimationFrame n) = Some l'"
  shows "renders l' = Suc (renders l)"
  using assms by (auto simp: lstep_def frame_def Let_def requestAnimationFrame_def)

lemma running_frame:
  assumes "lreachable l" and "presence l = Alive" and "has_context l"
    and "gameState (app_of l) = Game" and "clock (app_of l) \<le> now"
  shows "\<exists>n l'. pending l = [n] \<and> lstep now l (AnimationFrame n) = Some l' \<and> lreachable l' \<and>
     renders l' = Suc (renders l) \<and> startTime (app_of l') = startTime (app_of l) \<and>
     clock (app_of l') = now \<and>
     (if 60000 \<le> now - startTime (app_of l) then gameState (app_of l') = End \<and> pending l' = []
      else gameState (app_of l') = Game \<and> presence l' = Alive \<and> has_context l')"
proof -
  from played_out [OF assms] obtain n l' where s: "pending l = [n]"
      "lstep now l (AnimationFrame n) = Some l'" "lreachable l'"
      "if 60000 \<le> now - startTime (app_of l)
       then gameState (app_of l') = End \<and> pending l' = [] \<and> timeLeft (current (app_of l')) = 0
       else gameState (app_of l') = Game \<and> pending l' = [next_request l]"
    by blast
  from s(1) have n: "n \<in> set (pending l)" by simp
  from lstep_frame(1) [OF lreachable_inv [OF assms(1)] n s(2)]
  have "startTime (app_of l') = startTime (app_of l)" "clock (app_of l') = now" by simp_all
  moreover from s(4) lreachable_inv [OF s(3)]
  have "if 60000 \<le> now - startTime (app_of l) then gameState (app_of l') = End \<and> pending l' = []
      else gameState (app_of l') = Game \<and> presence l' = Alive \<and> has_context l'"
    by (auto simp: life_inv_def split: if_splits)
  ultimately show ?thesis using s(1-3) lstep_renders [OF n s(2)] by blast
qed

lemma serve_stopped [simp]: "pending l = [] \<Longrightarrow> serve l ts = Some l"
  by (cases ts) simp_all

lemma serve_runs:
  assumes "lreachable l" and "presence l = Alive" and "has_context l"
    and "gameState (app_of l) = Game" and "sorted (clock (app_of l) # ts)"
  shows "\<exists>l'. serve l ts = Some l' \<and> lreachable l' \<and>
     renders l' = renders l + frames_until_end (startTime (app_of l)) ts \<and>
     (if \<exists>t \<in> set ts. 60000 \<le> t - startTime (app_of l)
      then gameState (app_of l') = End \<and> pending l' = []
      else gameState (app_of l') = Game \<and> pending l' \<noteq> [])"
  using assms
proof (induction ts arbitrary: l)
  case Nil
  from lreachable_inv [OF Nil.prems(1)] Nil.prems(2-4) have "pending l \<noteq> []"
    by (auto simp: life_inv_def)
  with Nil.prems show ?case by (simp add: frames_until_end_def)
next
  case (Cons t ts)
  from Cons.prems(5) have t: "clock (app_of l) \<le> t" by simp
  from running_frame [OF Cons.prems(1-4) t] obtain n l1 where s: "pending l = [n]"
      "lstep t l (AnimationFrame n) = Some l1" "lreachable l1" "renders l1 = Suc (renders l)"
      "startTime (app_of l1) = startTime (app_of l)" "clock (app_of l1) = t"
      "if 60000 \<le> t - startTime (app_of l) then gameState (app_of l1) = End \<and> pending l1 = []
       else gameState (app_of l1) = Game \<and> presence l1 = Alive \<and> has_context l1"
    by blast
  show ?case
  proof (cases "60000 \<le> t - startTime (app_of l)")
    case True
    with s show ?thesis by (auto simp: frames_until_end_Cons)
  next
    case False
    with s(7) have g: "gameState (app_of l1) = Game" "presence l1 = Alive" "has_context l1"
      by simp_all
    from Cons.prems(5) s(6) have "sorted (clock (app_of l1) # ts)" by simp
    from Cons.IH [OF s(3) g(2,3,1) this] s(1,2,4,5) False show ?thesis
      by (auto simp: frames_until_end_Cons)
  qed
qed

section \<open>The served frames are the frames of the effects\<close>

text \<open>
  Before the time is up, the game variables after serving the frames \<open>ts\<close> are those
  of the fold \<open>frames\<close> of theory \<open>Frame_Update\<close>: the closed forms proved there hold of
  the component in the browser.
\<close>

lemma serve_frames:
  assumes "lreachable l" and "presence l = Alive" and "has_context l"
    and "gameState (app_of l) = Game" and "sorted (clock (app_of l) # ts)"
    and "\<forall>t \<in> set ts. t - startTime (app_of l) < 60000"
  shows "\<exists>l'. serve l ts = Some l' \<and>
     current (app_of l') =
       frames (loopCanvas (app_of l)) (difficulty (app_of l)) (startTime (app_of l)) ts
         (current (app_of l))"
  using assms
proof (induction ts arbitrary: l)
  case Nil
  then show ?case by simp
next
  case (Cons t ts)
  from Cons.prems(5) have t: "clock (app_of l) \<le> t" by simp
  from running_frame [OF Cons.prems(1-4) t] Cons.prems(6) obtain n l1 where s:
      "pending l = [n]" "lstep t l (AnimationFrame n) = Some l1" "lreachable l1"
      "startTime (app_of l1) = startTime (app_of l)" "clock (app_of l1) = t"
      "gameState (app_of l1) = Game" "presence l1 = Alive" "has_context l1"
    by auto
  from s(1) have n: "n \<in> set (pending l)" by simp
  from lstep_frame(1) [OF lreachable_inv [OF Cons.prems(1)] n s(2)]
  have a: "app_of l1 = (gameLoop t (app_of l))\<lparr> clock := t \<rparr>" .
  from Cons.prems(5) s(5) have "sorted (clock (app_of l1) # ts)" by simp
  moreover from Cons.prems(6) s(4) have "\<forall>t \<in> set ts. t - startTime (app_of l1) < 60000" by simp
  ultimately obtain l' where "serve l1 ts = Some l'"
      "current (app_of l') =
         frames (loopCanvas (app_of l1)) (difficulty (app_of l1)) (startTime (app_of l1)) ts
           (current (app_of l1))"
    using Cons.IH [OF s(3,7,8,6)] by blast
  with s(1,2) a show ?case
    by (simp add: frames_Cons gameLoop_current gameLoop_deps(1))
qed


lemma serve_effects:
  assumes "lreachable l" and "presence l = Alive" and "has_context l"
    and "gameState (app_of l) = Game" and "sorted (clock (app_of l) # ts)"
    and "\<forall>t \<in> set ts. t - startTime (app_of l) < 60000"
  shows "\<exists>l'. serve l ts = Some l' \<and>
     feedback (current (app_of l')) =
       List.map_filter (feedback_after (length ts)) (feedback (current (app_of l))) \<and>
     sparkles (current (app_of l')) =
       List.map_filter (sparkle_after (length ts)) (sparkles (current (app_of l))) \<and>
     (50 \<le> length ts \<longrightarrow>
        feedback (current (app_of l')) = [] \<and> sparkles (current (app_of l')) = [])"
proof -
  from reachable_inv [OF lreachable_reachable [OF assms(1,3)]]
  have e: "list_all feedback_visible (feedback (current (app_of l)))"
      "list_all sparkle_visible (sparkles (current (app_of l)))"
    by (simp_all add: session_inv_def game_inv_defs)
  from serve_frames [OF assms] obtain l' where l': "serve l ts = Some l'"
      "current (app_of l') =
         frames (loopCanvas (app_of l)) (difficulty (app_of l)) (startTime (app_of l)) ts
           (current (app_of l))"
    by blast
  from e l'(2) have f: "feedback (current (app_of l')) =
       List.map_filter (feedback_after (length ts)) (feedback (current (app_of l)))"
    "sparkles (current (app_of l')) =
       List.map_filter (sparkle_after (length ts)) (sparkles (current (app_of l)))"
    by (simp_all add: frames_feedback frames_sparkles)
  from e have "50 \<le> length ts \<longrightarrow>
      List.map_filter (feedback_after (length ts)) (feedback (current (app_of l))) = [] \<and>
      List.map_filter (sparkle_after (length ts)) (sparkles (current (app_of l))) = []"
    by (auto simp: list_all_iff intro!: map_filter_None feedback_after_old sparkle_after_old)
  with l'(1) f show ?thesis by simp
qed

lemma after_hit_reachable: "lreachable (playing\<lparr> app_of := after_perfect_hit \<rparr>)"
  using playing_reachable _ demo_life_click by (rule lreach_step) simp

section \<open>Properties of the game loop\<close>

text \<open>
  C22. While the game is shown on a mounted component with a drawing context, serving the
  waiting frames at clock readings that do not decrease never fails. If one of the
  readings is 60 seconds or more after the start of the loop, the game has ended at
  the first such frame, no request is left, and exactly the frames up to that one
  have run; otherwise the game is still running with a request waiting, and every
  frame has run.
\<close>

theorem game_loop_runs_until_the_time_is_up:
  assumes "lreachable l" and "presence l = Alive" and "has_context l"
    and "gameState (app_of l) = Game" and "sorted (clock (app_of l) # ts)"
  shows "\<exists>l'. serve l ts = Some l' \<and> lreachable l' \<and>
     renders l' = renders l + frames_until_end (startTime (app_of l)) ts \<and>
     (if \<exists>t \<in> set ts. 60000 \<le> t - startTime (app_of l)
      then gameState (app_of l') = End \<and> pending l' = []
      else gameState (app_of l') = Game \<and> pending l' \<noteq> [])"
  using assms by (rule serve_runs)

theorem game_loop_runs_until_the_time_is_up_witness:
  "lreachable playing \<and> presence playing = Alive \<and> has_context playing \<and>
   gameState (app_of playing) = Game \<and>
   sorted (clock (app_of playing) # [1016, 30000, 61000, 61016, 70000]) \<and>
   (\<exists>l'. serve playing [1016, 30000, 61000, 61016, 70000] = Some l' \<and> renders l' = 3 \<and>
         gameState (app_of l') = End \<and> pending l' = [])"
  using game_loop_runs_until_the_time_is_up [OF playing_reachable, of "[1016, 30000, 61000, 61016, 70000]"]
    playing_reachable
  by (auto simp: frames_until_end_def simp del: serve.simps)

text \<open>
  C34. Before the time is up, serving \<open>n\<close> frames leaves exactly the feedback texts and the
  sparkles whose opacity or life exceeded \<open>n\<close> steps of 0.02, in their order, each
  lowered by that amount, the sparkles turned by \<open>n\<close> steps of 0.15; after 50 frames
  nothing is left of what was listed before. So every effect of a click is shown for
  at most 49 frames of the game.
\<close>

theorem effects_fade_over_the_served_frames:
  assumes "lreachable l" and "presence l = Alive" and "has_context l"
    and "gameState (app_of l) = Game" and "sorted (clock (app_of l) # ts)"
    and "\<forall>t \<in> set ts. t - startTime (app_of l) < 60000"
  shows "\<exists>l'. serve l ts = Some l' \<and>
     feedback (current (app_of l')) =
       List.map_filter (feedback_after (length ts)) (feedback (current (app_of l))) \<and>
     sparkles (current (app_of l')) =
       List.map_filter (sparkle_after (length ts)) (sparkles (current (app_of l))) \<and>
     (50 \<le> length ts \<longrightarrow>
        feedback (current (app_of l')) = [] \<and> sparkles (current (app_of l')) = [])"
  using assms by (rule serve_effects)

theorem effects_fade_over_the_served_frames_witness:
  "lreachable (playing\<lparr> app_of := after_perfect_hit \<rparr>) \<and>
   sorted (clock after_perfect_hit # [2516, 2532, 2548]) \<and>
   2548 - startTime after_perfect_hit < 60000 \<and>
   (\<exists>l'. serve (playing\<lparr> app_of := after_perfect_hit \<rparr>) [2516, 2532, 2548] = Some l' \<and>
         map f_text (feedback (current (app_of l'))) = [''PERFECT''] \<and>
         map f_opacity (feedback (current (app_of l'))) = [0.94])"
  using effects_fade_over_the_served_frames [OF after_hit_reachable, of "[2516, 2532, 2548]"]
    after_hit_reachable
  by (auto simp: fresh_gameRef_def feedback_after_def List.map_filter_simps simp del: serve.simps)

end
