(* ===== verification/Playfield.thy ===== *)
theory Playfield
  imports Session
begin

text \<open>
  Where the targets of a session are. The spawner of \<^verbatim>\<open>src/app/page.tsx\<close> (lines 129-165)
  places a target within the width of the canvas and away from the live ones; the
  frame (lines 334-344 and 533-542) moves the targets of a hard game and nothing else
  does. This theory follows the positions through the session of theory \<open>Session\<close>.

  \<open>apart ts\<close>: any two targets of \<open>ts\<close> keep the distance the spawner demands, the sum
  of their radii plus 80, between their centres. \<open>calm ts\<close>: moreover none of them
  drifts. \<open>calm_inv\<close> says that the targets of an easy or intermediate session are calm.
  The second part shows that the targets stay on the canvas while the screen keeps its
  size (\<open>on_canvas\<close>, \<open>field_inv\<close>).
\<close>

section \<open>Notions\<close>

fun apart :: "Target list \<Rightarrow> bool" where
  "apart [] = True"
| "apart (t # ts) = (spaced (t_x t) (t_radius t) ts \<and> apart ts)"

definition calm :: "Target list \<Rightarrow> bool" where
  "calm ts \<longleftrightarrow> list_all (\<lambda>t. t_velocity t = Some 0) ts \<and> apart ts"

definition calm_inv :: "app \<Rightarrow> bool" where
  "calm_inv a \<longleftrightarrow> (gameState a \<noteq> Menu \<and> difficulty a \<noteq> Hard \<longrightarrow> calm (targets (current a)))"

text \<open>
  \<open>on_canvas cv t\<close>: the circle of \<open>t\<close> lies within the width of the canvas \<open>cv\<close>, up to
  the distance the target drifts in one frame, which is less than 2. \<open>field_inv\<close> says
  that the targets of a running game are on the canvas the game loop was started
  with. \<open>same_screen cv e\<close>: the event \<open>e\<close> does not change the size \<open>cv\<close> of the screen.
\<close>

definition on_canvas :: "canvas \<Rightarrow> Target \<Rightarrow> bool" where
  "on_canvas cv t \<longleftrightarrow>
     (case t_velocity t of
        None \<Rightarrow> False
      | Some v \<Rightarrow> 0 \<le> v \<and> v < 2 \<and> t_radius t - v \<le> t_x t \<and>
                  t_x t \<le> CANVAS_WIDTH cv - t_radius t + v)"

definition field_inv :: "app \<Rightarrow> bool" where
  "field_inv a \<longleftrightarrow>
     (gameState a = Game \<longrightarrow>
        loopCanvas a = canvasSize a \<and> list_all (on_canvas (canvasSize a)) (targets (current a)))"

fun same_screen :: "canvas \<Rightarrow> event \<Rightarrow> bool" where
  "same_screen cv (Resize w h) = (w = width cv \<and> h = height cv)"
| "same_screen cv e = True"

text \<open>The component in front of a screen of 1920 by 1080, before a game is started.\<close>

abbreviation on_full_hd :: app where
  "on_full_hd \<equiv> (initial_app demo_rng 0)\<lparr> canvasSize := full_hd \<rparr>"

section \<open>Targets of a calm session stay apart\<close>

lemma spaced_Cons [simp]:
  "spaced x r (t # ts) \<longleftrightarrow> r + t_radius t + 80 \<le> \<bar>x - t_x t\<bar> \<and> spaced x r ts"
  by (simp add: spaced_def)

lemma spaced_Nil [simp]: "spaced x r []"
  by (simp add: spaced_def)

lemma spaced_append [simp]: "spaced x r (ts @ us) \<longleftrightarrow> spaced x r ts \<and> spaced x r us"
  by (simp add: spaced_def)

lemma spaced_splice1: "spaced x r ts \<Longrightarrow> spaced x r (splice1 i ts)"
  unfolding spaced_def by (rule list_all_splice1)

lemma apart_snoc: "apart (ts @ [t]) \<longleftrightarrow> apart ts \<and> spaced (t_x t) (t_radius t) ts"
  by (induction ts) (auto simp: abs_minus_commute add.commute)

lemma apart_splice1: "apart ts \<Longrightarrow> apart (splice1 i ts)"
proof (induction ts arbitrary: i)
  case Nil
  then show ?case by simp
next
  case (Cons t ts)
  then show ?case by (cases i) (simp_all add: spaced_splice1)
qed

lemma calm_Nil [simp]: "calm []"
  by (simp add: calm_def)

lemma calm_splice1: "calm ts \<Longrightarrow> calm (splice1 i ts)"
  by (simp add: calm_def apart_splice1 list_all_splice1)

lemma spawn_calm:
  assumes "addNewTarget cv d now diff (g, r) = Some (g', r')"
    and "currentDifficulty diff d \<noteq> Hard" and "calm (targets g)"
  shows "calm (targets g')"
proof -
  from assms(1) have ts: "targets g' = targets g @ [last (targets g')]"
    by (auto elim!: addNewTarget_new)
  from addNewTarget_last_velocity [OF assms(1,2)] addNewTarget_last_spaced [OF assms(1)] assms(3)
  have "calm (targets g @ [last (targets g')])" by (simp add: calm_def apart_snoc)
  with ts show ?thesis by simp
qed

lemma click_calm:
  assumes "handleCanvasClick cv gs d now cx cy (g, r) = Some (g', r')"
    and "d \<noteq> Hard" and "calm (targets g)"
  shows "calm (targets g')"
  using assms(1)
proof (cases rule: click_cases)
  case (hit i)
  from assms(2) have d: "currentDifficulty None d \<noteq> Hard" by (simp add: currentDifficulty_def)
  from assms(3) have "calm (targets (register_hit now cx cy i g))" by (simp add: calm_splice1)
  with hit(4) d show ?thesis by (rule spawn_calm)
qed (use assms(3) in simp_all)

lemma frame_calm:
  assumes "d \<noteq> Hard" and "calm (targets g)"
  shows "targets (advance_frame cv d st now g) = targets g"
  using assms by (intro advance_frame_static) (simp_all add: calm_def)

lemma initializeGame_calm:
  assumes "initializeGame sd now a = Some a'"
  shows "calm_inv a'"
proof -
  from assms obtain g1 r1 g2 r2 where
    a1: "addNewTarget (canvasSize a) (difficulty a) now (Some sd) (fresh_gameRef, rnd a) = Some (g1, r1)" and
    a2: "addNewTarget (canvasSize a) (difficulty a) now (Some sd) (g1, r1) = Some (g2, r2)" and
    a': "a' = a\<lparr> difficulty := sd, current := g2, rnd := r2, gameState := Game \<rparr>"
    by (rule initializeGame_SomeE)
  show ?thesis
  proof (cases "sd = Hard")
    case True
    with a' show ?thesis by (simp add: calm_inv_def)
  next
    case False
    then have d: "currentDifficulty (Some sd) (difficulty a) \<noteq> Hard"
      by (simp add: currentDifficulty_def)
    have "calm (targets fresh_gameRef)" by (simp add: fresh_gameRef_def)
    with a1 d have "calm (targets g1)" by (rule spawn_calm)
    with a2 d have "calm (targets g2)" by (rule spawn_calm)
    with a' show ?thesis by (simp add: calm_inv_def)
  qed
qed

lemma calm_inv_frame [simp]:
  "calm_inv (start_loop now a) = calm_inv a"
  "calm_inv (updateCanvasSize w h a) = calm_inv a"
  "calm_inv (a\<lparr> clock := now \<rparr>) = calm_inv a"
  by (simp_all add: calm_inv_def start_loop_def updateCanvasSize_def)

lemma click_calm_inv:
  assumes "click now x y a = Some a'" and "calm_inv a" and "gameState a = Game"
  shows "calm_inv a'"
proof -
  from assms(1) obtain g r where
    h: "handleCanvasClick (canvasSize a) (gameState a) (difficulty a) now x y (current a, rnd a)
          = Some (g, r)" and a': "a' = a\<lparr> current := g, rnd := r \<rparr>"
    by (rule click_SomeE)
  show ?thesis
  proof (cases "difficulty a = Hard")
    case True
    with a' show ?thesis by (simp add: calm_inv_def)
  next
    case False
    with assms(2,3) have "calm (targets (current a))" by (simp add: calm_inv_def)
    with h False have "calm (targets g)" by (rule click_calm)
    with a' show ?thesis by (simp add: calm_inv_def)
  qed
qed

lemma gameLoop_calm:
  assumes "calm_inv a" and "gameState a = Game"
  shows "calm_inv (gameLoop now a)"
proof (cases "difficulty a = Hard")
  case True
  then show ?thesis by (simp add: calm_inv_def gameLoop_def Let_def)
next
  case False
  with assms have "calm (targets (current a))" by (simp add: calm_inv_def)
  with False show ?thesis by (simp add: calm_inv_def gameLoop_def Let_def frame_calm)
qed

lemma restart_calm:
  assumes "map_option (start_loop now) (initializeGame sd now a) = Some a'"
  shows "calm_inv a'"
proof -
  from assms obtain a1 where "initializeGame sd now a = Some a1" "a' = start_loop now a1"
    by (cases "initializeGame sd now a") simp_all
  then show ?thesis by (simp add: initializeGame_calm)
qed

lemma handle_calm:
  assumes "handle now a e = Some a'" and "calm_inv a"
  shows "calm_inv a'"
proof (cases e)
  case (Resize w h)
  with assms show ?thesis by auto
next
  case (SelectDifficulty d0)
  with assms show ?thesis by (cases "gameState a = Menu") (simp_all add: restart_calm)
next
  case (Click x y)
  with assms show ?thesis by (cases "gameState a = Game") (simp_all add: click_calm_inv)
next
  case (MouseMove x y)
  with assms show ?thesis
    by (cases "gameState a = Game") (auto simp: calm_inv_def handleMouseMove_def)
next
  case Frame
  with assms show ?thesis by (cases "gameState a = Game") (auto simp: gameLoop_calm)
next
  case PlayAgain
  show ?thesis
  proof (cases "gameStats a")
    case None
    with assms PlayAgain show ?thesis by (simp split: if_splits)
  next
    case (Some st)
    with assms PlayAgain show ?thesis
      by (cases "gameState a = End") (simp_all add: restart_calm)
  qed
next
  case BackToMenu
  with assms show ?thesis by (auto split: if_splits simp: calm_inv_def)
qed

lemma reachable_calm: "reachable a \<Longrightarrow> calm_inv a"
proof (induction rule: reachable.induct)
  case (reach_start r t0)
  then show ?case by (simp add: calm_inv_def initial_app_def)
next
  case (reach_step a now e a')
  from reach_step.hyps(3) obtain a1 where "handle now a e = Some a1" "a' = a1\<lparr> clock := now \<rparr>"
    by (auto simp: step_def)
  with reach_step.IH show ?case by (auto dest: handle_calm)
qed

section \<open>Targets stay on the canvas\<close>

lemma on_canvas_static:
  "t_velocity t = Some 0 \<Longrightarrow>
   on_canvas cv t \<longleftrightarrow> t_radius t \<le> t_x t \<and> t_x t \<le> CANVAS_WIDTH cv - t_radius t"
  by (simp add: on_canvas_def)

lemma on_canvas_edges:
  "on_canvas cv t \<Longrightarrow> - 2 < t_x t - t_radius t \<and> t_x t + t_radius t < width cv + 2"
  by (cases "t_velocity t") (simp_all add: on_canvas_def pg_defs)

lemma spawn_on_canvas:
  assumes "addNewTarget cv d now diff (g, r) = Some (g', r')" and "rng_ok r"
    and "380 \<le> width cv" and "list_all (on_canvas cv) (targets g)"
  shows "list_all (on_canvas cv) (targets g')"
proof -
  from addNewTarget_spawned [OF assms(1,2)] obtain t where
    t: "spawned cv (currentDifficulty diff d) now g t" "targets g' = targets g @ [t]"
    by auto
  from addNewTarget_last_x [OF assms(1-3)] t(2)
  have "t_radius t \<le> t_x t \<and> t_x t \<le> width cv - t_radius t" by simp
  moreover from t(1) have "case t_velocity t of None \<Rightarrow> False | Some v \<Rightarrow> 0 \<le> v \<and> v < 2"
    by (cases "currentDifficulty diff d = Hard") (simp_all add: spawned_def split: option.splits)
  ultimately have "on_canvas cv t"
    by (cases "t_velocity t") (simp_all add: on_canvas_def pg_defs)
  with assms(4) t(2) show ?thesis by simp
qed

lemma click_on_canvas:
  assumes "handleCanvasClick cv gs d now cx cy (g, r) = Some (g', r')" and "rng_ok r"
    and "380 \<le> width cv" and "list_all (on_canvas cv) (targets g)"
  shows "list_all (on_canvas cv) (targets g')"
  using assms(1)
proof (cases rule: click_cases)
  case (hit i)
  from assms(4) have "list_all (on_canvas cv) (targets (register_hit now cx cy i g))"
    by (simp add: list_all_splice1)
  with hit(4) assms(2,3) show ?thesis by (rule spawn_on_canvas)
qed (use assms(4) in simp_all)

lemma hard_frame_on_canvas:
  assumes "target_wf t" and "on_canvas cv t" and "380 \<le> width cv"
  shows "on_canvas cv (move_target cv (wobble cv now t))"
proof -
  let ?w = "wobble cv now t"
  from assms(1) target_wf_radius [OF assms(1)] assms(3) have "t_radius t * 2 \<le> CANVAS_WIDTH cv"
    by (auto simp: pg_defs)
  from wobble_range [OF this, of now]
  have w: "t_radius t \<le> t_x ?w" "t_x ?w \<le> CANVAS_WIDTH cv - t_radius t" by simp_all
  from assms(2) obtain v where v: "t_velocity t = Some v" "0 \<le> v" "v < 2"
    by (auto simp: on_canvas_def split: option.splits)
  from move_target_step [OF wobble_wf [OF assms(1)], of cv now] v(1)
  have "\<bar>t_x (move_target cv ?w) - t_x ?w\<bar> = v" by (simp add: wobble_frame)
  with w v show ?thesis
    by (simp add: on_canvas_def move_target_frame wobble_frame) linarith
qed

lemma frame_on_canvas:
  assumes "game_inv g" and "list_all (on_canvas cv) (targets g)" and "380 \<le> width cv"
    and "d \<noteq> Hard \<longrightarrow> calm (targets g)"
  shows "list_all (on_canvas cv) (targets (advance_frame cv d st now g))"
proof (cases "d = Hard")
  case True
  from assms(1) have "list_all target_wf (targets g)" by (simp add: game_inv_defs)
  with assms(2,3) True show ?thesis
    by (auto simp: advance_frame_fields list_all_iff intro: hard_frame_on_canvas)
next
  case False
  with assms(2,4) show ?thesis by (simp add: frame_calm)
qed


lemma canvas_surjective [simp]: "\<lparr> width = width c, height = height c \<rparr> = c"
  by (cases c) simp

lemma field_inv_clock [simp]: "field_inv (a\<lparr> clock := now \<rparr>) = field_inv a"
  by (simp add: field_inv_def)

lemma initializeGame_on_canvas:
  assumes "initializeGame sd now a = Some a'" and "rng_ok (rnd a)" and "380 \<le> width (canvasSize a)"
  shows "list_all (on_canvas (canvasSize a)) (targets (current a'))" and "canvasSize a' = canvasSize a"
proof -
  from assms(1) obtain g1 r1 g2 r2 where
    a1: "addNewTarget (canvasSize a) (difficulty a) now (Some sd) (fresh_gameRef, rnd a) = Some (g1, r1)" and
    a2: "addNewTarget (canvasSize a) (difficulty a) now (Some sd) (g1, r1) = Some (g2, r2)" and
    a': "a' = a\<lparr> difficulty := sd, current := g2, rnd := r2, gameState := Game \<rparr>"
    by (rule initializeGame_SomeE)
  have "list_all (on_canvas (canvasSize a)) (targets fresh_gameRef)" by (simp add: fresh_gameRef_def)
  with a1 assms(2,3) have "list_all (on_canvas (canvasSize a)) (targets g1)" by (rule spawn_on_canvas)
  with a2 addNewTarget_rng_ok [OF a1 assms(2)] assms(3)
  have "list_all (on_canvas (canvasSize a)) (targets g2)" by (rule spawn_on_canvas)
  with a' show "list_all (on_canvas (canvasSize a)) (targets (current a'))"
    and "canvasSize a' = canvasSize a" by simp_all
qed

lemma restart_field:
  assumes "initializeGame sd now a = Some a1" and "rng_ok (rnd a)" and "380 \<le> width (canvasSize a)"
  shows "field_inv (start_loop now a1) \<and> canvasSize (start_loop now a1) = canvasSize a"
  using initializeGame_on_canvas [OF assms] by (simp add: field_inv_def start_loop_def)

lemma click_field:
  assumes "click now x y a = Some a'" and "rng_ok (rnd a)" and "380 \<le> width (canvasSize a)"
    and "field_inv a" and "gameState a = Game"
  shows "field_inv a' \<and> canvasSize a' = canvasSize a"
proof -
  from assms(1) obtain g r where
    h: "handleCanvasClick (canvasSize a) (gameState a) (difficulty a) now x y (current a, rnd a)
          = Some (g, r)" and a': "a' = a\<lparr> current := g, rnd := r \<rparr>"
    by (rule click_SomeE)
  from assms(4,5) have "list_all (on_canvas (canvasSize a)) (targets (current a))"
    by (simp add: field_inv_def)
  with h assms(2,3) have "list_all (on_canvas (canvasSize a)) (targets g)" by (rule click_on_canvas)
  with a' assms(4,5) show ?thesis by (simp add: field_inv_def)
qed

lemma gameLoop_field:
  assumes "session_inv a" and "calm_inv a" and "field_inv a" and "gameState a = Game"
    and "380 \<le> width (canvasSize a)"
  shows "field_inv (gameLoop now a) \<and> canvasSize (gameLoop now a) = canvasSize a"
proof -
  from assms(3,4) have f: "loopCanvas a = canvasSize a"
      "list_all (on_canvas (canvasSize a)) (targets (current a))"
    by (simp_all add: field_inv_def)
  from assms(2,4) have "difficulty a \<noteq> Hard \<longrightarrow> calm (targets (current a))"
    by (simp add: calm_inv_def)
  with session_invD(1) [OF assms(1)] f(2) assms(5)
  have "list_all (on_canvas (canvasSize a))
      (targets (advance_frame (canvasSize a) (difficulty a) (startTime a) now (current a)))"
    by (intro frame_on_canvas)
  with f(1) show ?thesis by (simp add: field_inv_def gameLoop_def Let_def)
qed

lemma handle_field:
  assumes "handle now a e = Some a'" and "session_inv a" and "calm_inv a" and "field_inv a"
    and "380 \<le> width (canvasSize a)" and "same_screen (canvasSize a) e"
  shows "field_inv a' \<and> canvasSize a' = canvasSize a"
proof (cases e)
  case (Resize w h)
  with assms(1,6) have "a' = a" by (simp add: updateCanvasSize_def)
  with assms(4) show ?thesis by simp
next
  case (SelectDifficulty d)
  with assms(1,4) session_invD(2) [OF assms(2)] assms(5) show ?thesis
    by (cases "gameState a = Menu") (auto dest: restart_field)
next
  case PlayAgain
  with assms(1,4) session_invD(2) [OF assms(2)] assms(5) show ?thesis
    by (cases "gameState a = End") (auto dest: restart_field split: option.splits)
next
  case BackToMenu
  with assms(1,4) show ?thesis by (auto simp: field_inv_def handleMouseMove_def split: if_splits)
next
  case (Click x y)
  with assms(1,4) session_invD(2) [OF assms(2)] assms(5) show ?thesis
    by (cases "gameState a = Game") (auto dest: click_field)
next
  case (MouseMove x y)
  with assms(1,4) show ?thesis by (auto simp: field_inv_def handleMouseMove_def split: if_splits)
next
  case Frame
  with assms show ?thesis by (cases "gameState a = Game") (auto dest: gameLoop_field)
qed

lemma step_field:
  assumes "step now a e = Some a'" and "session_inv a" and "calm_inv a" and "field_inv a"
    and "380 \<le> width (canvasSize a)" and "same_screen (canvasSize a) e"
  shows "field_inv a' \<and> canvasSize a' = canvasSize a"
  using assms by (auto simp: step_def dest: handle_field)

lemma run_field:
  assumes "reachable a" and "field_inv a" and "380 \<le> width (canvasSize a)"
    and "in_time (clock a) es" and "list_all (\<lambda>p. same_screen (canvasSize a) (snd p)) es"
    and "run a es = Some a'"
  shows "field_inv a' \<and> canvasSize a' = canvasSize a"
  using assms
proof (induction es arbitrary: a)
  case Nil
  then show ?case by simp
next
  case (Cons p es)
  obtain now e where p: "p = (now, e)" by (cases p)
  with Cons.prems obtain a1 where s: "step now a e = Some a1" and r: "run a1 es = Some a'"
    by (auto split: option.splits)
  from Cons.prems p s have r1: "reachable a1" by (auto intro: reach_step)
  from step_field [OF s reachable_inv [OF Cons.prems(1)] reachable_calm [OF Cons.prems(1)]
      Cons.prems(2,3)] Cons.prems(5) p
  have f: "field_inv a1" "canvasSize a1 = canvasSize a" by simp_all
  from Cons.prems p step_clock [OF s] have "in_time (clock a1) es" by simp
  with Cons.IH [OF r1 f(1) _ _ _ r] f(2) Cons.prems(3,5) show ?case by simp
qed


lemma on_full_hd_reachable: "reachable on_full_hd"
proof -
  have "reachable (initial_app demo_rng 0)" by (rule reach_start) simp
  moreover have "clock (initial_app demo_rng 0) \<le> 0" by (simp add: initial_app_def)
  moreover have "step 0 (initial_app demo_rng 0) (Resize 1920 1080) = Some on_full_hd"
    by (simp add: step_def updateCanvasSize_def initial_app_def)
  ultimately show ?thesis by (rule reach_step)
qed

lemma demo_start_on_full_hd: "run on_full_hd [(1000, SelectDifficulty Easy)] = Some started"
  using demo_start by (simp add: step_def updateCanvasSize_def initial_app_def split: option.splits)

section \<open>Properties of the positions\<close>

text \<open>
  C21. In a reachable state of an easy or intermediate game no live target drifts, and
  the centres of the two live targets are at least the sum of their radii plus 80
  apart: the discs never overlap.
\<close>

theorem calm_sessions_keep_targets_apart:
  assumes "reachable a" and "gameState a = Game" and "difficulty a \<noteq> Hard"
  shows "list_all (\<lambda>t. t_velocity t = Some 0) (targets (current a)) \<and>
         t_radius (targets (current a) ! 0) + t_radius (targets (current a) ! 1) + 80
           \<le> \<bar>t_x (targets (current a) ! 0) - t_x (targets (current a) ! 1)\<bar>"
proof -
  from reachable_inv [OF assms(1)] assms(2) have "length (targets (current a)) = 2"
    by (simp add: session_inv_def)
  then obtain t u where ts: "targets (current a) = [t, u]"
    by (cases "targets (current a)"; cases "tl (targets (current a))") auto
  from reachable_calm [OF assms(1)] assms(2,3) have "calm (targets (current a))"
    by (simp add: calm_inv_def)
  with ts show ?thesis by (simp add: calm_def)
qed

theorem calm_sessions_keep_targets_apart_witness:
  "reachable after_perfect_hit \<and> gameState after_perfect_hit = Game \<and>
   difficulty after_perfect_hit \<noteq> Hard \<and> (190 + 190 + 80 \<le> \<bar>575 - 1537.5 :: real\<bar>)"
  using calm_sessions_keep_targets_apart [OF after_perfect_hit_reachable]
    after_perfect_hit_reachable
  by (simp add: fresh_gameRef_def)

text \<open>
  C18. As long as the screen keeps its size and is at least 380 units wide, no target of a
  running game sticks out of the canvas by 2 units or more, in any difficulty: the
  spawner places a target within the width, the oscillation of a hard game is clamped
  to it, and the drift that follows the clamping is less than 2 units per frame.
\<close>

theorem targets_stay_on_the_canvas:
  assumes "reachable a" and "gameState a \<noteq> Game" and "380 \<le> width (canvasSize a)"
    and "in_time (clock a) es" and "list_all (\<lambda>p. same_screen (canvasSize a) (snd p)) es"
    and "run a es = Some a'" and "gameState a' = Game"
  shows "list_all (\<lambda>t. - 2 < t_x t - t_radius t \<and> t_x t + t_radius t < width (canvasSize a) + 2)
           (targets (current a'))"
proof -
  from assms(2) have "field_inv a" by (simp add: field_inv_def)
  from run_field [OF assms(1) this assms(3-6)] assms(7)
  have "list_all (on_canvas (canvasSize a)) (targets (current a'))" by (auto simp: field_inv_def)
  then show ?thesis by (rule list.pred_mono_strong) (rule on_canvas_edges)
qed

theorem targets_stay_on_the_canvas_witness:
  "reachable on_full_hd \<and> gameState on_full_hd \<noteq> Game \<and> 380 \<le> width (canvasSize on_full_hd) \<and>
   run on_full_hd [(1000, SelectDifficulty Easy)] = Some started \<and> gameState started = Game \<and>
   map t_x (targets (current started)) = [575, 1345] \<and>
   list_all (\<lambda>t. - 2 < t_x t - t_radius t \<and> t_x t + t_radius t < 1922) (targets (current started))"
  using targets_stay_on_the_canvas [OF on_full_hd_reachable _ _ _ _ demo_start_on_full_hd]
    on_full_hd_reachable demo_start_on_full_hd
  by (simp add: initial_app_def fresh_gameRef_def)

text \<open>
  The bound cannot be 0: the frame clamps the oscillation first (lines 537-541) and
  lets the target drift afterwards (lines 337-344), so a target that the clamping
  leaves at the edge is painted beyond it. Here a target of velocity 1.5 ends the
  frame half a unit over the right edge of a canvas 1920 units wide.
\<close>

theorem hard_target_drifts_over_the_edge:
  "target_wf drifting \<and> on_canvas full_hd drifting \<and>
   t_x (wobble full_hd 0 drifting) + t_radius drifting \<le> width full_hd \<and>
   t_x (move_target full_hd (wobble full_hd 0 drifting)) + t_radius drifting = width full_hd + 1/2"
  by (simp add: target_wf_def on_canvas_def wobble_def move_target_def pg_defs)

end
