(* ===== verification/Spec2Isabelle.thy ===== *)
theory Spec2Isabelle
  imports Session_Spec Hud_Format Game_Loop Playfield
begin

text \<open>
  \<^bold>\<open>Verification of the paddle game\<close>

  The program is one React component, \<^verbatim>\<open>PaddleGame\<close> in \<^verbatim>\<open>src/app/page.tsx\<close>: a reflex
  game on a canvas. A session lasts 60 seconds. Two circular targets are live at any
  time; a click inside a target scores between 0 and 100 points by its distance to the
  centre, removes the target and spawns a new one; a click in the lower part of the
  canvas (the net) costs 10 points; a click elsewhere is a miss and produces a burst of
  eight sparkles. In hard mode the targets drift and oscillate. When the time is up the
  component shows the statistics of the session.

  \<^bold>\<open>Parts of the program and the theories that model them\<close>

  \<^item> \<open>Paddle_Prelude\<close>: the representation of JavaScript values, the random source
    (\<open>Math_random\<close>, \<open>rng_ok\<close>), \<open>splice1\<close> for \<^verbatim>\<open>splice(i, 1)\<close>, and \<open>sweep\<close>, the
    loop shape \<^verbatim>\<open>for (i = n - 1; i >= 0; i--) { .. splice(i, 1) .. }\<close> of lines 410-425 and
    468-475. Its lemmas show that the loop is \<open>List.map_filter\<close>.
  \<^item> \<open>Game_Data\<close>: the types of lines 6-45 (\<open>GameState\<close>, \<open>Difficulty\<close>, \<open>Target\<close>,
    \<open>Feedback\<close>, \<open>Sparkle\<close>, \<open>GameStats\<close>), the object of \<^verbatim>\<open>gameRef\<close> (lines 58-69, record
    \<open>gameRef\<close>), the canvas size and the constants of lines 71-77, and the invariant
    \<open>game_inv\<close> of the game variables. The difficulties are a linear order, from easy
    to hard (\<open>level\<close>).
  \<^item> \<open>Spawner\<close>: \<^verbatim>\<open>addNewTarget\<close> (lines 129-165). The rejection loop of lines 134-150 is
    \<open>place_loop\<close>; one iteration is \<open>attempt\<close>, the overlap test is \<open>validPosition\<close>.
    The lemmas characterise when the loop returns, show that it cannot return on
    certain canvases, and state what is true of the target it adds (\<open>spawned\<close>).
  \<^item> \<open>Scoring\<close>: \<^verbatim>\<open>calculatePoints\<close> (lines 168-181) with the decimal label
    (\<open>show_int\<close>). The lemmas give the range and the monotonicity of the points, the
    exact condition of a perfect hit, and that the label reads back as the points.
  \<^item> \<open>Hit_Resolver\<close>: \<^verbatim>\<open>handleCanvasClick\<close> (lines 184-264) and \<^verbatim>\<open>handleMouseMove\<close>
    (lines 267-277): the guard, the net, the scan of the targets from the newest to the
    oldest (\<open>find_hit\<close>), the bookkeeping of a hit (\<open>register_hit\<close>), and the miss with
    its sparkle loop (\<open>sparkle_loop\<close>, in closed form \<open>burst\<close>). The lemmas give the
    effect of each branch and show that a click keeps \<open>game_inv\<close> and the number of
    targets.
  \<^item> \<open>Frame_Update\<close>: the state changes of \<^verbatim>\<open>draw\<close> (lines 334-344, 410-425, 468-475)
    and the first part of \<^verbatim>\<open>gameLoop\<close> (lines 530-543) as \<open>advance_frame\<close>, and the
    statistics of lines 550-563 as \<open>make_stats\<close>. The lemmas bound the motion of a
    target per frame, give the effect lists after \<open>n\<close> frames in closed form, and relate
    the remaining time to the clock.
  \<^item> \<open>Session\<close>: the component as a state machine: the React state, \<^verbatim>\<open>initializeGame\<close>
    (lines 100-126), \<^verbatim>\<open>updateCanvasSize\<close> (lines 80-98), the end of \<^verbatim>\<open>gameLoop\<close> (lines
    546-566), and the guards under which the callbacks are installed (lines 518-520,
    688-709, 731-737) as \<open>handle\<close>, \<open>step\<close> and \<open>run\<close>; the reachable states and their
    invariant \<open>session_inv\<close>.
  \<^item> \<open>Playfield\<close>: where the targets are during a session. \<open>calm_inv\<close> says that the
    targets of an easy or intermediate game never move and keep the distance of the
    spawner; \<open>field_inv\<close> says that the targets of a running game are on the canvas,
    up to the drift of one frame (\<open>on_canvas\<close>). The lemmas carry the bounds of the
    spawner and of the frame through clicks, frames and restarts, as long as the
    screen keeps its size (\<open>same_screen\<close>, \<open>run_field\<close>).
  \<^item> \<open>Session_Spec\<close>: an abstract machine over what a player observes (screen, score,
    hit counters, difficulty) with the transitions the specification allows, and the
    proof that the component refines it: every callback that returns is one transition
    of the machine or leaves the observation unchanged (\<open>step_observe\<close>). A bound on
    the score is proved on the machine and carried over to the component.
  \<^item> \<open>Hud_Format\<close>: the texts computed for the heads-up display (lines 635-659) and
    for the result card (lines 676-709): mode names, the clock \<open>mm:ss\<close>, the padded
    score, the accuracy in percent and the average reaction time with two decimals. The
    lemmas show that clock and score read back as the numbers they display.
  \<^item> \<open>Canvas\<close>: the drawing interface. A call of a method of the 2D context, or an
    assignment to one of its attributes, is a value of type \<open>cmd\<close>; a gradient with its
    colour stops is one \<open>paint\<close>. The second half is what the development assumes of the
    interface: \<open>cmd_ok\<close> (the command does not raise), \<open>cmd_wf\<close> (no argument is out of
    range), \<open>run_cmds\<close> with the error \<open>IndexSizeError\<close>, \<open>balanced\<close> for \<^verbatim>\<open>save\<close> and
    \<^verbatim>\<open>restore\<close> with the checker \<open>bal\<close> that decides it, and \<open>tidy\<close> for the state in
    which a frame finds and leaves the context.
  \<^item> \<open>Render\<close>: every call \<^verbatim>\<open>draw\<close> makes on the context (lines 280-513), as the list
    of commands of one frame: \<open>paint_background\<close> with the two grid loops (\<open>steps12\<close>,
    \<open>grid_v\<close>, \<open>grid_h\<close>), \<open>paint_target\<close>, \<open>paint_sparkle\<close> with the star loop,
    \<open>paint_feedback\<close> with \<open>text_style\<close>, and the two loops over the effects with their
    painting (\<open>sweep_paint\<close>). \<open>draw_full\<close> is the whole function, \<open>paint_frame\<close> the
    body of \<^verbatim>\<open>gameLoop\<close> up to its call. The lemmas show that its state component is
    \<open>draw\<close> of \<open>Frame_Update\<close>, give the picture in closed form (\<open>scene\<close>), and show
    that the commands are well formed, never raise on the states of the game, and leave
    the context tidy.
  \<^item> \<open>Screens\<close>: the trees of elements that \<^verbatim>\<open>renderMenu\<close>, \<^verbatim>\<open>renderGame\<close> and
    \<^verbatim>\<open>renderEnd\<close> return (lines 579-737) and the tree the component returns (\<open>view\<close>),
    with the callbacks their elements install (\<open>offers\<close>); and the position of the
    pointer on the canvas (\<open>shown_at\<close>, \<open>pointerPos\<close>). The lemmas show that the guards
    of \<open>handle\<close> are those of the markup.
  \<^item> \<open>Lifecycle\<close>: the component inside the browser (record \<open>life\<close>): the references
    \<^verbatim>\<open>canvasRef\<close> and \<^verbatim>\<open>animationRef\<close>, the effect of lines 80-98 (\<open>mount\<close>, \<open>unmount\<close>), the
    game-loop effect of lines 517-576 with its cleanup and its dependencies
    (\<open>loop_effect\<close>, \<open>loop_cleanup\<close>, \<open>commit\<close>), the requests for animation frames, one
    run of \<^verbatim>\<open>gameLoop\<close> with its painting (\<open>frame\<close>), and the callbacks of the elements
    (\<open>callback\<close>), as a step function \<open>lstep\<close> over the signals of the browser. The
    field \<open>rendered\<close> is the tree of the last render, which is what the page shows;
    \<open>rerenders\<close> says after which signals the component is rendered again. The lemmas
    give the invariant \<open>life_inv\<close>, show that the component refines the session of
    theory \<open>Session\<close> (\<open>lstep_refines\<close>), and that the frame served at or after 60
    seconds ends the game (\<open>played_out\<close>).
  \<^item> \<open>Shown_Page\<close>: what the page shows between two renders. The lemmas show that the
    page offers what the guards accept although it may show game variables of an
    earlier frame (\<open>shown_inv\<close>), and give the steps of a click, of a change of the
    screen and of a served frame in closed form.
  \<^item> \<open>Game_Loop\<close>: the run of the loop over the frames the browser serves (\<open>serve\<close>).
    The lemmas show that the loop runs exactly up to the first frame at or after 60
    seconds and then stops by itself (\<open>serve_runs\<close>), and that until then the game
    variables are those of the fold of frames of \<open>Frame_Update\<close> (\<open>serve_frames\<close>), so
    that the closed forms of the effects hold of the component (\<open>serve_effects\<close>).
  \<^item> This theory: the properties that need several components, namely that reaction
    times are never negative (\<open>timely\<close>), what a click on a drawn target scores when
    the page is not fullscreen, what a change of the screen during a game does to the
    loop and to the clicks (\<open>stale_loop\<close>), the page of the worked session with its
    texts (\<open>demo_frames\<close>), that a harder mode is never easier, the chain of
    refinements from the component in the browser to the abstract machine of
    \<open>Session_Spec\<close> (\<open>life_areach\<close>), and a complete worked session.

  \<^bold>\<open>How state and effects are represented\<close>

  Every operation takes the part of the state it reads and returns the part it writes.
  An operation that calls \<^verbatim>\<open>Math.random\<close> takes and returns the stream of numbers still
  to be drawn; an operation that calls \<^verbatim>\<open>Date.now\<close> takes the clock reading as the
  argument \<open>now\<close>. All calls to \<^verbatim>\<open>Date.now\<close> within one callback return the same
  reading. An operation that may fail to return has an \<open>option\<close> result, and \<open>None\<close>
  means that it does not return; this happens in \<open>place_loop\<close> only and is passed on by
  \<open>addNewTarget\<close>, \<open>handleCanvasClick\<close>, \<open>initializeGame\<close>, \<open>click\<close>, \<open>handle\<close>,
  \<open>step\<close> and \<open>run\<close>. What \<^verbatim>\<open>draw\<close> paints is a value, the list of its commands; the
  only exception the painting could raise is \<open>IndexSizeError\<close>, and running the list on
  a drawing context returns it as the left value of a sum (\<open>run_cmds\<close>).

  \<^bold>\<open>Loops\<close>

  No fuel is used. \<open>place_loop\<close> is a partial function in the option monad, and the
  lemmas about it are two-sided: \<open>place_loop_Some_iff\<close> says that it returns exactly
  when some attempt succeeds, \<open>place_loop_dead\<close> that it does not return when no
  position is free. \<open>sparkle_loop\<close> terminates by the measure \<open>8 - i\<close>; \<open>find_hit\<close> and
  \<open>sweep\<close> recurse on the number of indices still to visit; a run of frames is a fold
  over the list of clock readings, and so is the run of the game loop (\<open>serve\<close> in
  \<open>Game_Loop\<close>), whose end after 60 seconds is a theorem and not a bound of the model.
  The grid loops of \<^verbatim>\<open>draw\<close> step a real number by 12
  up to a bound; \<open>steps12\<close> terminates by the measure \<open>\<lceil>(w - x) / 12\<rceil>\<close>, the star loop by
  \<open>4 - j\<close>.

  \<^bold>\<open>Idealisations\<close>

  \<^item> Coordinates, radii, speeds and opacities are real numbers, so the rounding of
    IEEE doubles is not represented. With reals an effect created with opacity 1 is
    listed for exactly 49 frames.
  \<^item> The frame loop is the event \<open>Frame\<close>; the times at which the browser schedules
    frames are the clock readings of a run, which are arbitrary but do not decrease.
  \<^item> The game-loop effect is taken to start at the clock reading of the callback that
    started the game, and it captures the canvas size of that moment (\<open>loopCanvas\<close>):
    the running loop is not re-created when the window is resized, while clicks and
    spawns read the current size.
  \<^item> \<^verbatim>\<open>draw\<close> reads the clock twice (lines 334 and 428); both readings are the clock
    reading of the frame. Where an absent optional field would make an argument NaN, the
    context ignores the call, and the command is left out.
  \<^item> React and the browser are represented by what their documentation says of the
    calls the component makes: an effect runs after a render in which one of its
    dependencies has changed, its cleanup first; a request for an animation frame is
    served at most once and not after it was cancelled; the canvas is stretched to the
    size its style gives. A callback, the render that follows it when it has called a
    setter of the state, and the effects of that render are one step; the render shows
    the state as the callback left it.

  \<^bold>\<open>Not modelled\<close>

  The class names and the inline styles of the markup, apart from the size of the
  canvas; the output to the console (line 82); what the drawing context does with a
  command beyond its attributes, its stack of saved states and the number of shapes it
  has painted (no pixels). Whether the browser grants fullscreen display is not part of
  the state: the theorems about the pointer take the size of the viewport as a
  parameter.

  \<^bold>\<open>What the development found\<close>

  \<^item> \<open>addNewTarget\<close> does not return when no position is free, and in easy mode this is
    the case on every canvas between 380 and 840 units wide
    (\<open>Session.easy_start_hangs_below_840\<close>) and, for some positions of the live target, on
    every canvas less than 1300 units wide (\<open>Spawner.addNewTarget_hangs_on_narrow_canvas\<close>).
  \<^item> Points from 96 to 99 are never awarded (\<open>Scoring.points_skip_96_to_99\<close>).
  \<^item> On a canvas less than 760 units high the lower part of a large target lies in the
    net, where a click is a penalty and not a hit.
  \<^item> The canvas has the pixel size of the screen but is shown stretched over the
    viewport, and \<^verbatim>\<open>handleCanvasClick\<close> does not scale the position of the pointer. Unless
    the page is fullscreen a click lands elsewhere than the pointer shows: on the drawn
    centre of a target it is never perfect (\<open>windowed_centre_click_is_never_perfect\<close>)
    and can miss the target (\<open>windowed_click_misses_the_target_it_is_on\<close>).
  \<^item> A change of the screen during a game reaches the clicks and the spawner but not
    the running loop, which goes on painting the net where it was
    (\<open>changed_screen_moves_the_net_but_not_its_picture\<close>).
  \<^item> The frame clamps the oscillation of hard mode before the drift, so a target can
    end a frame over the edge of the canvas, by less than 2 units
    (\<open>Playfield.targets_stay_on_the_canvas\<close>, \<open>Playfield.hard_target_drifts_over_the_edge\<close>).
  \<^item> The page shows the score of the last frame and not of the last click
    (\<open>Shown_Page.shown_score_waits_for_the_next_frame\<close>); this is as intended.
  \<^item> The yellow style for the text of a missed click is dead code
    (\<open>Render.yellow_miss_style_is_never_used\<close>).
  \<^item> Without a drawing context a started game never ends and cannot be left
    (\<open>Lifecycle.without_context_the_game_never_ends\<close>).
  \<^item> A sparkle is painted less than 4 pixels away from the click that made it
    (\<open>Render.sparkle_stays_near_click\<close>): the burst hardly spreads.
\<close>

section \<open>Notions that span the components\<close>

text \<open>
  \<open>timely t g\<close>: no live target of \<open>g\<close> was created after clock reading \<open>t\<close>, and no
  recorded reaction time is negative.
\<close>

definition timely :: "int \<Rightarrow> gameRef \<Rightarrow> bool" where
  "timely t g \<longleftrightarrow>
     list_all (\<lambda>u. case t_createdAt u of None \<Rightarrow> False | Some c \<Rightarrow> c \<le> t) (targets g) \<and>
     list_all (\<lambda>rt. 0 \<le> rt) (reactionTimes g)"

section \<open>Reaction times are not negative\<close>

lemma timely_fresh [simp]: "timely t fresh_gameRef"
  by (simp add: timely_def fresh_gameRef_def)

lemma timely_mono: "t \<le> t' \<Longrightarrow> timely t g \<Longrightarrow> timely t' g"
  by (auto simp: timely_def list_all_iff split: option.splits)

lemma spawn_timely:
  assumes "addNewTarget cv d now diff (g, r) = Some (g', r')" and "timely now g"
  shows "timely now g'"
proof -
  from assms(1) obtain t where "targets g' = targets g @ [t]" "t_createdAt t = Some now"
    by (rule addNewTarget_new) simp
  with assms(2) addNewTarget_counters(4) [OF assms(1)] show ?thesis by (simp add: timely_def)
qed

lemma reactionTime_of_nonneg:
  "(case t_createdAt t of None \<Rightarrow> False | Some c \<Rightarrow> c \<le> now) \<Longrightarrow> 0 \<le> reactionTime_of now t"
  by (simp add: reactionTime_of_def split: option.splits)

lemma hit_timely:
  assumes "timely now g" and "i < length (targets g)"
  shows "timely now (register_hit now cx cy i g)"
proof -
  from assms have "0 \<le> reactionTime_of now (targets g ! i)"
    by (intro reactionTime_of_nonneg) (simp add: timely_def list_all_length)
  with assms(1) show ?thesis by (simp add: timely_def list_all_splice1)
qed

lemma click_timely:
  assumes "handleCanvasClick cv gs d now cx cy (g, r) = Some (g', r')" and "timely now g"
  shows "timely now g'"
  using assms(1)
proof (cases rule: click_cases)
  case (hit i)
  from hit(3) have "i < length (targets g)" by (auto dest: find_hit_SomeD)
  with assms(2) have "timely now (register_hit now cx cy i g)" by (rule hit_timely)
  with hit(4) show ?thesis by (rule spawn_timely)
qed (use assms(2) in \<open>simp_all add: timely_def\<close>)

lemma frame_timely [simp]: "timely t (advance_frame cv d st now g) = timely t g"
  by (simp add: timely_def advance_frame_fields advance_frame_frame list_all_iff
      move_target_frame wobble_frame)

lemma initializeGame_timely:
  assumes "initializeGame sd now a = Some a'"
  shows "timely now (current a')"
proof -
  from assms obtain g1 r1 g2 r2 where
    a1: "addNewTarget (canvasSize a) (difficulty a) now (Some sd) (fresh_gameRef, rnd a) = Some (g1, r1)" and
    a2: "addNewTarget (canvasSize a) (difficulty a) now (Some sd) (g1, r1) = Some (g2, r2)" and
    a': "a' = a\<lparr> difficulty := sd, current := g2, rnd := r2, gameState := Game \<rparr>"
    by (rule initializeGame_SomeE)
  have "timely now fresh_gameRef" by simp
  with a1 have "timely now g1" by (rule spawn_timely)
  with a2 have "timely now g2" by (rule spawn_timely)
  with a' show ?thesis by simp
qed

lemma restart_timely:
  assumes "map_option (start_loop now) (initializeGame sd now a) = Some a'"
  shows "timely now (current a')"
proof -
  from assms obtain a1 where "initializeGame sd now a = Some a1" "a' = start_loop now a1"
    by (cases "initializeGame sd now a") simp_all
  then show ?thesis by (simp add: initializeGame_timely start_loop_def)
qed

lemma click_timely_app:
  assumes "click now x y a = Some a'" and "timely now (current a)"
  shows "timely now (current a')"
proof -
  from assms(1) obtain g r where
    h: "handleCanvasClick (canvasSize a) (gameState a) (difficulty a) now x y (current a, rnd a)
          = Some (g, r)" and a': "a' = a\<lparr> current := g, rnd := r \<rparr>"
    by (rule click_SomeE)
  from h assms(2) have "timely now g" by (rule click_timely)
  with a' show ?thesis by simp
qed

lemma handle_timely:
  assumes "handle now a e = Some a'" and "timely now (current a)"
  shows "timely now (current a')"
proof (cases e)
  case (Resize w h)
  with assms show ?thesis by (auto simp: updateCanvasSize_def)
next
  case (SelectDifficulty d0)
  with assms show ?thesis by (cases "gameState a = Menu") (simp_all add: restart_timely)
next
  case (Click x y)
  with assms show ?thesis by (cases "gameState a = Game") (simp_all add: click_timely_app)
next
  case (MouseMove x y)
  with assms show ?thesis
    by (cases "gameState a = Game") (auto simp: timely_def handleMouseMove_def)
next
  case Frame
  with assms show ?thesis
    by (cases "gameState a = Game") (auto simp: gameLoop_def Let_def)
next
  case PlayAgain
  show ?thesis
  proof (cases "gameStats a")
    case None
    with assms PlayAgain show ?thesis by (simp split: if_splits)
  next
    case (Some st)
    with assms PlayAgain show ?thesis
      by (cases "gameState a = End") (simp_all add: restart_timely)
  qed
next
  case BackToMenu
  with assms show ?thesis by (auto split: if_splits)
qed

lemma reachable_timely: "reachable a \<Longrightarrow> timely (clock a) (current a)"
proof (induction rule: reachable.induct)
  case (reach_start r t0)
  then show ?case by (simp add: initial_app_def)
next
  case (reach_step a now e a')
  from reach_step.hyps(3) obtain a1 where
    h: "handle now a e = Some a1" and a': "a' = a1\<lparr> clock := now \<rparr>"
    by (auto simp: step_def)
  from reach_step.hyps(2) reach_step.IH have "timely now (current a)" by (rule timely_mono)
  with h have "timely now (current a1)" by (rule handle_timely)
  with a' show ?case by simp
qed

section \<open>The pointer and the picture\<close>

lemma distance_to_ge:
  "\<bar>cx - t_x t\<bar> \<le> distance_to cx cy t" "\<bar>cy - t_y t\<bar> \<le> distance_to cx cy t"
  by (simp_all add: distance_to_def real_le_rsqrt)

lemma far_is_not_perfect:
  assumes "target_wf t" and "\<bar>cy - t_y t\<bar> * 20 \<ge> t_radius t"
  shows "snd (calculatePoints (distance_to cx cy t) (t_radius t)) \<noteq> ''PERFECT''"
proof -
  from distance_to_ge(2) [of cy t cx] assms(2) have "\<not> distance_to cx cy t * 20 < t_radius t"
    by simp
  with target_wf_radius_pos [OF assms(1)]
    accuracy_perfect_iff [of "t_radius t" "distance_to cx cy t"]
    perfect_label_iff [of "distance_to cx cy t" "t_radius t"]
  show ?thesis by simp
qed

lemma windowed_centre_offset:
  assumes "t_y t = TARGET_SPAWN_Y cv" and "0 < height cv" and "snd vp + 24 < height cv"
  shows "9.6 < \<bar>snd (click_on vp cv (t_x t, t_y t)) - t_y t\<bar>"
proof -
  from assms(2) have "t_y t - snd (click_on vp cv (t_x t, t_y t)) = 0.4 * (height cv - snd vp)"
    by (simp add: click_on_eq assms(1) pg_defs field_simps)
  with assms(3) show ?thesis by simp
qed

section \<open>The loop and a changed screen\<close>

lemma stale_loop:
  assumes "lreachable l" and "n \<in> set (pending l)"
    and "lstep t1 l (ScreenChange w h) = Some l1"
    and "lstep t2 l1 (AnimationFrame n) = Some l2"
    and "NET_Y \<lparr> width = w, height = h \<rparr> < y"
  shows "LineTo (CANVAS_WIDTH (loopCanvas (app_of l))) (NET_Y (loopCanvas (app_of l)))
           \<in> set (picture l2)"
    and "lstep t3 l1 (User (Click x y)) =
           Some (l1\<lparr> app_of := (app_of l1)\<lparr> current := (current (app_of l1))
              \<lparr> feedback := feedback (current (app_of l1)) @ [penalty_feedback x y],
                score := max 0 (score (current (app_of l1)) - 10) \<rparr>, clock := t3 \<rparr> \<rparr>)"
proof -
  note inv = lreachable_inv [OF assms(1)]
  note s = lstep_ScreenChange [OF inv assms(2,3)]
  from inv assms(2) have g: "gameState (app_of l) = Game" by (auto simp: life_inv_def)
  from lstep_picture [OF assms(4)] assms(2) s(1,2)
  show "LineTo (CANVAS_WIDTH (loopCanvas (app_of l))) (NET_Y (loopCanvas (app_of l)))
           \<in> set (picture l2)"
    by (simp add: net_line_painted)
  from assms(5) have "y > NET_Y (canvasSize (app_of l1))" by (simp add: s(1))
  with g s(1) have "step t3 (app_of l1) (Click x y) =
      Some ((app_of l1)\<lparr> current := (current (app_of l1))
              \<lparr> feedback := feedback (current (app_of l1)) @ [penalty_feedback x y],
                score := max 0 (score (current (app_of l1)) - 10) \<rparr>, clock := t3 \<rparr>)"
    by (simp add: step_def click_def handleCanvasClick_penalty)
  with s(3) g s(1) show "lstep t3 l1 (User (Click x y)) =
           Some (l1\<lparr> app_of := (app_of l1)\<lparr> current := (current (app_of l1))
              \<lparr> feedback := feedback (current (app_of l1)) @ [penalty_feedback x y],
                score := max 0 (score (current (app_of l1)) - 10) \<rparr>, clock := t3 \<rparr> \<rparr>)"
    by (intro lstep_click) simp_all
qed


section \<open>Harder modes and the chain of refinements\<close>

lemma harder_is_not_slower:
  assumes "d \<le> d'" and "rng_ok r"
  shows "fst (pick_velocity d r) \<le> fst (pick_velocity d' r)"
  using assms rng_ok_shd [of r]
  by (auto simp: pick_velocity_def Math_random_def split: prod.splits)

lemma harder_is_not_larger:
  assumes "d \<le> d'"
  shows "radius_of (fst (pick_size d' r)) \<le> radius_of (fst (pick_size d r))"
  using assms by (auto simp: pick_size_def radius_of_def split: prod.splits)

lemma life_areach:
  assumes "lreachable l" and "has_context l"
  shows "areach (observe (app_of l))"
  using assms by (intro reachable_areach lreachable_reachable)

section \<open>The page of the worked session\<close>


section \<open>Properties of the whole program\<close>


text \<open>
  In every reachable state no live target was created after the last clock
  reading, no recorded reaction time is negative, and neither is their average.
\<close>

theorem reaction_times_are_not_negative:
  assumes "reachable a"
  shows "list_all (\<lambda>rt. 0 \<le> rt) (reactionTimes (current a)) \<and>
         0 \<le> avgReactionTime (reactionTimes (current a)) \<and>
         list_all (\<lambda>u. case t_createdAt u of None \<Rightarrow> False | Some c \<Rightarrow> c \<le> clock a)
           (targets (current a))"
  using reachable_timely [OF assms] by (simp add: timely_def avgReactionTime_nonneg)

theorem reaction_times_are_not_negative_witness:
  "reachable after_perfect_hit \<and> reactionTimes (current after_perfect_hit) = [1500] \<and>
   avgReactionTime (reactionTimes (current after_perfect_hit)) = 1500"
  using reaction_times_are_not_negative [OF after_perfect_hit_reachable]
    after_perfect_hit_reachable
  by (simp add: fresh_gameRef_def avgReactionTime_def)

text \<open>
  When the viewport has the size of the screen, as it has in fullscreen display, the
  position that \<^verbatim>\<open>handleCanvasClick\<close> works with is the pixel of the canvas that the
  pointer shows.
\<close>

theorem fullscreen_click_lands_where_it_is_drawn:
  assumes "0 < width cv" and "0 < height cv"
  shows "click_on (width cv, height cv) cv p = p"
  using assms by (rule click_on_fullscreen)

theorem fullscreen_click_lands_where_it_is_drawn_witness:
  "0 < width full_hd \<and> 0 < height full_hd \<and> click_on (width full_hd, height full_hd) full_hd (1345, 432) = (1345, 432)"
  using fullscreen_click_lands_where_it_is_drawn [of full_hd "(1345, 432)"] by simp

text \<open>
  C13. When the viewport is more than 24 pixels lower than the screen, as it is in every
  browser window that is not fullscreen, a click on the drawn centre of a target is
  never a perfect hit: the canvas has the size of the screen and is shown stretched
  over the viewport, and \<^verbatim>\<open>handleCanvasClick\<close> does not scale the position of the
  pointer back (lines 190-192).
\<close>

theorem windowed_centre_click_is_never_perfect:
  assumes "target_wf t" and "t_y t = TARGET_SPAWN_Y cv" and "0 < height cv"
    and "snd vp + 24 < height cv"
  shows "case click_on vp cv (t_x t, t_y t) of
           (cx, cy) \<Rightarrow> snd (calculatePoints (distance_to cx cy t) (t_radius t)) \<noteq> ''PERFECT''"
proof -
  from target_wf_radius [OF assms(1)] windowed_centre_offset [OF assms(2-4)]
  have "t_radius t \<le> \<bar>snd (click_on vp cv (t_x t, t_y t)) - t_y t\<bar> * 20" by auto
  from far_is_not_perfect [OF assms(1) this] show ?thesis by (simp add: case_prod_beta)
qed

theorem windowed_centre_click_is_never_perfect_witness:
  "target_wf (large_target 0 960 432 0) \<and> t_y (large_target 0 960 432 0) = TARGET_SPAWN_Y full_hd \<and>
   0 < height full_hd \<and> snd (1920, 969) + 24 < height full_hd \<and>
   (case click_on (1920, 969) full_hd (960, 432) of
      (cx, cy) \<Rightarrow> snd (calculatePoints (distance_to cx cy (large_target 0 960 432 0)) 190) \<noteq> ''PERFECT'')"
  using windowed_centre_click_is_never_perfect [of "large_target 0 960 432 0" full_hd "(1920, 969)"]
  by (simp add: target_wf_def pg_defs)

text \<open>
  When the viewport is narrower than the screen, a click on the drawn centre of a
  target that is far enough to the right is not inside the target at all: it counts as
  a miss, or hits another target.
\<close>

theorem windowed_click_misses_the_target_it_is_on:
  assumes "0 < width cv" and "0 < height cv"
    and "t_radius t < \<bar>t_x t * (1 - fst vp / width cv)\<bar>"
  shows "case click_on vp cv (t_x t, t_y t) of (cx, cy) \<Rightarrow> \<not> inside cx cy t"
proof -
  from click_on_offset(1) [OF assms(1,2), of "(t_x t, t_y t)" vp] assms(3)
  have "t_radius t < \<bar>fst (click_on vp cv (t_x t, t_y t)) - t_x t\<bar>" by simp
  with distance_to_ge(1) [of "fst (click_on vp cv (t_x t, t_y t))" t "snd (click_on vp cv (t_x t, t_y t))"]
  show ?thesis by (simp add: inside_def case_prod_beta)
qed

theorem windowed_click_misses_the_target_it_is_on_witness:
  "0 < width full_hd \<and> 0 < height full_hd \<and>
   t_radius (large_target 0 1345 432 0) <
     \<bar>t_x (large_target 0 1345 432 0) * (1 - fst (1280, 720) / width full_hd)\<bar> \<and>
   (case click_on (1280, 720) full_hd (1345, 432) of
      (cx, cy) \<Rightarrow> \<not> inside cx cy (large_target 0 1345 432 0))"
  using windowed_click_misses_the_target_it_is_on [of full_hd "large_target 0 1345 432 0" "(1280, 720)"]
  by simp

text \<open>
  A harder mode is never easier: with the same random numbers, a target of a harder
  mode is at least as fast and at most as large as one of an easier mode.
\<close>

theorem harder_modes_are_not_easier:
  assumes "d \<le> d'" and "rng_ok r"
  shows "fst (pick_velocity d r) \<le> fst (pick_velocity d' r) \<and>
         radius_of (fst (pick_size d' r)) \<le> radius_of (fst (pick_size d r))"
  using assms by (simp add: harder_is_not_slower harder_is_not_larger)

theorem harder_modes_are_not_easier_witness:
  "Easy \<le> Hard \<and> rng_ok (sconst (1/4)) \<and>
   fst (pick_velocity Easy (sconst (1/4))) \<le> fst (pick_velocity Hard (sconst (1/4))) \<and>
   radius_of (fst (pick_size Hard (sconst (1/4)))) \<le> radius_of (fst (pick_size Easy (sconst (1/4))))"
  using harder_modes_are_not_easier [of Easy Hard "sconst (1/4)"] by simp

text \<open>
  The refinements compose: as long as the canvas yields a drawing context, what a
  player observes of the component in the browser, the screen, the score, the hit
  counters and the difficulty, is a state the abstract machine of the specification
  can reach, and so the score is bounded by the quality of the hits.
\<close>

theorem component_refines_the_scoreboard:
  assumes "lreachable l" and "has_context l"
  shows "areach (observe (app_of l)) \<and> board_ok (observe (app_of l))"
  using life_areach [OF assms] by (simp add: areach_board_ok)

theorem component_refines_the_scoreboard_witness:
  "lreachable playing \<and> has_context playing \<and> areach (observe (app_of playing)) \<and>
   board_ok (observe (app_of playing))"
  using component_refines_the_scoreboard [OF playing_reachable] playing_reachable by simp


text \<open>
  C24. When the size of the screen changes during a game, the callbacks of the canvas work
  with the new size at once, but the game loop keeps the size it was started with,
  because its effect does not depend on the size (line 576). So the next frame paints
  the top edge of the net at the old height, while the next click is a net click as
  soon as it lies below the net of the new size: it gets the red text of a penalty and
  costs 10 points, wherever the net is painted.
\<close>

theorem changed_screen_moves_the_net_but_not_its_picture:
  assumes "lreachable l" and "n \<in> set (pending l)"
    and "lstep t1 l (ScreenChange w h) = Some l1"
    and "lstep t2 l1 (AnimationFrame n) = Some l2"
    and "NET_Y \<lparr> width = w, height = h \<rparr> < y"
  shows "LineTo (CANVAS_WIDTH (loopCanvas (app_of l))) (NET_Y (loopCanvas (app_of l)))
           \<in> set (picture l2) \<and>
         lstep t3 l1 (User (Click x y)) =
           Some (l1\<lparr> app_of := (app_of l1)\<lparr> current := (current (app_of l1))
              \<lparr> feedback := feedback (current (app_of l1)) @ [penalty_feedback x y],
                score := max 0 (score (current (app_of l1)) - 10) \<rparr>, clock := t3 \<rparr> \<rparr>)"
  using stale_loop [OF assms] by simp

theorem changed_screen_moves_the_net_but_not_its_picture_witness:
  "\<exists>l1 l2 l3. lreachable playing \<and> 1 \<in> set (pending playing) \<and>
     lstep 2000 playing (ScreenChange 1280 720) = Some l1 \<and>
     lstep 2016 l1 (AnimationFrame 1) = Some l2 \<and>
     NET_Y hd_720 < 500 \<and> 500 < NET_Y full_hd \<and>
     LineTo 1920 (NET_Y full_hd) \<in> set (picture l2) \<and>
     lstep 2500 l1 (User (Click 100 500)) = Some l3 \<and>
     feedback (current (app_of l3)) = [penalty_feedback 100 500]"
proof -
  obtain l1 where l1: "lstep 2000 playing (ScreenChange 1280 720) = Some l1"
    by (simp add: lstep_def)
  obtain l2 where l2: "lstep 2016 l1 (AnimationFrame 1) = Some l2" by (simp add: lstep_def)
  have p: "1 \<in> set (pending playing)" by simp
  have n: "NET_Y hd_720 < 500" "500 < NET_Y full_hd" by (simp_all add: pg_defs)
  note s = lstep_ScreenChange [OF lreachable_inv [OF playing_reachable] p l1]
  from changed_screen_moves_the_net_but_not_its_picture
    [OF playing_reachable p l1 l2 n(1), of 2500 100] s(1)
  have "LineTo 1920 (NET_Y full_hd) \<in> set (picture l2)"
    and "\<exists>l3. lstep 2500 l1 (User (Click 100 500)) = Some l3 \<and>
           feedback (current (app_of l3)) = [penalty_feedback 100 500]"
    by (simp_all add: pg_defs fresh_gameRef_def)
  with playing_reachable p l1 l2 n show ?thesis by blast
qed

end
